theory Spec2Isabelle
  imports
    Main
    "HOL-Library.AList"
    "HOL-Library.Multiset"
    "HOL-Library.Char_ord"
    "HOL-Library.List_Lexorder"
    "HOL-Library.Sublist"
begin

section \<open>Cloudflare tunnel configuration manager: data model\<close>

text \<open>
  The development embeds \<^verbatim>\<open>cloudflare/tunnels/update_config.py\<close>.
  A Python \<^verbatim>\<open>dict\<close> is an association list with pairwise distinct keys, in
  insertion order; \<^verbatim>\<open>d[k] = v\<close> is \<^const>\<open>AList.update\<close> (an existing key keeps
  its position, a new key goes to the end) and \<^verbatim>\<open>d[k]\<close> is \<^const>\<open>map_of\<close>.
  A Python \<^verbatim>\<open>set\<close> of strings is a HOL set; the order in which a \<^verbatim>\<open>for\<close> loop
  visits its elements is not fixed by the language (string hashes are salted per
  process), so every function that iterates over a set takes the iteration order
  as its first argument \<open>iter\<close>.
\<close>

subsection \<open>Scalar values of the open-ended origin options\<close>

datatype pyval = PyNone | PyBool bool | PyInt int | PyStr string

text \<open>Python's \<^verbatim>\<open>==\<close> on these scalars: \<^verbatim>\<open>bool\<close> is a subtype of \<^verbatim>\<open>int\<close>,
  so \<^verbatim>\<open>True == 1\<close> and \<^verbatim>\<open>False == 0\<close>.\<close>

fun py_eq :: "pyval \<Rightarrow> pyval \<Rightarrow> bool" where
  "py_eq PyNone PyNone = True"
| "py_eq (PyBool a) (PyBool b) = (a = b)"
| "py_eq (PyInt a) (PyInt b) = (a = b)"
| "py_eq (PyBool a) (PyInt b) = ((if a then 1 else 0) = b)"
| "py_eq (PyInt a) (PyBool b) = (a = (if b then 1 else 0))"
| "py_eq (PyStr a) (PyStr b) = (a = b)"
| "py_eq _ _ = False"

text \<open>\<^verbatim>\<open>dict.__eq__\<close>: equal lengths, and every key of the left operand is a key of
  the right one with an equal value. The insertion order plays no part.\<close>

definition dict_eq :: "(string \<times> pyval) list \<Rightarrow> (string \<times> pyval) list \<Rightarrow> bool" where
  "dict_eq d1 d2 \<longleftrightarrow>
     length d1 = length d2 \<and>
     list_all (\<lambda>(k, v). case map_of d2 k of None \<Rightarrow> False | Some w \<Rightarrow> py_eq v w) d1"

subsection \<open>OriginRequest and TunnelRoute\<close>

text \<open>\<^verbatim>\<open>OriginRequest\<close> has the declared field \<^verbatim>\<open>noTLSVerify\<close> and, by
  \<^verbatim>\<open>extra = "allow"\<close>, a dict of every other key it was built with.\<close>

record OriginRequest =
  noTLSVerify :: "bool option"
  extra :: "(string \<times> pyval) list"

record TunnelRoute =
  hostname :: string
  service :: string
  originRequest :: "OriginRequest option"

text \<open>Equality of two pydantic models of the same class: the declared fields are equal and
  the extra dicts are equal.\<close>

definition OriginRequest_eq :: "OriginRequest \<Rightarrow> OriginRequest \<Rightarrow> bool" where
  "OriginRequest_eq x y \<longleftrightarrow> noTLSVerify x = noTLSVerify y \<and> dict_eq (extra x) (extra y)"

text \<open>\<^verbatim>\<open>self.originRequest == other.originRequest\<close> on two optional values:
  \<^verbatim>\<open>None\<close> equals only \<^verbatim>\<open>None\<close>.\<close>

fun optional_eq :: "OriginRequest option \<Rightarrow> OriginRequest option \<Rightarrow> bool" where
  "optional_eq None None = True"
| "optional_eq (Some x) (Some y) = OriginRequest_eq x y"
| "optional_eq _ _ = False"

text \<open>\<^verbatim>\<open>TunnelRoute.__eq__\<close> (both operands are routes).\<close>

definition route_eq :: "TunnelRoute \<Rightarrow> TunnelRoute \<Rightarrow> bool" where
  "route_eq a b \<longleftrightarrow>
     hostname a = hostname b \<and> service a = service b \<and>
     optional_eq (originRequest a) (originRequest b)"

text \<open>The invariant of a Python dict: no key occurs twice.\<close>

definition wf_origin :: "OriginRequest \<Rightarrow> bool" where
  "wf_origin q \<longleftrightarrow> distinct (map fst (extra q))"

definition wf_route :: "TunnelRoute \<Rightarrow> bool" where
  "wf_route r \<longleftrightarrow> (case originRequest r of None \<Rightarrow> True | Some q \<Rightarrow> wf_origin q)"

subsection \<open>RouteActions\<close>

record RouteActions =
  create :: "TunnelRoute list"
  update :: "TunnelRoute list"
  delete :: "TunnelRoute list"

definition has_changes :: "RouteActions \<Rightarrow> bool" where
  "has_changes a \<longleftrightarrow> create a \<noteq> [] \<or> update a \<noteq> [] \<or> delete a \<noteq> []"

section \<open>Route reconciliation\<close>

text \<open>\<^verbatim>\<open>{r.hostname: r for r in routes}\<close>: a later route with the same hostname
  replaces the earlier one.\<close>

definition routes_dict :: "TunnelRoute list \<Rightarrow> (string \<times> TunnelRoute) list" where
  "routes_dict rs = fold (\<lambda>r d. AList.update (hostname r) r d) rs []"

text \<open>\<^verbatim>\<open>d[k]\<close> for a key taken from \<^verbatim>\<open>d.keys()\<close>; every use below looks up a key of
  the dict (lemma \<open>getitem_routes_dict\<close>), so the \<^verbatim>\<open>KeyError\<close> branch is never taken.\<close>

definition getitem :: "(string \<times> 'v) list \<Rightarrow> string \<Rightarrow> 'v" where
  "getitem d k = the (map_of d k)"

definition valid_iter :: "(string set \<Rightarrow> string list) \<Rightarrow> bool" where
  "valid_iter iter \<longleftrightarrow> (\<forall>S. finite S \<longrightarrow> set (iter S) = S \<and> distinct (iter S))"

definition compare_routes ::
  "(string set \<Rightarrow> string list) \<Rightarrow> TunnelRoute list \<Rightarrow> TunnelRoute list \<Rightarrow> RouteActions" where
  "compare_routes iter local remote =
     (let local_dict = routes_dict local;
          remote_dict = routes_dict remote;
          local_hostnames = set (map fst local_dict);
          remote_hostnames = set (map fst remote_dict)
      in \<lparr> create = map (getitem local_dict) (iter (local_hostnames - remote_hostnames)),
           update = map (getitem local_dict)
                      (filter (\<lambda>h. \<not> route_eq (getitem local_dict h) (getitem remote_dict h))
                         (iter (local_hostnames \<inter> remote_hostnames))),
           delete = map (getitem remote_dict) (iter (remote_hostnames - local_hostnames)) \<rparr>)"

text \<open>One admissible iteration order, used to run the functions on concrete inputs.\<close>

definition sorted_iter :: "string set \<Rightarrow> string list" where
  "sorted_iter S = sorted_list_of_set S"

section \<open>The tunnel configuration document\<close>

text \<open>An ingress rule is the dict sent to and received from the API: the catch-all rule has
  no \<^verbatim>\<open>hostname\<close> key.\<close>

record ingress_rule =
  rule_hostname :: "string option"
  rule_service :: string
  rule_originRequest :: "(string \<times> pyval) list option"

record TunnelConfig =
  ingress :: "ingress_rule list"

text \<open>\<^verbatim>\<open>model_dump(by_alias=True, exclude_none=True)\<close> of an \<^verbatim>\<open>OriginRequest\<close>:
  the declared field first, then the extra keys; keys whose value is \<^verbatim>\<open>None\<close> are left out.\<close>

definition model_dump :: "OriginRequest \<Rightarrow> (string \<times> pyval) list" where
  "model_dump q =
     (case noTLSVerify q of None \<Rightarrow> [] | Some b \<Rightarrow> [(''noTLSVerify'', PyBool b)]) @
     filter (\<lambda>(k, v). v \<noteq> PyNone) (extra q)"

text \<open>\<^verbatim>\<open>TunnelRoute.to_dict\<close>; a model instance is truthy, so \<^verbatim>\<open>if self.originRequest\<close>
  tests for \<^verbatim>\<open>None\<close>.\<close>

definition to_dict :: "TunnelRoute \<Rightarrow> ingress_rule" where
  "to_dict r =
     \<lparr> rule_hostname = Some (hostname r), rule_service = service r,
       rule_originRequest =
         (case originRequest r of None \<Rightarrow> None | Some q \<Rightarrow> Some (model_dump q)) \<rparr>"

definition catch_all :: ingress_rule where
  "catch_all = \<lparr> rule_hostname = None, rule_service = ''http_status:404'',
                 rule_originRequest = None \<rparr>"

definition build_cloudflare_config :: "TunnelRoute list \<Rightarrow> TunnelConfig" where
  "build_cloudflare_config routes = \<lparr> ingress = map to_dict routes @ [catch_all] \<rparr>"

section \<open>DNS records\<close>

record DNSRecord =
  dns_id :: "string option"
  dns_type :: string
  dns_name :: string
  dns_content :: string
  dns_proxied :: bool
  dns_ttl :: int

text \<open>One element of \<^verbatim>\<open>response.result\<close>: a dict in which the keys read with
  \<^verbatim>\<open>.get\<close> may be absent (\<open>None\<close>).\<close>

record record_data =
  rd_id :: "string option"
  rd_type :: "string option"
  rd_name :: string
  rd_content :: "string option"
  rd_proxied :: "bool option"
  rd_ttl :: "int option"

text \<open>\<^verbatim>\<open>s.endswith(suffix)\<close>.\<close>

definition endswith :: "string \<Rightarrow> string \<Rightarrow> bool" where
  "endswith s suf \<longleftrightarrow>
     length suf \<le> length s \<and> drop (length s - length suf) s = suf"

text \<open>The filter of \<^verbatim>\<open>get_existing_dns_records\<close>:
  \<^verbatim>\<open>record_data.get("type") == "CNAME" and record_data.get("content", "").endswith(".cfargotunnel.com")\<close>.\<close>

definition is_tunnel_cname :: "record_data \<Rightarrow> bool" where
  "is_tunnel_cname rd \<longleftrightarrow>
     rd_type rd = Some ''CNAME'' \<and>
     endswith (case rd_content rd of None \<Rightarrow> [] | Some c \<Rightarrow> c) ''.cfargotunnel.com''"

text \<open>\<^verbatim>\<open>DNSRecord(**record_data)\<close>, with the defaults of the model for \<^verbatim>\<open>proxied\<close> and
  \<^verbatim>\<open>ttl\<close>. It is only called on a dict that passed the filter, where \<^verbatim>\<open>type\<close> and
  \<^verbatim>\<open>content\<close> are present.\<close>

definition DNSRecord_of :: "record_data \<Rightarrow> DNSRecord" where
  "DNSRecord_of rd =
     \<lparr> dns_id = rd_id rd,
       dns_type = (case rd_type rd of None \<Rightarrow> [] | Some t \<Rightarrow> t),
       dns_name = rd_name rd,
       dns_content = (case rd_content rd of None \<Rightarrow> [] | Some c \<Rightarrow> c),
       dns_proxied = (case rd_proxied rd of None \<Rightarrow> True | Some b \<Rightarrow> b),
       dns_ttl = (case rd_ttl rd of None \<Rightarrow> 1 | Some t \<Rightarrow> t) \<rparr>"

text \<open>The exceptions of the \<^verbatim>\<open>requests\<close> library that the script tells apart:
  \<open>HTTPError\<close> is what \<^verbatim>\<open>raise_for_status\<close> raises on an error status;
  \<open>ConnectionError\<close> stands for every other \<^verbatim>\<open>RequestException\<close> (no connection, time-out).\<close>

datatype request_exception = HTTPError | ConnectionError

text \<open>What the run prints, one constructor per message or block of lines.\<close>

datatype message =
    LoadingLocal | FoundLocal nat | FetchingRemote | FoundRemote nat | Analyzing
  | RoutesToCreate "(string \<times> string) list"
  | RoutesToUpdate "(string \<times> string) list"
  | RoutesToDelete "(string \<times> string) list"
  | AlreadyInSync | DryRunNotice | ApplyingChanges | UpdateSucceeded | UpdateFailed
  | DnsSynchronizing | DnsFetchWarning
  | DnsToCreate "string list" | DnsToUpdate "string list" | DnsToDelete "string list"
  | DnsAlreadyInSync
  | DnsCreated string | DnsUpdated string | DnsDeleted string
  | DnsSynchronized | DnsFailed

text \<open>The mutating calls of \<^verbatim>\<open>CloudflareAPI\<close>.\<close>

datatype api_call =
    UpdateTunnelConfiguration TunnelConfig
  | CreateDnsRecord DNSRecord
  | UpdateDnsRecord string DNSRecord
  | DeleteDnsRecord string

datatype event = Print message | Call api_call

text \<open>How a run ends: it returns, it calls \<^verbatim>\<open>sys.exit\<close>, or an exception leaves it.\<close>

datatype outcome = Returned | SysExit int | Raised request_exception

text \<open>The remote side is a parameter: \<open>api c\<close> is the exception that the mutating call
  \<open>c\<close> raises, or \<open>None\<close> when it succeeds.\<close>

type_synonym remote = "api_call \<Rightarrow> request_exception option"

text \<open>\<^verbatim>\<open>get_existing_dns_records\<close>, given the outcome of \<^verbatim>\<open>list_dns_records\<close>. It
  returns the messages it printed and the dict of records, or lets an exception through.\<close>

definition get_existing_dns_records ::
  "request_exception + record_data list \<Rightarrow>
     request_exception + (event list \<times> (string \<times> DNSRecord) list)" where
  "get_existing_dns_records response =
     (case response of
        Inl HTTPError \<Rightarrow> Inr ([Print DnsFetchWarning], [])
      | Inl e \<Rightarrow> Inl e
      | Inr result \<Rightarrow>
          Inr ([], fold (\<lambda>rd records.
                     if is_tunnel_cname rd
                     then AList.update (dns_name (DNSRecord_of rd)) (DNSRecord_of rd) records
                     else records) result []))"

text \<open>The three lists computed by \<^verbatim>\<open>sync_dns_records\<close> before anything is printed.\<close>

record DNSActions =
  dns_create :: "string list"
  dns_update :: "string list"
  dns_delete :: "string list"

definition dns_actions ::
  "(string set \<Rightarrow> string list) \<Rightarrow> string \<Rightarrow> (string \<times> DNSRecord) list \<Rightarrow>
     TunnelRoute list \<Rightarrow> DNSActions" where
  "dns_actions iter tunnel_domain existing_records routes =
     (let required_hostnames = hostname ` set routes;
          existing_hostnames = set (map fst existing_records)
      in \<lparr> dns_create = iter (required_hostnames - existing_hostnames),
           dns_update = filter (\<lambda>h. dns_content (getitem existing_records h) \<noteq> tunnel_domain)
                          (iter (required_hostnames \<inter> existing_hostnames)),
           dns_delete = iter (existing_hostnames - required_hostnames) \<rparr>)"

text \<open>The record built for a create or an update.\<close>

definition tunnel_cname :: "string \<Rightarrow> string \<Rightarrow> DNSRecord" where
  "tunnel_cname tunnel_domain h =
     \<lparr> dns_id = None, dns_type = ''CNAME'', dns_name = h, dns_content = tunnel_domain,
       dns_proxied = True, dns_ttl = 1 \<rparr>"

text \<open>\<^verbatim>\<open>if existing.id:\<close> holds for a string that is present and not empty.\<close>

fun truthy :: "string option \<Rightarrow> bool" where
  "truthy None = False"
| "truthy (Some s) = (s \<noteq> [])"

text \<open>The three loops of the \<^verbatim>\<open>try\<close> block. Each returns the exception that stopped it, if
  any, and the events up to there.\<close>

fun apply_dns_create :: "remote \<Rightarrow> string \<Rightarrow> string list \<Rightarrow> request_exception option \<times> event list" where
  "apply_dns_create api td [] = (None, [])"
| "apply_dns_create api td (h # hs) =
     (let c = CreateDnsRecord (tunnel_cname td h) in
      case api c of
        Some e \<Rightarrow> (Some e, [Call c])
      | None \<Rightarrow> (let (r, ev) = apply_dns_create api td hs
                 in (r, Call c # Print (DnsCreated h) # ev)))"

fun apply_dns_update ::
  "remote \<Rightarrow> string \<Rightarrow> (string \<times> DNSRecord) list \<Rightarrow> string list \<Rightarrow>
     request_exception option \<times> event list" where
  "apply_dns_update api td existing_records [] = (None, [])"
| "apply_dns_update api td existing_records (h # hs) =
     (let existing = getitem existing_records h in
      if truthy (dns_id existing) then
        (let c = UpdateDnsRecord (the (dns_id existing)) (tunnel_cname td h) in
         case api c of
           Some e \<Rightarrow> (Some e, [Call c])
         | None \<Rightarrow> (let (r, ev) = apply_dns_update api td existing_records hs
                    in (r, Call c # Print (DnsUpdated h) # ev)))
      else apply_dns_update api td existing_records hs)"

fun apply_dns_delete ::
  "remote \<Rightarrow> (string \<times> DNSRecord) list \<Rightarrow> string list \<Rightarrow>
     request_exception option \<times> event list" where
  "apply_dns_delete api existing_records [] = (None, [])"
| "apply_dns_delete api existing_records (h # hs) =
     (let existing = getitem existing_records h in
      if truthy (dns_id existing) then
        (let c = DeleteDnsRecord (the (dns_id existing)) in
         case api c of
           Some e \<Rightarrow> (Some e, [Call c])
         | None \<Rightarrow> (let (r, ev) = apply_dns_delete api existing_records hs
                    in (r, Call c # Print (DnsDeleted h) # ev)))
      else apply_dns_delete api existing_records hs)"

text \<open>The body of the \<^verbatim>\<open>try\<close> block: creates, then updates, then deletes; the first
  exception ends it.\<close>

definition apply_dns_try ::
  "remote \<Rightarrow> string \<Rightarrow> (string \<times> DNSRecord) list \<Rightarrow> DNSActions \<Rightarrow>
     request_exception option \<times> event list" where
  "apply_dns_try api td existing_records acts =
     (case apply_dns_create api td (dns_create acts) of
        (Some e, ev1) \<Rightarrow> (Some e, ev1)
      | (None, ev1) \<Rightarrow>
          (case apply_dns_update api td existing_records (dns_update acts) of
             (Some e, ev2) \<Rightarrow> (Some e, ev1 @ ev2)
           | (None, ev2) \<Rightarrow>
               (case apply_dns_delete api existing_records (dns_delete acts) of
                  (Some e, ev3) \<Rightarrow> (Some e, ev1 @ ev2 @ ev3)
                | (None, ev3) \<Rightarrow> (None, ev1 @ ev2 @ ev3 @ [Print DnsSynchronized]))))"

text \<open>The \<^verbatim>\<open>except requests.exceptions.HTTPError\<close> handler: it prints and exits with
  status 1; any other exception passes through.\<close>

definition apply_dns ::
  "remote \<Rightarrow> string \<Rightarrow> (string \<times> DNSRecord) list \<Rightarrow> DNSActions \<Rightarrow> outcome \<times> event list" where
  "apply_dns api td existing_records acts =
     (case apply_dns_try api td existing_records acts of
        (None, ev) \<Rightarrow> (Returned, ev)
      | (Some HTTPError, ev) \<Rightarrow> (SysExit 1, ev @ [Print DnsFailed])
      | (Some e, ev) \<Rightarrow> (Raised e, ev))"

text \<open>The planned DNS actions as they are displayed: a block is printed for a list that is
  not empty.\<close>

definition dns_report :: "DNSActions \<Rightarrow> event list" where
  "dns_report acts =
     (if dns_create acts \<noteq> [] then [Print (DnsToCreate (dns_create acts))] else []) @
     (if dns_update acts \<noteq> [] then [Print (DnsToUpdate (dns_update acts))] else []) @
     (if dns_delete acts \<noteq> [] then [Print (DnsToDelete (dns_delete acts))] else [])"

definition sync_dns_records ::
  "bool \<Rightarrow> (string set \<Rightarrow> string list) \<Rightarrow> remote \<Rightarrow> string \<Rightarrow>
     request_exception + record_data list \<Rightarrow> TunnelRoute list \<Rightarrow> bool \<Rightarrow> outcome \<times> event list" where
  "sync_dns_records manage_dns iter api td response routes dry_run =
     (if \<not> manage_dns then (Returned, [])
      else
        (case get_existing_dns_records response of
           Inl e \<Rightarrow> (Raised e, [Print DnsSynchronizing])
         | Inr (warning, existing_records) \<Rightarrow>
             (let acts = dns_actions iter td existing_records routes;
                  shown = Print DnsSynchronizing # warning @ dns_report acts
              in if \<not> (dns_create acts \<noteq> [] \<or> dns_update acts \<noteq> [] \<or> dns_delete acts \<noteq> [])
                 then (Returned, shown @ [Print DnsAlreadyInSync])
                 else if dry_run then (Returned, shown)
                 else (let (out, ev) = apply_dns api td existing_records acts
                       in (out, shown @ ev)))))"

section \<open>The run\<close>

definition route_lines :: "TunnelRoute list \<Rightarrow> (string \<times> string) list" where
  "route_lines rs = map (\<lambda>r. (hostname r, service r)) rs"

definition route_report :: "RouteActions \<Rightarrow> event list" where
  "route_report actions =
     (if create actions \<noteq> [] then [Print (RoutesToCreate (route_lines (create actions)))] else []) @
     (if update actions \<noteq> [] then [Print (RoutesToUpdate (route_lines (update actions)))] else []) @
     (if delete actions \<noteq> [] then [Print (RoutesToDelete (route_lines (delete actions)))] else [])"

text \<open>\<^verbatim>\<open>sync\<close>, from the point where \<^verbatim>\<open>load_local_config\<close> has returned
  \<open>local_routes\<close> and \<^verbatim>\<open>get_cloudflare_routes\<close> has returned \<open>remote_routes\<close>;
  \<open>response\<close> is what \<^verbatim>\<open>list_dns_records\<close> will answer.\<close>

definition sync ::
  "bool \<Rightarrow> (string set \<Rightarrow> string list) \<Rightarrow> remote \<Rightarrow> string \<Rightarrow>
     request_exception + record_data list \<Rightarrow> TunnelRoute list \<Rightarrow> TunnelRoute list \<Rightarrow> bool \<Rightarrow>
     outcome \<times> event list" where
  "sync manage_dns iter api td response local_routes remote_routes dry_run =
     (let actions = compare_routes iter local_routes remote_routes;
          shown = [Print LoadingLocal, Print (FoundLocal (length local_routes)),
                   Print FetchingRemote, Print (FoundRemote (length remote_routes)),
                   Print Analyzing] @ route_report actions;
          (dns_out, dns_ev) = sync_dns_records manage_dns iter api td response local_routes dry_run
      in if \<not> has_changes actions then (dns_out, shown @ [Print AlreadyInSync] @ dns_ev)
         else if dry_run then (dns_out, shown @ [Print DryRunNotice] @ dns_ev)
         else
           (let c = UpdateTunnelConfiguration (build_cloudflare_config local_routes) in
            case api c of
              None \<Rightarrow> (dns_out, shown @ [Print ApplyingChanges, Call c, Print UpdateSucceeded] @ dns_ev)
            | Some HTTPError \<Rightarrow>
                (SysExit 1, shown @ [Print ApplyingChanges, Call c, Print UpdateFailed])
            | Some e \<Rightarrow> (Raised e, shown @ [Print ApplyingChanges, Call c])))"

text \<open>Classifying the events of a run.\<close>

fun is_call :: "event \<Rightarrow> bool" where
  "is_call (Call c) = True"
| "is_call (Print m) = False"

fun is_route_plan :: "event \<Rightarrow> bool" where
  "is_route_plan (Print (RoutesToCreate xs)) = True"
| "is_route_plan (Print (RoutesToUpdate xs)) = True"
| "is_route_plan (Print (RoutesToDelete xs)) = True"
| "is_route_plan e = False"

fun is_dns_plan :: "event \<Rightarrow> bool" where
  "is_dns_plan (Print (DnsToCreate xs)) = True"
| "is_dns_plan (Print (DnsToUpdate xs)) = True"
| "is_dns_plan (Print (DnsToDelete xs)) = True"
| "is_dns_plan e = False"

fun is_dns_call :: "event \<Rightarrow> bool" where
  "is_dns_call (Call (CreateDnsRecord r)) = True"
| "is_dns_call (Call (UpdateDnsRecord i r)) = True"
| "is_dns_call (Call (DeleteDnsRecord i)) = True"
| "is_dns_call e = False"

fun is_tunnel_call :: "event \<Rightarrow> bool" where
  "is_tunnel_call (Call (UpdateTunnelConfiguration c)) = True"
| "is_tunnel_call e = False"

section \<open>Reading the tunnel configuration back\<close>

text \<open>\<^verbatim>\<open>TunnelRoute(**rule)\<close> validates a dict with pydantic and raises a
  \<^verbatim>\<open>ValidationError\<close> when a value does not fit the declared type.\<close>

datatype validation_error = ValidationError

text \<open>The declared field \<^verbatim>\<open>noTLSVerify: Optional[bool]\<close> is validated in pydantic's lax
  mode: \<^verbatim>\<open>None\<close> and booleans are kept, the integers 0 and 1 and the strings below (in
  any letter case) are converted, everything else is rejected.\<close>

definition ascii_lower :: "char \<Rightarrow> char" where
  "ascii_lower c =
     (if CHR ''A'' \<le> c \<and> c \<le> CHR ''Z'' then char_of (of_char c + (32::nat)) else c)"

definition str_as_bool :: "string \<Rightarrow> bool option" where
  "str_as_bool s =
     (let l = map ascii_lower s in
      if s = ''0'' \<or> l \<in> set [''f'', ''n'', ''no'', ''off'', ''false''] then Some False
      else if s = ''1'' \<or> l \<in> set [''t'', ''y'', ''on'', ''yes'', ''true''] then Some True
      else None)"

fun validate_optional_bool :: "pyval \<Rightarrow> validation_error + bool option" where
  "validate_optional_bool PyNone = Inr None"
| "validate_optional_bool (PyBool b) = Inr (Some b)"
| "validate_optional_bool (PyInt i) =
     (if i = 0 then Inr (Some False) else if i = 1 then Inr (Some True)
      else Inl ValidationError)"
| "validate_optional_bool (PyStr s) =
     (case str_as_bool s of None \<Rightarrow> Inl ValidationError | Some b \<Rightarrow> Inr (Some b))"

text \<open>An \<^verbatim>\<open>OriginRequest\<close> built from a dict: the key \<^verbatim>\<open>noTLSVerify\<close> fills the
  declared field (default \<^verbatim>\<open>None\<close>), every other key is kept as an extra, by
  \<^verbatim>\<open>extra = "allow"\<close>.\<close>

definition OriginRequest_of :: "(string \<times> pyval) list \<Rightarrow> validation_error + OriginRequest" where
  "OriginRequest_of d =
     (case (case map_of d ''noTLSVerify'' of
              None \<Rightarrow> Inr None
            | Some v \<Rightarrow> validate_optional_bool v) of
        Inl e \<Rightarrow> Inl e
      | Inr n \<Rightarrow> Inr \<lparr> noTLSVerify = n,
                      extra = filter (\<lambda>(k, v). k \<noteq> ''noTLSVerify'') d \<rparr>)"

text \<open>\<^verbatim>\<open>TunnelRoute(**rule)\<close>: \<^verbatim>\<open>hostname\<close> is required, \<^verbatim>\<open>originRequest\<close> defaults
  to \<^verbatim>\<open>None\<close>.\<close>

definition TunnelRoute_of :: "ingress_rule \<Rightarrow> validation_error + TunnelRoute" where
  "TunnelRoute_of rule =
     (case rule_hostname rule of
        None \<Rightarrow> Inl ValidationError
      | Some h \<Rightarrow>
          (case rule_originRequest rule of
             None \<Rightarrow> Inr \<lparr> hostname = h, service = rule_service rule, originRequest = None \<rparr>
           | Some d \<Rightarrow>
               (case OriginRequest_of d of
                  Inl e \<Rightarrow> Inl e
                | Inr q \<Rightarrow> Inr \<lparr> hostname = h, service = rule_service rule,
                                originRequest = Some q \<rparr>)))"

text \<open>The loop of \<^verbatim>\<open>get_cloudflare_routes\<close> over the ingress rules: a rule without a
  \<^verbatim>\<open>hostname\<close> key (the catch-all) is skipped, every other rule is parsed.\<close>

fun routes_of_rules :: "ingress_rule list \<Rightarrow> validation_error + TunnelRoute list" where
  "routes_of_rules [] = Inr []"
| "routes_of_rules (rule # ingress_rules) =
     (if rule_hostname rule \<noteq> None then
        (case TunnelRoute_of rule of
           Inl e \<Rightarrow> Inl e
         | Inr route \<Rightarrow>
             (case routes_of_rules ingress_rules of
                Inl e \<Rightarrow> Inl e
              | Inr routes \<Rightarrow> Inr (route # routes)))
      else routes_of_rules ingress_rules)"

text \<open>\<^verbatim>\<open>get_cloudflare_routes\<close>, given the configuration that the API answers with
  (\<open>None\<close> when there is none yet).\<close>

definition get_cloudflare_routes :: "TunnelConfig option \<Rightarrow> validation_error + TunnelRoute list" where
  "get_cloudflare_routes config =
     (case config of None \<Rightarrow> Inr [] | Some c \<Rightarrow> routes_of_rules (ingress c))"

text \<open>The remote routes that the next run reads after a real run of \<^verbatim>\<open>sync\<close> whose update
  succeeded, on a remote side that stores the document it is sent: with changes, the run
  pushes \<open>build_cloudflare_config local_routes\<close> and the next run parses that document;
  without changes nothing is sent.\<close>

definition routes_after_sync ::
  "(string set \<Rightarrow> string list) \<Rightarrow> TunnelRoute list \<Rightarrow> TunnelRoute list \<Rightarrow>
     validation_error + TunnelRoute list" where
  "routes_after_sync iter local_routes remote_routes =
     (if has_changes (compare_routes iter local_routes remote_routes)
      then get_cloudflare_routes (Some (build_cloudflare_config local_routes))
      else Inr remote_routes)"

text \<open>Two properties of the origin options of a route. The first is an invariant of the
  model class: the declared field is never stored among the extras. The second says that no
  extra option has the value \<^verbatim>\<open>None\<close>.\<close>

definition field_free :: "TunnelRoute \<Rightarrow> bool" where
  "field_free r \<longleftrightarrow>
     (case originRequest r of None \<Rightarrow> True
      | Some q \<Rightarrow> ''noTLSVerify'' \<notin> set (map fst (extra q)))"

definition none_free :: "TunnelRoute \<Rightarrow> bool" where
  "none_free r \<longleftrightarrow>
     (case originRequest r of None \<Rightarrow> True | Some q \<Rightarrow> PyNone \<notin> set (map snd (extra q)))"

section \<open>Concrete inputs\<close>

text \<open>Routes used to run the definitions on explicit inputs.\<close>

definition ex_a :: TunnelRoute where
  "ex_a = \<lparr>hostname = ''a.example.com'', service = ''http://10.0.0.1:8080'', originRequest = None\<rparr>"
definition ex_a_old :: TunnelRoute where
  "ex_a_old = \<lparr>hostname = ''a.example.com'', service = ''http://10.0.0.1:9090'', originRequest = None\<rparr>"
definition ex_b :: TunnelRoute where
  "ex_b = \<lparr>hostname = ''b.example.com'', service = ''http://10.0.0.2:8080'',
            originRequest = Some \<lparr>noTLSVerify = Some True, extra = []\<rparr>\<rparr>"
definition ex_c :: TunnelRoute where
  "ex_c = \<lparr>hostname = ''c.example.com'', service = ''http://10.0.0.3:8080'',
            originRequest = Some \<lparr>noTLSVerify = None,
               extra = [(''connectTimeout'', PyInt 30), (''httpHostHeader'', PyStr ''c'')]\<rparr>\<rparr>"
definition ex_c_perm :: TunnelRoute where
  "ex_c_perm = \<lparr>hostname = ''c.example.com'', service = ''http://10.0.0.3:8080'',
            originRequest = Some \<lparr>noTLSVerify = None,
               extra = [(''httpHostHeader'', PyStr ''c''), (''connectTimeout'', PyInt 30)]\<rparr>\<rparr>"
definition ex_old :: TunnelRoute where
  "ex_old = \<lparr>hostname = ''old.example.com'', service = ''http://10.0.0.9:80'', originRequest = None\<rparr>"

lemmas ex_defs = ex_a_def ex_a_old_def ex_b_def ex_c_def ex_c_perm_def ex_old_def


text \<open>A second admissible iteration order: the first one reversed.\<close>

definition reverse_iter :: "string set \<Rightarrow> string list" where
  "reverse_iter S = rev (sorted_list_of_set S)"

text \<open>A tunnel domain, DNS records as the API lists them, and a remote side on which every
  call succeeds.\<close>

definition ex_td :: string where
  "ex_td = ''t1.cfargotunnel.com''"

definition ex_rd_a :: record_data where
  "ex_rd_a = \<lparr>rd_id = Some ''id-a'', rd_type = Some ''CNAME'', rd_name = ''a.example.com'',
              rd_content = Some ''t0.cfargotunnel.com'', rd_proxied = Some True, rd_ttl = Some 1\<rparr>"

definition ex_rd_mail :: record_data where
  "ex_rd_mail = \<lparr>rd_id = Some ''id-m'', rd_type = Some ''A'', rd_name = ''mail.example.com'',
              rd_content = Some ''192.0.2.7'', rd_proxied = Some False, rd_ttl = Some 300\<rparr>"

definition ex_rd_stale :: record_data where
  "ex_rd_stale = \<lparr>rd_id = Some ''id-s'', rd_type = Some ''CNAME'', rd_name = ''stale.example.com'',
              rd_content = Some ''t1.cfargotunnel.com'', rd_proxied = None, rd_ttl = None\<rparr>"

definition ex_rd_noid :: record_data where
  "ex_rd_noid = \<lparr>rd_id = None, rd_type = Some ''CNAME'', rd_name = ''noid.example.com'',
              rd_content = Some ''t1.cfargotunnel.com'', rd_proxied = None, rd_ttl = None\<rparr>"

definition api_ok :: remote where
  "api_ok c = None"

lemmas ex_rd_defs = ex_rd_a_def ex_rd_mail_def ex_rd_stale_def ex_rd_noid_def

text \<open>The DNS records that the run sends are built by \<open>tunnel_cname\<close>.\<close>

fun synthesized :: "string \<Rightarrow> event \<Rightarrow> bool" where
  "synthesized td (Call (CreateDnsRecord r)) = (r = tunnel_cname td (dns_name r))"
| "synthesized td (Call (UpdateDnsRecord i r)) = (r = tunnel_cname td (dns_name r))"
| "synthesized td e = True"

text \<open>A dict of existing records, one of them without an id.\<close>

definition ex_existing :: "(string \<times> DNSRecord) list" where
  "ex_existing = [(''noid.example.com'', DNSRecord_of ex_rd_noid),
                  (''stale.example.com'', DNSRecord_of ex_rd_stale)]"

text \<open>The events of the \<^verbatim>\<open>try\<close> block that applies the DNS changes.\<close>

fun is_dns_apply_event :: "event \<Rightarrow> bool" where
  "is_dns_apply_event (Call (CreateDnsRecord r)) = True"
| "is_dns_apply_event (Call (UpdateDnsRecord i r)) = True"
| "is_dns_apply_event (Call (DeleteDnsRecord i)) = True"
| "is_dns_apply_event (Print (DnsCreated h)) = True"
| "is_dns_apply_event (Print (DnsUpdated h)) = True"
| "is_dns_apply_event (Print (DnsDeleted h)) = True"
| "is_dns_apply_event (Print DnsSynchronized) = True"
| "is_dns_apply_event (Print DnsFailed) = True"
| "is_dns_apply_event e = False"

text \<open>A remote side that rejects the update of the tunnel configuration.\<close>

fun api_tunnel_down :: remote where
  "api_tunnel_down (UpdateTunnelConfiguration c) = Some HTTPError"
| "api_tunnel_down c = None"

text \<open>What \<^verbatim>\<open>sync\<close> prints up to and including the planned route actions.\<close>

abbreviation shown_routes ::
  "(string set \<Rightarrow> string list) \<Rightarrow> TunnelRoute list \<Rightarrow> TunnelRoute list \<Rightarrow> event list" where
  "shown_routes iter local_routes remote_routes \<equiv>
     [Print LoadingLocal, Print (FoundLocal (length local_routes)),
      Print FetchingRemote, Print (FoundRemote (length remote_routes)),
      Print Analyzing] @ route_report (compare_routes iter local_routes remote_routes)"

text \<open>A dict of existing records: one points at another tunnel, one is no longer required.\<close>

definition ex_existing_a :: "(string \<times> DNSRecord) list" where
  "ex_existing_a = [(''a.example.com'', DNSRecord_of ex_rd_a),
                    (''stale.example.com'', DNSRecord_of ex_rd_stale)]"

text \<open>A remote side that rejects every update of a DNS record.\<close>

fun api_update_down :: remote where
  "api_update_down (UpdateDnsRecord i r) = Some HTTPError"
| "api_update_down c = None"

text \<open>A route with an origin option whose value is \<^verbatim>\<open>None\<close>, as a key without a value
  in \<^verbatim>\<open>config.yml\<close> gives, and the same route without that option.\<close>

definition ex_n :: TunnelRoute where
  "ex_n = \<lparr>hostname = ''n.example.com'', service = ''http://10.0.0.4:8080'',
            originRequest = Some \<lparr>noTLSVerify = Some True,
               extra = [(''httpHostHeader'', PyNone)]\<rparr>\<rparr>"

definition ex_n_back :: TunnelRoute where
  "ex_n_back = \<lparr>hostname = ''n.example.com'', service = ''http://10.0.0.4:8080'',
            originRequest = Some \<lparr>noTLSVerify = Some True, extra = []\<rparr>\<rparr>"

section \<open>Properties of the route reconciliation\<close>

lemma map_of_fold_update:
  "map_of (fold (\<lambda>r d. AList.update (hostname r) r d) rs d0) =
     map_of (map (\<lambda>r. (hostname r, r)) (rev rs) @ d0)"
proof (induction rs arbitrary: d0)
  case Nil
  show ?case by simp
next
  case (Cons r rs)
  show ?case
    by (simp add: Cons.IH update_conv' map_add_def fun_eq_iff split: option.splits)
qed

lemma map_of_routes_dict:
  "map_of (routes_dict rs) = map_of (map (\<lambda>r. (hostname r, r)) (rev rs))"
  by (simp add: routes_dict_def map_of_fold_update)

lemma keys_fold_update:
  "fst ` set (fold (\<lambda>r d. AList.update (hostname r) r d) rs d0) = hostname ` set rs \<union> fst ` set d0"
  by (induction rs arbitrary: d0) (auto simp: dom_update)

lemma keys_routes_dict: "set (map fst (routes_dict rs)) = hostname ` set rs"
  by (simp add: routes_dict_def keys_fold_update)

lemma getitem_routes_dict:
  assumes "distinct (map hostname rs)" and "r \<in> set rs"
  shows "getitem (routes_dict rs) (hostname r) = r"
proof -
  have "distinct (map fst (map (\<lambda>r. (hostname r, r)) (rev rs)))"
    using assms(1) by (simp add: comp_def rev_map [symmetric])
  moreover have "(hostname r, r) \<in> set (map (\<lambda>r. (hostname r, r)) (rev rs))"
    using assms(2) by auto
  ultimately have "map_of (map (\<lambda>r. (hostname r, r)) (rev rs)) (hostname r) = Some r"
    by (rule map_of_is_SomeI)
  then show ?thesis by (simp add: getitem_def map_of_routes_dict)
qed

lemma getitem_routes_dict_mem:
  assumes "h \<in> hostname ` set rs"
  shows "getitem (routes_dict rs) h \<in> set rs \<and> hostname (getitem (routes_dict rs) h) = h"
proof -
  from assms have "h \<in> fst ` set (map (\<lambda>r. (hostname r, r)) (rev rs))" by force
  then obtain v where "map_of (map (\<lambda>r. (hostname r, r)) (rev rs)) h = Some v"
    by (metis domD dom_map_of_conv_image_fst)
  moreover from this have "(h, v) \<in> set (map (\<lambda>r. (hostname r, r)) (rev rs))"
    by (rule map_of_SomeD)
  ultimately show ?thesis by (auto simp: getitem_def map_of_routes_dict)
qed

lemma bucket_mset:
  assumes "distinct hs" and "set hs = key ` set ys" and "distinct (map key ys)"
    and "\<And>r. r \<in> set ys \<Longrightarrow> g (key r) = r"
  shows "mset (map g hs) = mset ys"
proof -
  have "set hs = set (map key ys)" using assms(2) by simp
  with assms(1,3) have "mset hs = mset (map key ys)"
    by (simp only: set_eq_iff_mset_eq_distinct)
  then have "image_mset g (mset hs) = image_mset g (mset (map key ys))" by simp
  also have "\<dots> = mset (map (\<lambda>r. g (key r)) ys)" by (simp add: comp_def multiset.map_comp)
  also have "map (\<lambda>r. g (key r)) ys = ys" using assms(4) by (simp add: map_idI)
  finally show ?thesis by simp
qed

lemma create_bucket:
  assumes "valid_iter iter" and "distinct (map hostname desired)"
  shows "mset (create (compare_routes iter desired actual)) =
         mset (filter (\<lambda>r. hostname r \<notin> hostname ` set actual) desired)"
proof -
  let ?S = "hostname ` set desired - hostname ` set actual"
  let ?ys = "filter (\<lambda>r. hostname r \<notin> hostname ` set actual) desired"
  have fin: "finite ?S" by simp
  have "distinct (iter ?S)" and "set (iter ?S) = ?S"
    using assms(1) fin unfolding valid_iter_def by blast+
  moreover have "?S = hostname ` set ?ys" by auto
  moreover have "distinct (map hostname ?ys)"
    using assms(2) by (simp add: distinct_map_filter)
  moreover have "\<And>r. r \<in> set ?ys \<Longrightarrow> getitem (routes_dict desired) (hostname r) = r"
    using assms(2) by (simp add: getitem_routes_dict)
  ultimately have "mset (map (getitem (routes_dict desired)) (iter ?S)) = mset ?ys"
    by (intro bucket_mset [where key = hostname]) simp_all
  then show ?thesis
    by (simp add: compare_routes_def Let_def keys_routes_dict del: set_map)
qed

lemma delete_bucket:
  assumes "valid_iter iter" and "distinct (map hostname actual)"
  shows "mset (delete (compare_routes iter desired actual)) =
         mset (filter (\<lambda>r. hostname r \<notin> hostname ` set desired) actual)"
proof -
  let ?S = "hostname ` set actual - hostname ` set desired"
  let ?ys = "filter (\<lambda>r. hostname r \<notin> hostname ` set desired) actual"
  have fin: "finite ?S" by simp
  have "distinct (iter ?S)" and "set (iter ?S) = ?S"
    using assms(1) fin unfolding valid_iter_def by blast+
  moreover have "?S = hostname ` set ?ys" by auto
  moreover have "distinct (map hostname ?ys)"
    using assms(2) by (simp add: distinct_map_filter)
  moreover have "\<And>r. r \<in> set ?ys \<Longrightarrow> getitem (routes_dict actual) (hostname r) = r"
    using assms(2) by (simp add: getitem_routes_dict)
  ultimately have "mset (map (getitem (routes_dict actual)) (iter ?S)) = mset ?ys"
    by (intro bucket_mset [where key = hostname]) simp_all
  then show ?thesis
    by (simp add: compare_routes_def Let_def keys_routes_dict del: set_map)
qed

lemma update_bucket:
  assumes "valid_iter iter" and "distinct (map hostname desired)"
    and "distinct (map hostname actual)"
  shows "mset (update (compare_routes iter desired actual)) =
         mset (filter (\<lambda>r. \<exists>a\<in>set actual. hostname a = hostname r \<and> \<not> route_eq r a) desired)"
proof -
  let ?S = "hostname ` set desired \<inter> hostname ` set actual"
  let ?Q = "\<lambda>h. \<not> route_eq (getitem (routes_dict desired) h) (getitem (routes_dict actual) h)"
  let ?P = "\<lambda>r. \<exists>a\<in>set actual. hostname a = hostname r \<and> \<not> route_eq r a"
  let ?ys = "filter ?P desired"
  let ?hs = "filter ?Q (iter ?S)"
  have fin: "finite ?S" by simp
  have it: "distinct (iter ?S)" "set (iter ?S) = ?S"
    using assms(1) fin unfolding valid_iter_def by blast+
  have PQ: "?P r \<longleftrightarrow> hostname r \<in> hostname ` set actual \<and> ?Q (hostname r)"
    if "r \<in> set desired" for r
  proof
    assume "?P r"
    then obtain a where a: "a \<in> set actual" "hostname a = hostname r" "\<not> route_eq r a" by blast
    have "getitem (routes_dict actual) (hostname a) = a"
      using assms(3) a(1) by (rule getitem_routes_dict)
    moreover have "getitem (routes_dict desired) (hostname r) = r"
      using assms(2) that by (rule getitem_routes_dict)
    ultimately show "hostname r \<in> hostname ` set actual \<and> ?Q (hostname r)"
      using a by (metis imageI)
  next
    assume h: "hostname r \<in> hostname ` set actual \<and> ?Q (hostname r)"
    then obtain a where a: "a \<in> set actual" "hostname a = hostname r" by force
    have "getitem (routes_dict actual) (hostname a) = a"
      using assms(3) a(1) by (rule getitem_routes_dict)
    moreover have "getitem (routes_dict desired) (hostname r) = r"
      using assms(2) that by (rule getitem_routes_dict)
    ultimately show "?P r" using h a by metis
  qed
  have "distinct ?hs" using it(1) by simp
  moreover have "set ?hs = hostname ` set ?ys"
  proof (intro set_eqI iffI)
    fix h assume "h \<in> set ?hs"
    then have h: "h \<in> hostname ` set desired" "h \<in> hostname ` set actual" "?Q h"
      using it(2) by auto
    then obtain r where r: "r \<in> set desired" "hostname r = h" by auto
    with h PQ [of r] have "?P r" by simp
    with r show "h \<in> hostname ` set ?ys" by force
  next
    fix h assume "h \<in> hostname ` set ?ys"
    then obtain r where r: "r \<in> set desired" "?P r" "hostname r = h" by auto
    with PQ [of r] have "h \<in> hostname ` set actual" "?Q h" by auto
    with r it(2) show "h \<in> set ?hs" by auto
  qed
  moreover have "distinct (map hostname ?ys)"
    using assms(2) by (simp add: distinct_map_filter)
  moreover have "\<And>r. r \<in> set ?ys \<Longrightarrow> getitem (routes_dict desired) (hostname r) = r"
    using assms(2) by (simp add: getitem_routes_dict)
  ultimately have "mset (map (getitem (routes_dict desired)) ?hs) = mset ?ys"
    by (rule bucket_mset [where key = hostname])
  then show ?thesis
    by (simp add: compare_routes_def Let_def keys_routes_dict del: set_map)
qed

lemma valid_iter_sorted_iter: "valid_iter sorted_iter"
  by (simp add: valid_iter_def sorted_iter_def)

text \<open>
  Claim C1. For a desired and an actual list of routes, each with pairwise distinct
  hostnames, \<open>compare_routes\<close> puts into \<open>create\<close> exactly the desired routes whose
  hostname no actual route has, into \<open>delete\<close> exactly the actual routes whose hostname no
  desired route has, and into \<open>update\<close> exactly the desired routes whose hostname is on
  both sides with an actual route that \<open>route_eq\<close> finds unequal; a hostname whose two
  routes are equal is in none of the three lists. "Exactly" is equality of multisets: every
  entry once, in the order of the set iteration.
\<close>

theorem compare_routes_buckets:
  assumes "valid_iter iter" and "distinct (map hostname desired)"
    and "distinct (map hostname actual)"
  shows "mset (create (compare_routes iter desired actual)) =
           mset (filter (\<lambda>d. hostname d \<notin> hostname ` set actual) desired) \<and>
         mset (delete (compare_routes iter desired actual)) =
           mset (filter (\<lambda>a. hostname a \<notin> hostname ` set desired) actual) \<and>
         mset (update (compare_routes iter desired actual)) =
           mset (filter (\<lambda>d. \<exists>a\<in>set actual. hostname a = hostname d \<and> \<not> route_eq d a) desired) \<and>
         (\<forall>d\<in>set desired. \<forall>a\<in>set actual. hostname d = hostname a \<and> route_eq d a \<longrightarrow>
            hostname d \<notin> hostname ` (set (create (compare_routes iter desired actual)) \<union>
                                     set (update (compare_routes iter desired actual)) \<union>
                                     set (delete (compare_routes iter desired actual))))"
proof -
  let ?X = "compare_routes iter desired actual"
  have c: "mset (create ?X) = mset (filter (\<lambda>d. hostname d \<notin> hostname ` set actual) desired)"
    using assms(1,2) by (rule create_bucket)
  have d: "mset (delete ?X) = mset (filter (\<lambda>a. hostname a \<notin> hostname ` set desired) actual)"
    using assms(1,3) by (rule delete_bucket)
  have u: "mset (update ?X) =
      mset (filter (\<lambda>d. \<exists>a\<in>set actual. hostname a = hostname d \<and> \<not> route_eq d a) desired)"
    using assms by (rule update_bucket)
  have sc: "set (create ?X) = {d \<in> set desired. hostname d \<notin> hostname ` set actual}"
    using mset_eq_setD [OF c] by simp
  have sd: "set (delete ?X) = {a \<in> set actual. hostname a \<notin> hostname ` set desired}"
    using mset_eq_setD [OF d] by simp
  have su: "set (update ?X) =
      {d \<in> set desired. \<exists>a\<in>set actual. hostname a = hostname d \<and> \<not> route_eq d a}"
    using mset_eq_setD [OF u] by simp
  have inj_d: "\<And>x y. x \<in> set desired \<Longrightarrow> y \<in> set desired \<Longrightarrow> hostname x = hostname y \<Longrightarrow> x = y"
    using assms(2) by (meson distinct_map inj_onD)
  have inj_a: "\<And>x y. x \<in> set actual \<Longrightarrow> y \<in> set actual \<Longrightarrow> hostname x = hostname y \<Longrightarrow> x = y"
    using assms(3) by (meson distinct_map inj_onD)
  have e: "hostname d \<notin> hostname ` (set (create ?X) \<union> set (update ?X) \<union> set (delete ?X))"
    if "d \<in> set desired" "a \<in> set actual" "hostname d = hostname a" "route_eq d a" for d a
  proof
    assume "hostname d \<in> hostname ` (set (create ?X) \<union> set (update ?X) \<union> set (delete ?X))"
    then obtain x where x: "hostname x = hostname d"
      "x \<in> set (create ?X) \<or> x \<in> set (update ?X) \<or> x \<in> set (delete ?X)" by force
    from x(2) show False
    proof (elim disjE)
      assume "x \<in> set (create ?X)"
      with sc have "hostname x \<notin> hostname ` set actual" by simp
      moreover have "hostname x = hostname a" using x(1) that(3) by simp
      then have "hostname x \<in> hostname ` set actual" using that(2) by (rule image_eqI)
      ultimately show False by simp
    next
      assume "x \<in> set (delete ?X)"
      with sd have "hostname x \<notin> hostname ` set desired" by simp
      moreover have "hostname x \<in> hostname ` set desired" using x(1) that(1) by (rule image_eqI)
      ultimately show False by simp
    next
      assume "x \<in> set (update ?X)"
      with su obtain a' where a': "x \<in> set desired" "a' \<in> set actual"
        "hostname a' = hostname x" "\<not> route_eq x a'" by blast
      have "x = d" using inj_d a'(1) that(1) x(1) by blast
      moreover have "a' = a" using inj_a a'(2,3) that(2,3) x(1) by simp
      ultimately show False using a'(4) that(4) by simp
    qed
  qed
  show ?thesis using c d u e by blast
qed

theorem compare_routes_buckets_witness:
  "valid_iter sorted_iter \<and>
   distinct (map hostname [ex_b, ex_a, ex_c]) \<and>
   distinct (map hostname [ex_a_old, ex_c_perm, ex_old]) \<and>
   mset (create (compare_routes sorted_iter [ex_b, ex_a, ex_c] [ex_a_old, ex_c_perm, ex_old])) = mset [ex_b] \<and>
   mset (delete (compare_routes sorted_iter [ex_b, ex_a, ex_c] [ex_a_old, ex_c_perm, ex_old])) = mset [ex_old] \<and>
   mset (update (compare_routes sorted_iter [ex_b, ex_a, ex_c] [ex_a_old, ex_c_perm, ex_old])) = mset [ex_a] \<and>
   hostname ex_c \<notin> hostname ` (set (create (compare_routes sorted_iter [ex_b, ex_a, ex_c] [ex_a_old, ex_c_perm, ex_old])) \<union>
                              set (update (compare_routes sorted_iter [ex_b, ex_a, ex_c] [ex_a_old, ex_c_perm, ex_old])) \<union>
                              set (delete (compare_routes sorted_iter [ex_b, ex_a, ex_c] [ex_a_old, ex_c_perm, ex_old])))"
proof -
  have h1: "distinct (map hostname [ex_b, ex_a, ex_c])" by (simp add: ex_defs)
  have h2: "distinct (map hostname [ex_a_old, ex_c_perm, ex_old])" by (simp add: ex_defs)
  have eq: "route_eq ex_c ex_c_perm"
    by (simp add: ex_defs route_eq_def OriginRequest_eq_def dict_eq_def)
  have ne: "\<not> route_eq ex_a ex_a_old" by (simp add: ex_defs route_eq_def)
  have hn: "hostname ex_a = ''a.example.com''" "hostname ex_b = ''b.example.com''"
    "hostname ex_c = ''c.example.com''" "hostname ex_a_old = ''a.example.com''"
    "hostname ex_c_perm = ''c.example.com''" "hostname ex_old = ''old.example.com''"
    by (simp_all add: ex_defs)
  note t = compare_routes_buckets [OF valid_iter_sorted_iter h1 h2]
  show ?thesis
    using t h1 h2 valid_iter_sorted_iter eq ne by (simp add: hn)
qed

section \<open>Route equality\<close>

lemma py_eq_refl: "py_eq v v"
  by (cases v) simp_all

lemma py_eq_sym: "py_eq v w = py_eq w v"
  by (cases v; cases w) auto

lemma dict_eq_iff:
  "dict_eq d1 d2 \<longleftrightarrow>
     length d1 = length d2 \<and> (\<forall>(k, v)\<in>set d1. \<exists>w. map_of d2 k = Some w \<and> py_eq v w)"
  by (auto simp: dict_eq_def list_all_iff split: option.splits)

lemma dict_eq_keys:
  assumes "dict_eq d1 d2" and "distinct (map fst d1)" and "distinct (map fst d2)"
  shows "fst ` set d1 = fst ` set d2"
proof -
  have sub: "fst ` set d1 \<subseteq> fst ` set d2"
  proof
    fix k assume "k \<in> fst ` set d1"
    then obtain v where "(k, v) \<in> set d1" by auto
    with assms(1) obtain w where "map_of d2 k = Some w" by (auto simp: dict_eq_iff)
    then have "(k, w) \<in> set d2" by (rule map_of_SomeD)
    then show "k \<in> fst ` set d2" by force
  qed
  have "card (fst ` set d1) = length d1"
    using assms(2) distinct_card [of "map fst d1"] by simp
  moreover have "card (fst ` set d2) = length d2"
    using assms(3) distinct_card [of "map fst d2"] by simp
  moreover have "length d1 = length d2" using assms(1) by (simp add: dict_eq_iff)
  ultimately have "card (fst ` set d1) = card (fst ` set d2)" by simp
  with sub show ?thesis by (simp add: card_subset_eq)
qed

lemma dict_eq_sym_imp:
  assumes "dict_eq d1 d2" and "distinct (map fst d1)" and "distinct (map fst d2)"
  shows "dict_eq d2 d1"
proof -
  have keys: "fst ` set d1 = fst ` set d2" using assms by (rule dict_eq_keys)
  have len: "length d2 = length d1" using assms(1) by (simp add: dict_eq_iff)
  have "\<exists>v. map_of d1 k = Some v \<and> py_eq w v" if "(k, w) \<in> set d2" for k w
  proof -
    from that have "k \<in> fst ` set d1" using keys by force
    then obtain v where v: "(k, v) \<in> set d1" by auto
    with assms(1) obtain w' where w': "map_of d2 k = Some w'" "py_eq v w'"
      by (auto simp: dict_eq_iff)
    have "map_of d2 k = Some w" using assms(3) that by (rule map_of_is_SomeI)
    with w' have "py_eq v w" by simp
    moreover have "map_of d1 k = Some v" using assms(2) v by (rule map_of_is_SomeI)
    ultimately show ?thesis by (simp add: py_eq_sym)
  qed
  with len show ?thesis by (auto simp: dict_eq_iff)
qed

lemma dict_eq_sym:
  "distinct (map fst d1) \<Longrightarrow> distinct (map fst d2) \<Longrightarrow> dict_eq d1 d2 = dict_eq d2 d1"
  using dict_eq_sym_imp by blast

lemma dict_eq_perm:
  assumes "distinct (map fst d1)" and "mset d1 = mset d2"
  shows "dict_eq d1 d2"
proof -
  have "mset (map fst d2) = mset (map fst d1)" using assms(2) by (metis mset_map)
  then have d2: "distinct (map fst d2)" using assms(1) by (metis mset_eq_imp_distinct_iff)
  have "set d1 = set d2" using assms(2) by (rule mset_eq_setD)
  then have "\<exists>w. map_of d2 k = Some w \<and> py_eq v w" if "(k, v) \<in> set d1" for k v
    using that d2 by (auto simp: py_eq_refl)
  moreover have "length d1 = length d2" using assms(2) by (rule mset_eq_length)
  ultimately show ?thesis by (auto simp: dict_eq_iff)
qed

lemma dict_eq_refl: "distinct (map fst d) \<Longrightarrow> dict_eq d d"
  by (rule dict_eq_perm) simp_all

lemma dict_eq_map_iff:
  assumes "distinct (map fst d1)" and "distinct (map fst d2)"
  shows "dict_eq d1 d2 \<longleftrightarrow>
           dom (map_of d1) = dom (map_of d2) \<and>
           (\<forall>k\<in>dom (map_of d1). py_eq (the (map_of d1 k)) (the (map_of d2 k)))"
proof
  assume eq: "dict_eq d1 d2"
  have "dom (map_of d1) = dom (map_of d2)"
    using dict_eq_keys [OF eq assms] by (simp add: dom_map_of_conv_image_fst)
  moreover have "py_eq (the (map_of d1 k)) (the (map_of d2 k))" if "k \<in> dom (map_of d1)" for k
  proof -
    from that obtain v where v: "map_of d1 k = Some v" by auto
    then have "(k, v) \<in> set d1" by (rule map_of_SomeD)
    with eq obtain w where "map_of d2 k = Some w" "py_eq v w" by (auto simp: dict_eq_iff)
    with v show ?thesis by simp
  qed
  ultimately show "dom (map_of d1) = dom (map_of d2) \<and>
      (\<forall>k\<in>dom (map_of d1). py_eq (the (map_of d1 k)) (the (map_of d2 k)))" by blast
next
  assume r: "dom (map_of d1) = dom (map_of d2) \<and>
      (\<forall>k\<in>dom (map_of d1). py_eq (the (map_of d1 k)) (the (map_of d2 k)))"
  then have "fst ` set d1 = fst ` set d2" by (simp add: dom_map_of_conv_image_fst)
  then have "card (set (map fst d1)) = card (set (map fst d2))" by simp
  then have len: "length d1 = length d2"
    using assms distinct_card [of "map fst d1"] distinct_card [of "map fst d2"] by simp
  have "\<exists>w. map_of d2 k = Some w \<and> py_eq v w" if "(k, v) \<in> set d1" for k v
  proof -
    have v: "map_of d1 k = Some v" using assms(1) that by (rule map_of_is_SomeI)
    then have "k \<in> dom (map_of d1)" by auto
    with r have "k \<in> dom (map_of d2)" "py_eq (the (map_of d1 k)) (the (map_of d2 k))" by auto
    with v show ?thesis by auto
  qed
  with len show "dict_eq d1 d2" by (auto simp: dict_eq_iff)
qed

lemma optional_eq_sym:
  assumes "case x of None \<Rightarrow> True | Some q \<Rightarrow> wf_origin q"
    and "case y of None \<Rightarrow> True | Some q \<Rightarrow> wf_origin q"
  shows "optional_eq x y = optional_eq y x"
  using assms
  by (cases x; cases y) (auto simp: OriginRequest_eq_def wf_origin_def dict_eq_sym)

lemma route_eq_sym: "wf_route a \<Longrightarrow> wf_route b \<Longrightarrow> route_eq a b = route_eq b a"
  unfolding route_eq_def wf_route_def using optional_eq_sym [of "originRequest a" "originRequest b"]
  by auto

lemma route_eq_refl: "wf_route r \<Longrightarrow> route_eq r r"
  by (cases "originRequest r")
     (simp_all add: route_eq_def wf_route_def wf_origin_def OriginRequest_eq_def dict_eq_refl)

text \<open>
  Claim C9. Route equality is symmetric and does not look at the key order of the origin
  options: two routes with the same hostname, the same service and option dicts holding the
  same key-value pairs in any order are equal; and two routes are equal exactly when their
  hostnames and services are equal and their origin options are both absent, or both present
  with the same \<open>noTLSVerify\<close>, the same keys and equal values under every key. The
  routes are well formed: no key occurs twice in a dict.
\<close>

theorem route_eq_symmetric_order_free:
  assumes "wf_route a" and "wf_route b"
    and "distinct (map fst m1)" and "mset m1 = mset m2"
  shows "route_eq a b = route_eq b a \<and>
         route_eq \<lparr>hostname = h, service = s, originRequest = Some \<lparr>noTLSVerify = n, extra = m1\<rparr>\<rparr>
                  \<lparr>hostname = h, service = s, originRequest = Some \<lparr>noTLSVerify = n, extra = m2\<rparr>\<rparr> \<and>
         (route_eq a b \<longleftrightarrow>
            hostname a = hostname b \<and> service a = service b \<and>
            (case (originRequest a, originRequest b) of
               (None, None) \<Rightarrow> True
             | (Some x, Some y) \<Rightarrow>
                 noTLSVerify x = noTLSVerify y \<and>
                 dom (map_of (extra x)) = dom (map_of (extra y)) \<and>
                 (\<forall>k\<in>dom (map_of (extra x)).
                    py_eq (the (map_of (extra x) k)) (the (map_of (extra y) k)))
             | _ \<Rightarrow> False))"
proof -
  have sym: "route_eq a b = route_eq b a" using assms(1,2) by (rule route_eq_sym)
  have perm: "route_eq \<lparr>hostname = h, service = s, originRequest = Some \<lparr>noTLSVerify = n, extra = m1\<rparr>\<rparr>
                  \<lparr>hostname = h, service = s, originRequest = Some \<lparr>noTLSVerify = n, extra = m2\<rparr>\<rparr>"
    using dict_eq_perm [OF assms(3,4)] by (simp add: route_eq_def OriginRequest_eq_def)
  have deep: "optional_eq (originRequest a) (originRequest b) \<longleftrightarrow>
            (case (originRequest a, originRequest b) of
               (None, None) \<Rightarrow> True
             | (Some x, Some y) \<Rightarrow>
                 noTLSVerify x = noTLSVerify y \<and>
                 dom (map_of (extra x)) = dom (map_of (extra y)) \<and>
                 (\<forall>k\<in>dom (map_of (extra x)).
                    py_eq (the (map_of (extra x) k)) (the (map_of (extra y) k)))
             | _ \<Rightarrow> False)"
  proof (cases "originRequest a")
    case None
    then show ?thesis by (cases "originRequest b") simp_all
  next
    case (Some x)
    show ?thesis
    proof (cases "originRequest b")
      case None
      with Some show ?thesis by simp
    next
      case (Some y)
      have "distinct (map fst (extra x))" "distinct (map fst (extra y))"
        using assms(1,2) \<open>originRequest a = Some x\<close> Some
        by (simp_all add: wf_route_def wf_origin_def)
      then show ?thesis
        using \<open>originRequest a = Some x\<close> Some
        by (simp add: OriginRequest_eq_def dict_eq_map_iff)
    qed
  qed
  show ?thesis using sym perm deep by (simp add: route_eq_def)
qed

theorem route_eq_symmetric_order_free_witness:
  "wf_route ex_c \<and> wf_route ex_c_perm \<and>
   distinct (map fst [(''connectTimeout'', PyInt 30), (''httpHostHeader'', PyStr ''c'')]) \<and>
   mset [(''connectTimeout'', PyInt 30), (''httpHostHeader'', PyStr ''c'')] =
     mset [(''httpHostHeader'', PyStr ''c''), (''connectTimeout'', PyInt 30)] \<and>
   route_eq ex_c ex_c_perm = route_eq ex_c_perm ex_c \<and>
   route_eq ex_c ex_c_perm"
proof -
  have h1: "wf_route ex_c" by (simp add: ex_defs wf_route_def wf_origin_def)
  have h2: "wf_route ex_c_perm" by (simp add: ex_defs wf_route_def wf_origin_def)
  have h3: "distinct (map fst [(''connectTimeout'', PyInt 30), (''httpHostHeader'', PyStr ''c'')])"
    by simp
  have h4: "mset [(''connectTimeout'', PyInt 30), (''httpHostHeader'', PyStr ''c'')] =
     mset [(''httpHostHeader'', PyStr ''c''), (''connectTimeout'', PyInt 30)]"
    by simp
  note t = route_eq_symmetric_order_free [OF h1 h2 h3 h4,
      of "''c.example.com''" "''http://10.0.0.3:8080''" None]
  have s: "route_eq ex_c ex_c_perm = route_eq ex_c_perm ex_c"
    by (rule t [THEN conjunct1])
  have p: "route_eq ex_c ex_c_perm"
    unfolding ex_c_def ex_c_perm_def by (rule t [THEN conjunct2, THEN conjunct1])
  show ?thesis using h1 h2 h3 h4 s p by blast
qed

section \<open>Iteration order of the route reconciliation\<close>

lemma iter_empty: "valid_iter iter \<Longrightarrow> iter {} = []"
  unfolding valid_iter_def by (metis finite.emptyI set_empty)

lemma valid_iter_reverse_iter: "valid_iter reverse_iter"
  by (simp add: valid_iter_def reverse_iter_def)

lemma valid_iter_mset: "valid_iter iter \<Longrightarrow> finite S \<Longrightarrow> mset (iter S) = mset_set S"
  unfolding valid_iter_def by (simp add: mset_set_set [symmetric])

lemma hostname_getitem_map:
  assumes "set hs \<subseteq> hostname ` set rs"
  shows "map hostname (map (getitem (routes_dict rs)) hs) = hs"
proof -
  have "hostname (getitem (routes_dict rs) h) = h" if "h \<in> set hs" for h
    using that assms getitem_routes_dict_mem by blast
  then show ?thesis by (simp add: map_idI)
qed

lemma compare_routes_fields:
  "create (compare_routes iter D A) =
     map (getitem (routes_dict D)) (iter (hostname ` set D - hostname ` set A))"
  "update (compare_routes iter D A) =
     map (getitem (routes_dict D))
       (filter (\<lambda>h. \<not> route_eq (getitem (routes_dict D) h) (getitem (routes_dict A) h))
          (iter (hostname ` set D \<inter> hostname ` set A)))"
  "delete (compare_routes iter D A) =
     map (getitem (routes_dict A)) (iter (hostname ` set A - hostname ` set D))"
  by (simp_all add: compare_routes_def Let_def keys_routes_dict del: set_map)

text \<open>
  Claim C5, as stated, fails: the lists are filled by iterating over sets of hostnames, and
  that order is not the input order. With the desired list \<open>[ex_b, ex_a]\<close>, nothing on
  the remote side and the sorted iteration order, \<open>create\<close> is \<open>[ex_a, ex_b]\<close>.
\<close>

theorem compare_routes_order_counterexample:
  "valid_iter sorted_iter \<and> distinct (map hostname [ex_b, ex_a]) \<and>
   create (compare_routes sorted_iter [ex_b, ex_a] []) = [ex_a, ex_b] \<and>
   [ex_a, ex_b] \<noteq> [ex_b, ex_a]"
proof -
  have "distinct (map hostname [ex_b, ex_a])" by (simp add: ex_defs)
  moreover have "create (compare_routes sorted_iter [ex_b, ex_a] []) = [ex_a, ex_b]"
    by code_simp
  moreover have "[ex_a, ex_b] \<noteq> [ex_b, ex_a]" by (simp add: ex_defs)
  ultimately show ?thesis using valid_iter_sorted_iter by blast
qed

text \<open>
  Claim C5, amended. The hostnames of each list of the action set are in the order in
  which the set of hostnames is iterated (the difference desired minus actual for
  \<open>create\<close>, the intersection for \<open>update\<close>, the difference actual minus desired for
  \<open>delete\<close>), and under two iteration orders each list holds the same routes, in a
  possibly different order.
\<close>

theorem compare_routes_iteration_order:
  assumes "valid_iter iter" and "valid_iter iter'"
  shows "map hostname (create (compare_routes iter D A)) =
           iter (hostname ` set D - hostname ` set A) \<and>
         map hostname (update (compare_routes iter D A)) =
           filter (\<lambda>h. \<not> route_eq (getitem (routes_dict D) h) (getitem (routes_dict A) h))
             (iter (hostname ` set D \<inter> hostname ` set A)) \<and>
         map hostname (delete (compare_routes iter D A)) =
           iter (hostname ` set A - hostname ` set D) \<and>
         mset (create (compare_routes iter D A)) = mset (create (compare_routes iter' D A)) \<and>
         mset (update (compare_routes iter D A)) = mset (update (compare_routes iter' D A)) \<and>
         mset (delete (compare_routes iter D A)) = mset (delete (compare_routes iter' D A))"
proof -
  let ?c = "hostname ` set D - hostname ` set A"
  let ?u = "hostname ` set D \<inter> hostname ` set A"
  let ?d = "hostname ` set A - hostname ` set D"
  let ?Q = "\<lambda>h. \<not> route_eq (getitem (routes_dict D) h) (getitem (routes_dict A) h)"
  have fin: "finite ?c" "finite ?u" "finite ?d" by simp_all
  have sc: "set (iter ?c) = ?c" using assms(1) fin(1) unfolding valid_iter_def by blast
  have su: "set (iter ?u) = ?u" using assms(1) fin(2) unfolding valid_iter_def by blast
  have sd: "set (iter ?d) = ?d" using assms(1) fin(3) unfolding valid_iter_def by blast
  have c: "map hostname (map (getitem (routes_dict D)) (iter ?c)) = iter ?c"
  proof (rule hostname_getitem_map)
    show "set (iter ?c) \<subseteq> hostname ` set D" unfolding sc by (rule Diff_subset)
  qed
  have u: "map hostname (map (getitem (routes_dict D)) (filter ?Q (iter ?u))) = filter ?Q (iter ?u)"
  proof (rule hostname_getitem_map)
    have "set (filter ?Q (iter ?u)) \<subseteq> set (iter ?u)" by (rule filter_is_subset)
    also have "\<dots> \<subseteq> hostname ` set D" unfolding su by (rule Int_lower1)
    finally show "set (filter ?Q (iter ?u)) \<subseteq> hostname ` set D" .
  qed
  have d: "map hostname (map (getitem (routes_dict A)) (iter ?d)) = iter ?d"
  proof (rule hostname_getitem_map)
    show "set (iter ?d) \<subseteq> hostname ` set A" unfolding sd by (rule Diff_subset)
  qed
  have m1: "mset (iter ?c) = mset (iter' ?c)"
    by (simp only: valid_iter_mset [OF assms(1) fin(1)] valid_iter_mset [OF assms(2) fin(1)])
  have m2: "mset (iter ?u) = mset (iter' ?u)"
    by (simp only: valid_iter_mset [OF assms(1) fin(2)] valid_iter_mset [OF assms(2) fin(2)])
  have m3: "mset (iter ?d) = mset (iter' ?d)"
    by (simp only: valid_iter_mset [OF assms(1) fin(3)] valid_iter_mset [OF assms(2) fin(3)])
  have mc: "mset (map (getitem (routes_dict D)) (iter ?c)) =
            mset (map (getitem (routes_dict D)) (iter' ?c))"
    by (simp only: mset_map m1)
  have mu: "mset (map (getitem (routes_dict D)) (filter ?Q (iter ?u))) =
            mset (map (getitem (routes_dict D)) (filter ?Q (iter' ?u)))"
    by (simp only: mset_map mset_filter m2)
  have md: "mset (map (getitem (routes_dict A)) (iter ?d)) =
            mset (map (getitem (routes_dict A)) (iter' ?d))"
    by (simp only: mset_map m3)
  show ?thesis
    by (simp only: compare_routes_fields c u d mc mu md simp_thms)
qed

theorem compare_routes_iteration_order_witness:
  "valid_iter sorted_iter \<and> valid_iter reverse_iter \<and>
   map hostname (create (compare_routes sorted_iter [ex_b, ex_a] [ex_old])) =
     [''a.example.com'', ''b.example.com''] \<and>
   map hostname (create (compare_routes reverse_iter [ex_b, ex_a] [ex_old])) =
     [''b.example.com'', ''a.example.com''] \<and>
   mset (create (compare_routes sorted_iter [ex_b, ex_a] [ex_old])) =
     mset (create (compare_routes reverse_iter [ex_b, ex_a] [ex_old]))"
proof -
  note t1 = compare_routes_iteration_order [OF valid_iter_sorted_iter valid_iter_reverse_iter,
      of "[ex_b, ex_a]" "[ex_old]"]
  note t2 = compare_routes_iteration_order [OF valid_iter_reverse_iter valid_iter_sorted_iter,
      of "[ex_b, ex_a]" "[ex_old]"]
  have e1: "sorted_iter (hostname ` set [ex_b, ex_a] - hostname ` set [ex_old]) =
      [''a.example.com'', ''b.example.com'']" by code_simp
  have e2: "reverse_iter (hostname ` set [ex_b, ex_a] - hostname ` set [ex_old]) =
      [''b.example.com'', ''a.example.com'']" by code_simp
  have a: "map hostname (create (compare_routes sorted_iter [ex_b, ex_a] [ex_old])) =
     [''a.example.com'', ''b.example.com'']"
    using t1 [THEN conjunct1] by (simp only: e1)
  have b: "map hostname (create (compare_routes reverse_iter [ex_b, ex_a] [ex_old])) =
     [''b.example.com'', ''a.example.com'']"
    using t2 [THEN conjunct1] by (simp only: e2)
  note c = t1 [THEN conjunct2, THEN conjunct2, THEN conjunct2, THEN conjunct1]
  show ?thesis
    using a b c valid_iter_sorted_iter valid_iter_reverse_iter by blast
qed

section \<open>DNS reconciliation\<close>

lemma map_of_map_find:
  "map_of (map (\<lambda>x. (f x, g x)) xs) n = map_option g (find (\<lambda>x. f x = n) xs)"
  by (induction xs) auto

lemma find_filter: "find P (filter Q xs) = find (\<lambda>x. Q x \<and> P x) xs"
  by (induction xs) auto

lemma existing_fold_map_of:
  "map_of (fold (\<lambda>rd records.
             if is_tunnel_cname rd
             then AList.update (dns_name (DNSRecord_of rd)) (DNSRecord_of rd) records
             else records) result d0) =
   map_of (map (\<lambda>rd. (rd_name rd, DNSRecord_of rd)) (rev (filter is_tunnel_cname result)) @ d0)"
proof (induction result arbitrary: d0)
  case Nil
  show ?case by simp
next
  case (Cons rd result)
  have n: "dns_name (DNSRecord_of rd) = rd_name rd" by (simp add: DNSRecord_of_def)
  show ?case
    by (simp add: Cons.IH n update_conv' map_add_def fun_eq_iff split: option.splits)
qed

lemma existing_fold_keys:
  "fst ` set (fold (\<lambda>rd records.
             if is_tunnel_cname rd
             then AList.update (dns_name (DNSRecord_of rd)) (DNSRecord_of rd) records
             else records) result d0) =
   rd_name ` {rd \<in> set result. is_tunnel_cname rd} \<union> fst ` set d0"
proof (induction result arbitrary: d0)
  case Nil
  show ?case by simp
next
  case (Cons rd result)
  have n: "dns_name (DNSRecord_of rd) = rd_name rd" by (simp add: DNSRecord_of_def)
  show ?case by (auto simp: Cons.IH n dom_update)
qed

lemma existing_fold_filter:
  "fold (\<lambda>rd records.
             if is_tunnel_cname rd
             then AList.update (dns_name (DNSRecord_of rd)) (DNSRecord_of rd) records
             else records) (filter is_tunnel_cname result) d0 =
   fold (\<lambda>rd records.
             if is_tunnel_cname rd
             then AList.update (dns_name (DNSRecord_of rd)) (DNSRecord_of rd) records
             else records) result d0"
  by (induction result arbitrary: d0) simp_all

lemma get_existing_filter:
  "get_existing_dns_records (Inr (filter is_tunnel_cname result)) =
   get_existing_dns_records (Inr result)"
  by (simp add: get_existing_dns_records_def existing_fold_filter)

lemma get_existing_Inr:
  assumes "get_existing_dns_records (Inr result) = Inr (w, existing)"
  shows "w = []"
    and "map_of existing n =
           map_option DNSRecord_of
             (find (\<lambda>rd. is_tunnel_cname rd \<and> rd_name rd = n) (rev result))"
    and "set (map fst existing) = rd_name ` {rd \<in> set result. is_tunnel_cname rd}"
proof -
  let ?step = "\<lambda>rd records.
             if is_tunnel_cname rd
             then AList.update (dns_name (DNSRecord_of rd)) (DNSRecord_of rd) records
             else records"
  from assms have w: "w = []" and e: "existing = fold ?step result []"
    by (simp_all add: get_existing_dns_records_def)
  show "w = []" by (rule w)
  have "map_of existing n =
      map_of (map (\<lambda>rd. (rd_name rd, DNSRecord_of rd)) (rev (filter is_tunnel_cname result))) n"
    unfolding e by (simp add: existing_fold_map_of)
  also have "\<dots> = map_option DNSRecord_of
      (find (\<lambda>rd. rd_name rd = n) (rev (filter is_tunnel_cname result)))"
    by (rule map_of_map_find)
  also have "\<dots> = map_option DNSRecord_of
      (find (\<lambda>rd. is_tunnel_cname rd \<and> rd_name rd = n) (rev result))"
    by (simp add: rev_filter find_filter)
  finally show "map_of existing n =
           map_option DNSRecord_of
             (find (\<lambda>rd. is_tunnel_cname rd \<and> rd_name rd = n) (rev result))" .
  show "set (map fst existing) = rd_name ` {rd \<in> set result. is_tunnel_cname rd}"
    unfolding e using existing_fold_keys [of result "[]"] by simp
qed

lemma dns_actions_fields:
  "dns_create (dns_actions iter td existing routes) =
     iter (hostname ` set routes - set (map fst existing))"
  "dns_update (dns_actions iter td existing routes) =
     filter (\<lambda>h. dns_content (getitem existing h) \<noteq> td)
       (iter (hostname ` set routes \<inter> set (map fst existing)))"
  "dns_delete (dns_actions iter td existing routes) =
     iter (set (map fst existing) - hostname ` set routes)"
  by (simp_all add: dns_actions_def Let_def del: set_map)

lemma dns_actions_sets:
  assumes "valid_iter iter"
  shows "set (dns_create (dns_actions iter td existing routes)) =
           hostname ` set routes - set (map fst existing)"
    and "set (dns_update (dns_actions iter td existing routes)) =
           {h \<in> hostname ` set routes \<inter> set (map fst existing).
              dns_content (getitem existing h) \<noteq> td}"
    and "set (dns_delete (dns_actions iter td existing routes)) =
           set (map fst existing) - hostname ` set routes"
    and "distinct (dns_create (dns_actions iter td existing routes))"
    and "distinct (dns_update (dns_actions iter td existing routes))"
    and "distinct (dns_delete (dns_actions iter td existing routes))"
proof -
  let ?c = "hostname ` set routes - set (map fst existing)"
  let ?u = "hostname ` set routes \<inter> set (map fst existing)"
  let ?d = "set (map fst existing) - hostname ` set routes"
  have fin: "finite ?c" "finite ?u" "finite ?d" by simp_all
  have c: "set (iter ?c) = ?c" "distinct (iter ?c)"
    using assms fin(1) unfolding valid_iter_def by blast+
  have u: "set (iter ?u) = ?u" "distinct (iter ?u)"
    using assms fin(2) unfolding valid_iter_def by blast+
  have d: "set (iter ?d) = ?d" "distinct (iter ?d)"
    using assms fin(3) unfolding valid_iter_def by blast+
  show "set (dns_create (dns_actions iter td existing routes)) = ?c"
    by (simp only: dns_actions_fields c)
  show "set (dns_update (dns_actions iter td existing routes)) =
           {h \<in> ?u. dns_content (getitem existing h) \<noteq> td}"
    by (simp only: dns_actions_fields set_filter u)
  show "set (dns_delete (dns_actions iter td existing routes)) = ?d"
    by (simp only: dns_actions_fields d)
  show "distinct (dns_create (dns_actions iter td existing routes))"
    by (simp only: dns_actions_fields c)
  show "distinct (dns_update (dns_actions iter td existing routes))"
    unfolding dns_actions_fields using u(2) by (rule distinct_filter)
  show "distinct (dns_delete (dns_actions iter td existing routes))"
    by (simp only: dns_actions_fields d)
qed

text \<open>
  Claim C3. Of the records that the API lists, the DNS reconciliation keeps exactly those
  of type \<open>CNAME\<close> whose content ends with \<open>.cfargotunnel.com\<close>, the last one for
  each name. It computes: create, the desired names with no such record; delete, the names
  of such records that are not desired; update, the names on both sides whose kept record
  has a content other than the tunnel domain. Each list holds every such name once. All
  other records are ignored: removing them from the listing changes nothing in the run,
  neither what is printed nor which calls are made.
\<close>

theorem dns_reconciliation:
  assumes "valid_iter iter"
    and "get_existing_dns_records (Inr result) = Inr (w, existing)"
  shows "(\<forall>n. map_of existing n =
            map_option DNSRecord_of
              (find (\<lambda>rd. is_tunnel_cname rd \<and> rd_name rd = n) (rev result))) \<and>
         (\<forall>rd. is_tunnel_cname rd \<longleftrightarrow>
            rd_type rd = Some ''CNAME'' \<and>
            (\<exists>c. rd_content rd = Some c \<and> endswith c ''.cfargotunnel.com'')) \<and>
         set (dns_create (dns_actions iter td existing routes)) =
           hostname ` set routes - rd_name ` {rd \<in> set result. is_tunnel_cname rd} \<and>
         set (dns_delete (dns_actions iter td existing routes)) =
           rd_name ` {rd \<in> set result. is_tunnel_cname rd} - hostname ` set routes \<and>
         set (dns_update (dns_actions iter td existing routes)) =
           {h \<in> hostname ` set routes \<inter> rd_name ` {rd \<in> set result. is_tunnel_cname rd}.
              dns_content (getitem existing h) \<noteq> td} \<and>
         distinct (dns_create (dns_actions iter td existing routes)) \<and>
         distinct (dns_update (dns_actions iter td existing routes)) \<and>
         distinct (dns_delete (dns_actions iter td existing routes)) \<and>
         sync_dns_records manage_dns iter api td (Inr (filter is_tunnel_cname result)) routes dry_run =
           sync_dns_records manage_dns iter api td (Inr result) routes dry_run"
proof -
  note ex = get_existing_Inr [OF assms(2)]
  note s = dns_actions_sets [OF assms(1), of td existing routes]
  have m: "\<forall>n. map_of existing n =
            map_option DNSRecord_of
              (find (\<lambda>rd. is_tunnel_cname rd \<and> rd_name rd = n) (rev result))"
    using ex(2) by blast
  have f: "\<forall>rd. is_tunnel_cname rd \<longleftrightarrow>
            rd_type rd = Some ''CNAME'' \<and>
            (\<exists>c. rd_content rd = Some c \<and> endswith c ''.cfargotunnel.com'')"
    by (auto simp: is_tunnel_cname_def endswith_def split: option.splits)
  have c: "set (dns_create (dns_actions iter td existing routes)) =
           hostname ` set routes - rd_name ` {rd \<in> set result. is_tunnel_cname rd}"
    by (simp only: s(1) ex(3))
  have d: "set (dns_delete (dns_actions iter td existing routes)) =
           rd_name ` {rd \<in> set result. is_tunnel_cname rd} - hostname ` set routes"
    by (simp only: s(3) ex(3))
  have u: "set (dns_update (dns_actions iter td existing routes)) =
           {h \<in> hostname ` set routes \<inter> rd_name ` {rd \<in> set result. is_tunnel_cname rd}.
              dns_content (getitem existing h) \<noteq> td}"
    by (simp only: s(2) ex(3))
  have r: "sync_dns_records manage_dns iter api td (Inr (filter is_tunnel_cname result)) routes dry_run =
           sync_dns_records manage_dns iter api td (Inr result) routes dry_run"
    by (simp only: sync_dns_records_def get_existing_filter)
  show ?thesis using m f c d u s(4,5,6) r by blast
qed

theorem dns_reconciliation_witness:
  "valid_iter sorted_iter \<and>
   get_existing_dns_records (Inr [ex_rd_a, ex_rd_mail, ex_rd_stale]) =
     Inr ([], [(''a.example.com'', DNSRecord_of ex_rd_a),
               (''stale.example.com'', DNSRecord_of ex_rd_stale)]) \<and>
   set (dns_create (dns_actions sorted_iter ex_td
          [(''a.example.com'', DNSRecord_of ex_rd_a),
           (''stale.example.com'', DNSRecord_of ex_rd_stale)] [ex_a, ex_b])) =
     hostname ` set [ex_a, ex_b] -
       rd_name ` {rd \<in> set [ex_rd_a, ex_rd_mail, ex_rd_stale]. is_tunnel_cname rd} \<and>
   dns_create (dns_actions sorted_iter ex_td
          [(''a.example.com'', DNSRecord_of ex_rd_a),
           (''stale.example.com'', DNSRecord_of ex_rd_stale)] [ex_a, ex_b]) = [''b.example.com''] \<and>
   dns_update (dns_actions sorted_iter ex_td
          [(''a.example.com'', DNSRecord_of ex_rd_a),
           (''stale.example.com'', DNSRecord_of ex_rd_stale)] [ex_a, ex_b]) = [''a.example.com''] \<and>
   dns_delete (dns_actions sorted_iter ex_td
          [(''a.example.com'', DNSRecord_of ex_rd_a),
           (''stale.example.com'', DNSRecord_of ex_rd_stale)] [ex_a, ex_b]) = [''stale.example.com'']"
proof -
  have h: "get_existing_dns_records (Inr [ex_rd_a, ex_rd_mail, ex_rd_stale]) =
     Inr ([], [(''a.example.com'', DNSRecord_of ex_rd_a),
               (''stale.example.com'', DNSRecord_of ex_rd_stale)])"
    by code_simp
  note t = dns_reconciliation [OF valid_iter_sorted_iter h, of ex_td "[ex_a, ex_b]"]
  have c: "dns_create (dns_actions sorted_iter ex_td
          [(''a.example.com'', DNSRecord_of ex_rd_a),
           (''stale.example.com'', DNSRecord_of ex_rd_stale)] [ex_a, ex_b]) = [''b.example.com'']"
    by code_simp
  have u: "dns_update (dns_actions sorted_iter ex_td
          [(''a.example.com'', DNSRecord_of ex_rd_a),
           (''stale.example.com'', DNSRecord_of ex_rd_stale)] [ex_a, ex_b]) = [''a.example.com'']"
    by code_simp
  have d: "dns_delete (dns_actions sorted_iter ex_td
          [(''a.example.com'', DNSRecord_of ex_rd_a),
           (''stale.example.com'', DNSRecord_of ex_rd_stale)] [ex_a, ex_b]) = [''stale.example.com'']"
    by code_simp
  show ?thesis
    using valid_iter_sorted_iter h t [THEN conjunct2, THEN conjunct2, THEN conjunct1] c u d
    by blast
qed

section \<open>A failed listing of the DNS records\<close>

lemma dns_actions_no_existing:
  assumes "valid_iter iter"
  shows "dns_create (dns_actions iter td [] routes) = iter (hostname ` set routes)"
    and "dns_update (dns_actions iter td [] routes) = []"
    and "dns_delete (dns_actions iter td [] routes) = []"
  using iter_empty [OF assms] by (simp_all add: dns_actions_def)

lemma iter_eq_Nil_iff: "valid_iter iter \<Longrightarrow> finite S \<Longrightarrow> iter S = [] \<longleftrightarrow> S = {}"
  unfolding valid_iter_def by (metis set_empty)

lemma dns_create_no_existing_Nil:
  assumes "valid_iter iter"
  shows "dns_create (dns_actions iter td [] routes) = [] \<longleftrightarrow> routes = []"
proof -
  have "finite (hostname ` set routes)" by simp
  then have "iter (hostname ` set routes) = [] \<longleftrightarrow> hostname ` set routes = {}"
    using assms by (rule iter_eq_Nil_iff [rotated])
  then show ?thesis by (simp add: dns_actions_no_existing(1) [OF assms])
qed

lemma dns_report_no_existing:
  assumes "valid_iter iter"
  shows "dns_report (dns_actions iter td [] routes) =
      (if routes = [] then []
       else [Print (DnsToCreate (dns_create (dns_actions iter td [] routes)))])"
  by (simp add: dns_report_def dns_actions_no_existing(2,3) [OF assms]
      dns_create_no_existing_Nil [OF assms])

text \<open>
  Claim C6, as stated, fails: \<^verbatim>\<open>get_existing_dns_records\<close> catches
  \<^verbatim>\<open>requests.exceptions.HTTPError\<close> only. When listing the records fails in another
  way, say with a connection error, the exception leaves \<^verbatim>\<open>sync_dns_records\<close> right after
  its first message: no list is computed and nothing is created.
\<close>

theorem dns_fetch_failure_counterexample:
  "sync_dns_records True sorted_iter api_ok ex_td (Inl ConnectionError) [ex_a] False =
     (Raised ConnectionError, [Print DnsSynchronizing])"
  by (simp add: sync_dns_records_def get_existing_dns_records_def)

text \<open>
  Claim C6, amended. If listing the DNS records fails with an HTTP error status
  (\<^verbatim>\<open>HTTPError\<close>), a warning is printed and the reconciliation goes on with no existing
  record: every desired hostname is in the create list, once, and the update and delete lists
  are empty. The run then returns when there is no desired hostname or in a dry run, and
  otherwise ends as the application of the creates ends.
\<close>

theorem dns_fetch_http_error:
  assumes "valid_iter iter"
  shows "get_existing_dns_records (Inl HTTPError) = Inr ([Print DnsFetchWarning], []) \<and>
         set (dns_create (dns_actions iter td [] routes)) = hostname ` set routes \<and>
         distinct (dns_create (dns_actions iter td [] routes)) \<and>
         dns_update (dns_actions iter td [] routes) = [] \<and>
         dns_delete (dns_actions iter td [] routes) = [] \<and>
         sync_dns_records True iter api td (Inl HTTPError) routes dry_run =
           (if routes = []
            then (Returned, [Print DnsSynchronizing, Print DnsFetchWarning, Print DnsAlreadyInSync])
            else if dry_run
            then (Returned, [Print DnsSynchronizing, Print DnsFetchWarning,
                             Print (DnsToCreate (dns_create (dns_actions iter td [] routes)))])
            else (fst (apply_dns api td [] (dns_actions iter td [] routes)),
                  [Print DnsSynchronizing, Print DnsFetchWarning,
                   Print (DnsToCreate (dns_create (dns_actions iter td [] routes)))] @
                  snd (apply_dns api td [] (dns_actions iter td [] routes))))"
proof -
  note a = dns_actions_no_existing [OF assms, of td routes]
  have g: "get_existing_dns_records (Inl HTTPError) = Inr ([Print DnsFetchWarning], [])"
    by (simp add: get_existing_dns_records_def)
  have fin: "finite (hostname ` set routes)" by simp
  have s: "set (iter (hostname ` set routes)) = hostname ` set routes"
    and d: "distinct (iter (hostname ` set routes))"
    using assms fin unfolding valid_iter_def by blast+
  have y: "sync_dns_records True iter api td (Inl HTTPError) routes dry_run =
           (if routes = []
            then (Returned, [Print DnsSynchronizing, Print DnsFetchWarning, Print DnsAlreadyInSync])
            else if dry_run
            then (Returned, [Print DnsSynchronizing, Print DnsFetchWarning,
                             Print (DnsToCreate (dns_create (dns_actions iter td [] routes)))])
            else (fst (apply_dns api td [] (dns_actions iter td [] routes)),
                  [Print DnsSynchronizing, Print DnsFetchWarning,
                   Print (DnsToCreate (dns_create (dns_actions iter td [] routes)))] @
                  snd (apply_dns api td [] (dns_actions iter td [] routes))))"
    by (simp add: sync_dns_records_def g Let_def split_beta
        dns_report_no_existing [OF assms] dns_create_no_existing_Nil [OF assms]
        dns_actions_no_existing(2,3) [OF assms])
  show ?thesis using g s d a(2,3) y by (simp only: a(1) simp_thms)
qed

theorem dns_fetch_http_error_witness:
  "valid_iter sorted_iter \<and>
   set (dns_create (dns_actions sorted_iter ex_td [] [ex_b, ex_a])) = hostname ` set [ex_b, ex_a] \<and>
   dns_create (dns_actions sorted_iter ex_td [] [ex_b, ex_a]) = [''a.example.com'', ''b.example.com''] \<and>
   dns_update (dns_actions sorted_iter ex_td [] [ex_b, ex_a]) = [] \<and>
   dns_delete (dns_actions sorted_iter ex_td [] [ex_b, ex_a]) = [] \<and>
   sync_dns_records True sorted_iter api_ok ex_td (Inl HTTPError) [ex_b, ex_a] True =
     (Returned, [Print DnsSynchronizing, Print DnsFetchWarning,
                 Print (DnsToCreate [''a.example.com'', ''b.example.com''])])"
proof -
  note t = dns_fetch_http_error [OF valid_iter_sorted_iter, of ex_td "[ex_b, ex_a]" api_ok True]
  have c: "dns_create (dns_actions sorted_iter ex_td [] [ex_b, ex_a]) =
      [''a.example.com'', ''b.example.com'']" by code_simp
  have y: "sync_dns_records True sorted_iter api_ok ex_td (Inl HTTPError) [ex_b, ex_a] True =
     (Returned, [Print DnsSynchronizing, Print DnsFetchWarning,
                 Print (DnsToCreate [''a.example.com'', ''b.example.com''])])"
    using t by (simp add: c)
  show ?thesis
    using valid_iter_sorted_iter t [THEN conjunct2, THEN conjunct1] c
      t [THEN conjunct2, THEN conjunct2, THEN conjunct2, THEN conjunct1]
      t [THEN conjunct2, THEN conjunct2, THEN conjunct2, THEN conjunct2, THEN conjunct1] y
    by blast
qed

section \<open>Applying the DNS changes\<close>

lemma tunnel_cname_name: "tunnel_cname td h = tunnel_cname td (dns_name (tunnel_cname td h))"
  by (simp add: tunnel_cname_def)

lemma synth_create: "list_all (synthesized td) (snd (apply_dns_create api td hs))"
proof (induction hs)
  case Nil
  show ?case by simp
next
  case (Cons h hs)
  then show ?case
    using tunnel_cname_name [of td h]
    by (simp add: Let_def split_beta split: option.splits)
qed

lemma synth_update: "list_all (synthesized td) (snd (apply_dns_update api td existing hs))"
proof (induction hs)
  case Nil
  show ?case by simp
next
  case (Cons h hs)
  then show ?case
    using tunnel_cname_name [of td h]
    by (simp add: Let_def split_beta split: option.splits)
qed

lemma synth_delete: "list_all (synthesized td) (snd (apply_dns_delete api existing hs))"
proof (induction hs)
  case Nil
  show ?case by simp
next
  case (Cons h hs)
  then show ?case
    by (simp add: Let_def split_beta split: option.splits)
qed

lemma synth_try: "list_all (synthesized td) (snd (apply_dns_try api td existing acts))"
  using synth_create [of td api "dns_create acts"]
    synth_update [of td api existing "dns_update acts"]
    synth_delete [of td api existing "dns_delete acts"]
  by (simp add: apply_dns_try_def split_beta split: option.splits)

lemma synth_apply: "list_all (synthesized td) (snd (apply_dns api td existing acts))"
  using synth_try [of td api existing acts]
  by (simp add: apply_dns_def split_beta split: option.splits request_exception.splits)

lemma synth_report: "list_all (synthesized td) (dns_report acts)"
  by (simp add: dns_report_def)

lemma synth_get_existing:
  "get_existing_dns_records response = Inr (w, existing) \<Longrightarrow> list_all (synthesized td) w"
  by (auto simp: get_existing_dns_records_def split: sum.splits request_exception.splits)

lemma synth_sync_dns:
  "list_all (synthesized td) (snd (sync_dns_records manage_dns iter api td response routes dry_run))"
proof (cases "get_existing_dns_records response")
  case (Inl e)
  then show ?thesis by (simp add: sync_dns_records_def)
next
  case (Inr p)
  obtain w existing where p: "p = (w, existing)" by (cases p)
  have w: "list_all (synthesized td) w" using Inr p synth_get_existing by blast
  show ?thesis
    using w synth_report [of td "dns_actions iter td existing routes"]
      synth_apply [of td api existing "dns_actions iter td existing routes"]
    by (simp add: sync_dns_records_def Inr p Let_def split_beta)
qed

lemma apply_dns_update_skip:
  assumes "\<not> truthy (dns_id (getitem existing h))"
  shows "apply_dns_update api td existing (xs @ h # ys) = apply_dns_update api td existing (xs @ ys)"
proof (induction xs)
  case Nil
  show ?case using assms by simp
next
  case (Cons x xs)
  then show ?case by (simp add: Let_def split_beta split: option.splits)
qed

lemma apply_dns_delete_skip:
  assumes "\<not> truthy (dns_id (getitem existing h))"
  shows "apply_dns_delete api existing (xs @ h # ys) = apply_dns_delete api existing (xs @ ys)"
proof (induction xs)
  case Nil
  show ?case using assms by simp
next
  case (Cons x xs)
  then show ?case by (simp add: Let_def split_beta split: option.splits)
qed

text \<open>
  Claim C10. While the DNS changes are applied, a hostname of the update or of the delete
  list whose existing record has no id is skipped silently: the loop behaves exactly as if the
  hostname were not in the list, so no call is made for it, nothing is printed, no error is
  raised and the hostnames after it are processed. Every record sent with a create or an
  update call has type \<open>CNAME\<close>, the tunnel domain as content, \<open>proxied\<close> true and
  \<open>ttl\<close> 1.
\<close>

theorem dns_apply_skips_records_without_id:
  assumes "\<not> truthy (dns_id (getitem existing h))"
  shows "apply_dns_update api td existing (xs @ h # ys) =
           apply_dns_update api td existing (xs @ ys) \<and>
         apply_dns_delete api existing (xs @ h # ys) =
           apply_dns_delete api existing (xs @ ys) \<and>
         (\<forall>e\<in>set (snd (sync_dns_records manage_dns iter api td response routes dry_run)).
            \<forall>r. e = Call (CreateDnsRecord r) \<or> (\<exists>i. e = Call (UpdateDnsRecord i r)) \<longrightarrow>
              dns_type r = ''CNAME'' \<and> dns_content r = td \<and> dns_proxied r \<and> dns_ttl r = 1)"
proof -
  have u: "apply_dns_update api td existing (xs @ h # ys) =
           apply_dns_update api td existing (xs @ ys)"
    using assms by (rule apply_dns_update_skip)
  have d: "apply_dns_delete api existing (xs @ h # ys) =
           apply_dns_delete api existing (xs @ ys)"
    using assms by (rule apply_dns_delete_skip)
  have s: "dns_type r = ''CNAME'' \<and> dns_content r = td \<and> dns_proxied r \<and> dns_ttl r = 1"
    if "e \<in> set (snd (sync_dns_records manage_dns iter api td response routes dry_run))"
      and "e = Call (CreateDnsRecord r) \<or> (\<exists>i. e = Call (UpdateDnsRecord i r))" for e r
  proof -
    have "synthesized td e"
      using that(1) synth_sync_dns [of td manage_dns iter api response routes dry_run]
      by (simp add: list_all_iff)
    with that(2) have "r = tunnel_cname td (dns_name r)" by auto
    then show ?thesis by (metis DNSRecord.select_convs(2,4,5,6) tunnel_cname_def)
  qed
  show ?thesis using u d s by blast
qed

theorem dns_apply_skips_records_without_id_witness:
  "\<not> truthy (dns_id (getitem ex_existing ''noid.example.com'')) \<and>
   apply_dns_delete api_ok ex_existing ([] @ ''noid.example.com'' # [''stale.example.com'']) =
     apply_dns_delete api_ok ex_existing ([] @ [''stale.example.com'']) \<and>
   apply_dns_delete api_ok ex_existing [''noid.example.com'', ''stale.example.com''] =
     (None, [Call (DeleteDnsRecord ''id-s''), Print (DnsDeleted ''stale.example.com'')]) \<and>
   apply_dns_update api_ok ex_td ex_existing [''noid.example.com'', ''stale.example.com''] =
     (None, [Call (UpdateDnsRecord ''id-s'' (tunnel_cname ex_td ''stale.example.com'')),
             Print (DnsUpdated ''stale.example.com'')])"
proof -
  have h: "\<not> truthy (dns_id (getitem ex_existing ''noid.example.com''))"
    by (simp add: ex_existing_def getitem_def DNSRecord_of_def ex_rd_noid_def)
  note t = dns_apply_skips_records_without_id [OF h, of api_ok ex_td "[]" "[''stale.example.com'']"]
  have s: "dns_id (getitem ex_existing ''stale.example.com'') = Some ''id-s''"
    by (simp add: ex_existing_def getitem_def DNSRecord_of_def ex_rd_stale_def)
  have d: "apply_dns_delete api_ok ex_existing [''stale.example.com''] =
     (None, [Call (DeleteDnsRecord ''id-s''), Print (DnsDeleted ''stale.example.com'')])"
    by (simp add: s api_ok_def)
  have u: "apply_dns_update api_ok ex_td ex_existing [''stale.example.com''] =
     (None, [Call (UpdateDnsRecord ''id-s'' (tunnel_cname ex_td ''stale.example.com'')),
             Print (DnsUpdated ''stale.example.com'')])"
    by (simp add: s api_ok_def)
  have d': "apply_dns_delete api_ok ex_existing [''noid.example.com'', ''stale.example.com''] =
     (None, [Call (DeleteDnsRecord ''id-s''), Print (DnsDeleted ''stale.example.com'')])"
    using t [THEN conjunct2, THEN conjunct1] d by simp
  have u': "apply_dns_update api_ok ex_td ex_existing [''noid.example.com'', ''stale.example.com''] =
     (None, [Call (UpdateDnsRecord ''id-s'' (tunnel_cname ex_td ''stale.example.com'')),
             Print (DnsUpdated ''stale.example.com'')])"
    using t [THEN conjunct1] u by simp
  show ?thesis using h t [THEN conjunct2, THEN conjunct1] d' u' by blast
qed

section \<open>The order of events in a run\<close>

lemma apply_event_create: "list_all is_dns_apply_event (snd (apply_dns_create api td hs))"
  by (induction hs) (simp_all add: Let_def split_beta split: option.splits)

lemma apply_event_update:
  "list_all is_dns_apply_event (snd (apply_dns_update api td existing hs))"
  by (induction hs) (simp_all add: Let_def split_beta split: option.splits)

lemma apply_event_delete:
  "list_all is_dns_apply_event (snd (apply_dns_delete api existing hs))"
  by (induction hs) (simp_all add: Let_def split_beta split: option.splits)

lemma apply_event_try:
  "list_all is_dns_apply_event (snd (apply_dns_try api td existing acts))"
  using apply_event_create [of api td "dns_create acts"]
    apply_event_update [of api td existing "dns_update acts"]
    apply_event_delete [of api existing "dns_delete acts"]
  by (simp add: apply_dns_try_def split_beta split: option.splits)

lemma apply_event_apply:
  "list_all is_dns_apply_event (snd (apply_dns api td existing acts))"
  using apply_event_try [of api td existing acts]
  by (simp add: apply_dns_def split_beta split: option.splits request_exception.splits)

lemma apply_event_class:
  "is_dns_apply_event e \<Longrightarrow>
     \<not> is_route_plan e \<and> \<not> is_dns_plan e \<and> \<not> is_tunnel_call e"
  by (induction e rule: is_dns_apply_event.induct) simp_all

lemma report_class:
  "list_all (\<lambda>e. \<not> is_call e \<and> \<not> is_route_plan e) (dns_report acts)"
  by (simp add: dns_report_def)

lemma warning_class:
  "get_existing_dns_records response = Inr (w, existing) \<Longrightarrow>
     list_all (\<lambda>e. \<not> is_call e \<and> \<not> is_route_plan e \<and> \<not> is_dns_plan e) w"
  by (auto simp: get_existing_dns_records_def split: sum.splits request_exception.splits)

lemma shapeI:
  "t = A @ B \<Longrightarrow> list_all P A \<Longrightarrow> list_all Q B \<Longrightarrow> (d \<longrightarrow> B = []) \<Longrightarrow>
     \<exists>A B. t = A @ B \<and> list_all P A \<and> list_all Q B \<and> (d \<longrightarrow> B = [])"
  by blast

lemma sync_dns_records_shape:
  "\<exists>A B. snd (sync_dns_records manage_dns iter api td response routes dry_run) = A @ B \<and>
         list_all (\<lambda>e. \<not> is_call e \<and> \<not> is_route_plan e) A \<and>
         list_all is_dns_apply_event B \<and> (dry_run \<longrightarrow> B = [])"
proof (cases "get_existing_dns_records response")
  case (Inl e)
  have "snd (sync_dns_records manage_dns iter api td response routes dry_run) =
      (if manage_dns then [Print DnsSynchronizing] else []) @ []"
    by (simp add: sync_dns_records_def Inl)
  moreover have "list_all (\<lambda>e. \<not> is_call e \<and> \<not> is_route_plan e)
      (if manage_dns then [Print DnsSynchronizing] else [])" by simp
  ultimately show ?thesis by (rule shapeI) simp_all
next
  case (Inr p)
  obtain w existing where p: "p = (w, existing)" by (cases p)
  let ?acts = "dns_actions iter td existing routes"
  let ?shown = "Print DnsSynchronizing # w @ dns_report ?acts"
  have w: "list_all (\<lambda>e. \<not> is_call e \<and> \<not> is_route_plan e) w"
    using warning_class [of response w existing] Inr p by (simp add: list_all_iff)
  have sh: "list_all (\<lambda>e. \<not> is_call e \<and> \<not> is_route_plan e) ?shown"
    using w report_class [of ?acts] by simp
  show ?thesis
  proof (cases "manage_dns")
    case False
    then have "snd (sync_dns_records manage_dns iter api td response routes dry_run) = [] @ []"
      by (simp add: sync_dns_records_def)
    moreover have "list_all (\<lambda>e. \<not> is_call e \<and> \<not> is_route_plan e) []" by simp
    ultimately show ?thesis by (rule shapeI) simp_all
  next
    case True
    show ?thesis
    proof (cases "dns_create ?acts \<noteq> [] \<or> dns_update ?acts \<noteq> [] \<or> dns_delete ?acts \<noteq> []")
      case False
      then have "snd (sync_dns_records manage_dns iter api td response routes dry_run) =
          (?shown @ [Print DnsAlreadyInSync]) @ []"
        using True by (simp add: sync_dns_records_def Inr p Let_def)
      moreover have "list_all (\<lambda>e. \<not> is_call e \<and> \<not> is_route_plan e)
          (?shown @ [Print DnsAlreadyInSync])"
        using sh by simp
      ultimately show ?thesis by (rule shapeI) simp_all
    next
      case changes: True
      show ?thesis
      proof (cases dry_run)
        case dry: True
        have "snd (sync_dns_records manage_dns iter api td response routes dry_run) = ?shown @ []"
          using True changes dry by (simp add: sync_dns_records_def Inr p Let_def)
        then show ?thesis using sh by (rule shapeI) simp_all
      next
        case real: False
        have "snd (sync_dns_records manage_dns iter api td response routes dry_run) =
            ?shown @ snd (apply_dns api td existing ?acts)"
          using True changes real
          by (auto simp: sync_dns_records_def Inr p Let_def split_beta)
        then show ?thesis
          using sh apply_event_apply [of api td existing ?acts]
        proof (rule shapeI)
          show "dry_run \<longrightarrow> snd (apply_dns api td existing ?acts) = []" using real by simp
        qed
      qed
    qed
  qed
qed

lemma sync_dns_records_shapeE:
  obtains A B where
    "snd (sync_dns_records manage_dns iter api td response routes dry_run) = A @ B"
    "list_all (\<lambda>e. \<not> is_call e \<and> \<not> is_route_plan e) A"
    "list_all is_dns_apply_event B"
    "dry_run \<longrightarrow> B = []"
  using sync_dns_records_shape [of manage_dns iter api td response routes dry_run]
  by (elim exE conjE) (rule that)

lemma filter_empty_list_all: "list_all (\<lambda>e. \<not> P e) xs \<Longrightarrow> filter P xs = []"
  by (simp add: list_all_iff filter_empty_conv)

lemma not_call_class: "\<not> is_call e \<Longrightarrow> \<not> is_tunnel_call e \<and> \<not> is_dns_call e"
  by (cases e) simp_all

lemma sync_dns_no_route_plan:
  "filter is_route_plan (snd (sync_dns_records manage_dns iter api td response routes dry_run)) = []"
proof -
  obtain A B where s: "snd (sync_dns_records manage_dns iter api td response routes dry_run) = A @ B"
    and a: "list_all (\<lambda>e. \<not> is_call e \<and> \<not> is_route_plan e) A"
    and b: "list_all is_dns_apply_event B"
    and d: "dry_run \<longrightarrow> B = []"
    by (rule sync_dns_records_shapeE)
  have "list_all (\<lambda>e. \<not> is_route_plan e) A"
    using a by (rule list.pred_mono_strong) simp
  moreover have "list_all (\<lambda>e. \<not> is_route_plan e) B"
    using b by (rule list.pred_mono_strong) (simp add: apply_event_class)
  ultimately show ?thesis by (simp add: s filter_empty_list_all)
qed

lemma sync_dns_no_tunnel_call:
  "filter is_tunnel_call (snd (sync_dns_records manage_dns iter api td response routes dry_run)) = []"
proof -
  obtain A B where s: "snd (sync_dns_records manage_dns iter api td response routes dry_run) = A @ B"
    and a: "list_all (\<lambda>e. \<not> is_call e \<and> \<not> is_route_plan e) A"
    and b: "list_all is_dns_apply_event B"
    and d: "dry_run \<longrightarrow> B = []"
    by (rule sync_dns_records_shapeE)
  have "list_all (\<lambda>e. \<not> is_tunnel_call e) A"
    using a by (rule list.pred_mono_strong) (simp add: not_call_class)
  moreover have "list_all (\<lambda>e. \<not> is_tunnel_call e) B"
    using b by (rule list.pred_mono_strong) (simp add: apply_event_class)
  ultimately show ?thesis by (simp add: s filter_empty_list_all)
qed

lemma sync_dns_dry_no_call:
  "filter is_call (snd (sync_dns_records manage_dns iter api td response routes True)) = []"
proof -
  obtain A B where s: "snd (sync_dns_records manage_dns iter api td response routes True) = A @ B"
    and a: "list_all (\<lambda>e. \<not> is_call e \<and> \<not> is_route_plan e) A"
    and b: "list_all is_dns_apply_event B"
    and d: "True \<longrightarrow> B = []"
    by (rule sync_dns_records_shapeE)
  have "list_all (\<lambda>e. \<not> is_call e) A"
    using a by (rule list.pred_mono_strong) simp
  then show ?thesis using d by (simp add: s filter_empty_list_all)
qed

lemma no_plan_after_call:
  assumes "list_all (\<lambda>e. \<not> C e) X" and "list_all (\<lambda>e. \<not> P e) Y"
  shows "filter P (dropWhile (\<lambda>e. \<not> C e) (X @ Y)) = []"
proof -
  have "dropWhile (\<lambda>e. \<not> C e) (X @ Y) = dropWhile (\<lambda>e. \<not> C e) Y"
    using assms(1) by (simp add: list_all_iff)
  moreover have "\<not> P e" if "e \<in> set (dropWhile (\<lambda>e. \<not> C e) Y)" for e
    using set_dropWhileD [OF that] assms(2) by (simp add: list_all_iff)
  ultimately show ?thesis by (simp add: filter_empty_conv)
qed

lemma sync_dns_plan_before_calls:
  "filter (\<lambda>e. is_route_plan e \<or> is_dns_plan e)
     (dropWhile (\<lambda>e. \<not> is_dns_call e)
        (X @ snd (sync_dns_records manage_dns iter api td response routes dry_run))) = []"
  if x: "list_all (\<lambda>e. \<not> is_dns_call e) X"
proof -
  obtain A B where s: "snd (sync_dns_records manage_dns iter api td response routes dry_run) = A @ B"
    and a: "list_all (\<lambda>e. \<not> is_call e \<and> \<not> is_route_plan e) A"
    and b: "list_all is_dns_apply_event B"
    and d: "dry_run \<longrightarrow> B = []"
    by (rule sync_dns_records_shapeE)
  have "list_all (\<lambda>e. \<not> is_dns_call e) A"
    using a by (rule list.pred_mono_strong) (simp add: not_call_class)
  with x have xa: "list_all (\<lambda>e. \<not> is_dns_call e) (X @ A)" by simp
  have pb: "list_all (\<lambda>e. \<not> (is_route_plan e \<or> is_dns_plan e)) B"
    using b by (rule list.pred_mono_strong) (simp add: apply_event_class)
  have "filter (\<lambda>e. is_route_plan e \<or> is_dns_plan e)
      (dropWhile (\<lambda>e. \<not> is_dns_call e) ((X @ A) @ B)) = []"
    using xa pb by (rule no_plan_after_call)
  then show ?thesis by (simp add: s)
qed

lemma route_report_class:
  "list_all (\<lambda>e. \<not> is_call e \<and> \<not> is_dns_plan e) (route_report actions)"
  "filter is_route_plan (route_report actions) = route_report actions"
  by (simp_all add: route_report_def)

lemma shown_routes_class:
  "list_all (\<lambda>e. \<not> is_call e \<and> \<not> is_dns_plan e) (shown_routes iter L R)"
  "filter is_route_plan (shown_routes iter L R) = route_report (compare_routes iter L R)"
  using route_report_class [of "compare_routes iter L R"] by simp_all

lemma sync_unfold:
  "sync manage_dns iter api td response L R dry_run =
     (if \<not> has_changes (compare_routes iter L R)
      then (fst (sync_dns_records manage_dns iter api td response L dry_run),
            shown_routes iter L R @ [Print AlreadyInSync] @
            snd (sync_dns_records manage_dns iter api td response L dry_run))
      else if dry_run
      then (fst (sync_dns_records manage_dns iter api td response L dry_run),
            shown_routes iter L R @ [Print DryRunNotice] @
            snd (sync_dns_records manage_dns iter api td response L dry_run))
      else (case api (UpdateTunnelConfiguration (build_cloudflare_config L)) of
              None \<Rightarrow>
                (fst (sync_dns_records manage_dns iter api td response L dry_run),
                 shown_routes iter L R @
                 [Print ApplyingChanges, Call (UpdateTunnelConfiguration (build_cloudflare_config L)),
                  Print UpdateSucceeded] @
                 snd (sync_dns_records manage_dns iter api td response L dry_run))
            | Some HTTPError \<Rightarrow>
                (SysExit 1,
                 shown_routes iter L R @
                 [Print ApplyingChanges, Call (UpdateTunnelConfiguration (build_cloudflare_config L)),
                  Print UpdateFailed])
            | Some ConnectionError \<Rightarrow>
                (Raised ConnectionError,
                 shown_routes iter L R @
                 [Print ApplyingChanges,
                  Call (UpdateTunnelConfiguration (build_cloudflare_config L))])))"
  by (simp add: sync_def Let_def split_beta split: option.splits request_exception.splits)

lemma sync_dns_plan_explicit:
  "filter is_dns_plan (snd (sync_dns_records manage_dns iter api td response routes dry_run)) =
     (if manage_dns
      then (case get_existing_dns_records response of
              Inl e \<Rightarrow> []
            | Inr (w, existing) \<Rightarrow> dns_report (dns_actions iter td existing routes))
      else [])"
proof (cases "get_existing_dns_records response")
  case (Inl e)
  then show ?thesis by (simp add: sync_dns_records_def)
next
  case (Inr p)
  obtain w existing where p: "p = (w, existing)" by (cases p)
  let ?acts = "dns_actions iter td existing routes"
  have "list_all (\<lambda>e. \<not> is_dns_plan e) w"
    using warning_class [of response w existing] Inr p
    by (simp add: list_all_iff)
  then have w: "filter is_dns_plan w = []" by (rule filter_empty_list_all)
  have r: "filter is_dns_plan (dns_report ?acts) = dns_report ?acts"
    by (simp add: dns_report_def)
  have "list_all (\<lambda>e. \<not> is_dns_plan e) (snd (apply_dns api td existing ?acts))"
    using apply_event_apply [of api td existing ?acts]
    by (rule list.pred_mono_strong) (simp add: apply_event_class)
  then have a: "filter is_dns_plan (snd (apply_dns api td existing ?acts)) = []"
    by (rule filter_empty_list_all)
  show ?thesis
    by (simp add: sync_dns_records_def Inr p Let_def split_beta w r a)
qed

lemma list_all_not_filter: "filter P xs = [] \<Longrightarrow> list_all (\<lambda>e. \<not> P e) xs"
  by (simp add: list_all_iff filter_empty_conv)

lemma shown_routes_no_call: "filter is_call (shown_routes iter L R) = []"
  using shown_routes_class(1) [where iter = iter and L = L and R = R]
  by (simp add: filter_empty_conv list_all_iff)

lemma shown_routes_no_dns_plan: "filter is_dns_plan (shown_routes iter L R) = []"
  using shown_routes_class(1) [where iter = iter and L = L and R = R]
  by (simp add: filter_empty_conv list_all_iff)

lemma shown_routes_no_tunnel_call: "filter is_tunnel_call (shown_routes iter L R) = []"
proof -
  have "list_all (\<lambda>e. \<not> is_tunnel_call e) (shown_routes iter L R)"
    using shown_routes_class(1) [where iter = iter and L = L and R = R]
    by (rule list.pred_mono_strong) (simp add: not_call_class)
  then show ?thesis by (rule filter_empty_list_all)
qed

lemma shown_routes_no_dns_call: "list_all (\<lambda>e. \<not> is_dns_call e) (shown_routes iter L R)"
  using shown_routes_class(1) [where iter = iter and L = L and R = R]
  by (rule list.pred_mono_strong) (simp add: not_call_class)

lemma find_append_none: "filter P xs = [] \<Longrightarrow> find P (xs @ ys) = find P ys"
  by (induction xs) (auto split: if_splits)

lemma build_cloudflare_config_rules:
  "ingress (build_cloudflare_config L) = map to_dict L @ [catch_all]"
  "last (ingress (build_cloudflare_config L)) =
     \<lparr>rule_hostname = None, rule_service = ''http_status:404'', rule_originRequest = None\<rparr>"
  "map rule_hostname (butlast (ingress (build_cloudflare_config L))) =
     map (\<lambda>r. Some (hostname r)) L"
  "map rule_service (butlast (ingress (build_cloudflare_config L))) = map service L"
  "map rule_originRequest (butlast (ingress (build_cloudflare_config L))) =
     map (\<lambda>r. map_option model_dump (originRequest r)) L"
  by (auto simp: build_cloudflare_config_def catch_all_def to_dict_def butlast_append
      split: option.splits)

lemma route_report_no_tunnel_call: "filter is_tunnel_call (route_report actions) = []"
  by (simp add: route_report_def)

text \<open>
  Claim C8. When the route action set has changes and the run is not a dry run, the run
  makes exactly one update of the tunnel configuration, before any other mutating call, and
  the document it sends is built from the whole desired list: one ingress rule per desired
  route, in the order of the list, each with its hostname, followed by the catch-all rule
  \<open>{"service": "http_status:404"}\<close> as the last rule.
\<close>

theorem sync_pushes_whole_document:
  assumes "has_changes (compare_routes iter L R)" and "\<not> dry_run"
  shows "filter is_tunnel_call (snd (sync manage_dns iter api td response L R dry_run)) =
           [Call (UpdateTunnelConfiguration (build_cloudflare_config L))] \<and>
         find is_call (snd (sync manage_dns iter api td response L R dry_run)) =
           Some (Call (UpdateTunnelConfiguration (build_cloudflare_config L))) \<and>
         ingress (build_cloudflare_config L) = map to_dict L @ [catch_all] \<and>
         last (ingress (build_cloudflare_config L)) =
           \<lparr>rule_hostname = None, rule_service = ''http_status:404'', rule_originRequest = None\<rparr> \<and>
         map rule_hostname (butlast (ingress (build_cloudflare_config L))) =
           map (\<lambda>r. Some (hostname r)) L \<and>
         map rule_service (butlast (ingress (build_cloudflare_config L))) = map service L \<and>
         map rule_originRequest (butlast (ingress (build_cloudflare_config L))) =
           map (\<lambda>r. map_option model_dump (originRequest r)) L"
proof -
  let ?c = "UpdateTunnelConfiguration (build_cloudflare_config L)"
  let ?D = "sync_dns_records manage_dns iter api td response L dry_run"
  let ?t = "snd (sync manage_dns iter api td response L R dry_run)"
  have t: "?t = shown_routes iter L R @ Print ApplyingChanges # Call ?c #
      (case api ?c of None \<Rightarrow> Print UpdateSucceeded # snd ?D
       | Some HTTPError \<Rightarrow> [Print UpdateFailed] | Some ConnectionError \<Rightarrow> [])"
    using assms by (simp add: sync_unfold split: option.splits request_exception.splits)
  have rest: "filter is_tunnel_call
      (case api ?c of None \<Rightarrow> Print UpdateSucceeded # snd ?D
       | Some HTTPError \<Rightarrow> [Print UpdateFailed] | Some ConnectionError \<Rightarrow> []) = []"
    by (simp add: sync_dns_no_tunnel_call split: option.splits request_exception.splits)
  have a: "filter is_tunnel_call ?t = [Call ?c]"
    unfolding t by (simp add: route_report_no_tunnel_call rest)
  have "find is_call ?t = find is_call (Print ApplyingChanges # Call ?c #
      (case api ?c of None \<Rightarrow> Print UpdateSucceeded # snd ?D
       | Some HTTPError \<Rightarrow> [Print UpdateFailed] | Some ConnectionError \<Rightarrow> []))"
    unfolding t using shown_routes_no_call by (rule find_append_none)
  then have b: "find is_call ?t = Some (Call ?c)" by simp
  show ?thesis using a b build_cloudflare_config_rules [of L] by blast
qed

theorem sync_pushes_whole_document_witness:
  "has_changes (compare_routes sorted_iter [ex_a] []) \<and>
   filter is_tunnel_call (snd (sync True sorted_iter api_ok ex_td (Inr []) [ex_a] [] False)) =
     [Call (UpdateTunnelConfiguration
        \<lparr>ingress =
           [\<lparr>rule_hostname = Some ''a.example.com'', rule_service = ''http://10.0.0.1:8080'',
              rule_originRequest = None\<rparr>,
            \<lparr>rule_hostname = None, rule_service = ''http_status:404'',
              rule_originRequest = None\<rparr>]\<rparr>)]"
proof -
  have h1: "has_changes (compare_routes sorted_iter [ex_a] [])" by code_simp
  have h2: "\<not> False" by simp
  note t = sync_pushes_whole_document [OF h1 h2, of True api_ok ex_td "Inr []"]
  have cfg: "build_cloudflare_config [ex_a] =
      \<lparr>ingress =
           [\<lparr>rule_hostname = Some ''a.example.com'', rule_service = ''http://10.0.0.1:8080'',
              rule_originRequest = None\<rparr>,
            \<lparr>rule_hostname = None, rule_service = ''http_status:404'',
              rule_originRequest = None\<rparr>]\<rparr>"
    by (simp add: build_cloudflare_config_def to_dict_def catch_all_def ex_a_def)
  show ?thesis using h1 t [THEN conjunct1] by (simp only: cfg simp_thms)
qed

section \<open>The calls of the DNS application\<close>

lemma create_calls_prefix:
  "prefix (filter is_call (snd (apply_dns_create api td hs)))
     (map (\<lambda>h. Call (CreateDnsRecord (tunnel_cname td h))) hs)"
  by (induction hs) (simp_all add: Let_def split_beta split: option.splits)

lemma create_calls_all:
  "fst (apply_dns_create api td hs) = None \<Longrightarrow>
     filter is_call (snd (apply_dns_create api td hs)) =
     map (\<lambda>h. Call (CreateDnsRecord (tunnel_cname td h))) hs"
  by (induction hs) (auto simp: Let_def split_beta split: option.splits if_splits)

lemma update_calls_prefix:
  "prefix (filter is_call (snd (apply_dns_update api td existing hs)))
     (map (\<lambda>h. Call (UpdateDnsRecord (the (dns_id (getitem existing h))) (tunnel_cname td h)))
        (filter (\<lambda>h. truthy (dns_id (getitem existing h))) hs))"
  by (induction hs) (simp_all add: Let_def split_beta split: option.splits)

lemma update_calls_all:
  "fst (apply_dns_update api td existing hs) = None \<Longrightarrow>
     filter is_call (snd (apply_dns_update api td existing hs)) =
     map (\<lambda>h. Call (UpdateDnsRecord (the (dns_id (getitem existing h))) (tunnel_cname td h)))
        (filter (\<lambda>h. truthy (dns_id (getitem existing h))) hs)"
  by (induction hs) (auto simp: Let_def split_beta split: option.splits if_splits)

lemma delete_calls_prefix:
  "prefix (filter is_call (snd (apply_dns_delete api existing hs)))
     (map (\<lambda>h. Call (DeleteDnsRecord (the (dns_id (getitem existing h)))))
        (filter (\<lambda>h. truthy (dns_id (getitem existing h))) hs))"
  by (induction hs) (simp_all add: Let_def split_beta split: option.splits)

lemma delete_calls_all:
  "fst (apply_dns_delete api existing hs) = None \<Longrightarrow>
     filter is_call (snd (apply_dns_delete api existing hs)) =
     map (\<lambda>h. Call (DeleteDnsRecord (the (dns_id (getitem existing h)))))
        (filter (\<lambda>h. truthy (dns_id (getitem existing h))) hs)"
  by (induction hs) (auto simp: Let_def split_beta split: option.splits if_splits)

lemma try_calls:
  fixes api td existing acts
  defines "C \<equiv> map (\<lambda>h. Call (CreateDnsRecord (tunnel_cname td h))) (dns_create acts)"
    and "U \<equiv> map (\<lambda>h. Call (UpdateDnsRecord (the (dns_id (getitem existing h)))
                               (tunnel_cname td h)))
               (filter (\<lambda>h. truthy (dns_id (getitem existing h))) (dns_update acts))"
    and "D \<equiv> map (\<lambda>h. Call (DeleteDnsRecord (the (dns_id (getitem existing h)))))
               (filter (\<lambda>h. truthy (dns_id (getitem existing h))) (dns_delete acts))"
  shows "prefix (filter is_call (snd (apply_dns_try api td existing acts))) (C @ U @ D)"
    and "fst (apply_dns_try api td existing acts) = None \<Longrightarrow>
         filter is_call (snd (apply_dns_try api td existing acts)) = C @ U @ D"
proof -
  obtain r1 e1 where c: "apply_dns_create api td (dns_create acts) = (r1, e1)" by force
  obtain r2 e2 where u: "apply_dns_update api td existing (dns_update acts) = (r2, e2)" by force
  obtain r3 e3 where d: "apply_dns_delete api existing (dns_delete acts) = (r3, e3)" by force
  have pc: "prefix (filter is_call e1) C"
    using create_calls_prefix [of api td "dns_create acts"] by (simp add: c C_def)
  have pu: "prefix (filter is_call e2) U"
    using update_calls_prefix [of api td existing "dns_update acts"] by (simp add: u U_def)
  have pd: "prefix (filter is_call e3) D"
    using delete_calls_prefix [of api existing "dns_delete acts"] by (simp add: d D_def)
  have ac: "r1 = None \<Longrightarrow> filter is_call e1 = C"
    using create_calls_all [of api td "dns_create acts"] by (simp add: c C_def)
  have au: "r2 = None \<Longrightarrow> filter is_call e2 = U"
    using update_calls_all [of api td existing "dns_update acts"] by (simp add: u U_def)
  have ad: "r3 = None \<Longrightarrow> filter is_call e3 = D"
    using delete_calls_all [of api existing "dns_delete acts"] by (simp add: d D_def)
  show "prefix (filter is_call (snd (apply_dns_try api td existing acts))) (C @ U @ D)"
  proof (cases r1)
    case (Some e)
    then have "snd (apply_dns_try api td existing acts) = e1"
      by (simp add: apply_dns_try_def c)
    then show ?thesis using pc by simp
  next
    case None
    note n1 = None
    show ?thesis
    proof (cases r2)
      case (Some e)
      then have "snd (apply_dns_try api td existing acts) = e1 @ e2"
        by (simp add: apply_dns_try_def c u n1)
      moreover have "prefix (C @ filter is_call e2) (C @ U @ D)"
        using pu by simp
      ultimately show ?thesis using ac [OF n1] by simp
    next
      case None
      note n2 = None
      have "filter is_call (snd (apply_dns_try api td existing acts)) =
          C @ U @ filter is_call e3"
        using ac [OF n1] au [OF n2]
        by (cases r3) (simp_all add: apply_dns_try_def c u d n1 n2)
      then show ?thesis using pd by simp
    qed
  qed
  show "filter is_call (snd (apply_dns_try api td existing acts)) = C @ U @ D"
    if "fst (apply_dns_try api td existing acts) = None"
  proof -
    from that have n: "r1 = None" "r2 = None" "r3 = None"
      by (auto simp: apply_dns_try_def c u d split: option.splits)
    then show ?thesis
      using ac au ad by (simp add: apply_dns_try_def c u d)
  qed
qed

lemma apply_dns_calls:
  "filter is_call (snd (apply_dns api td existing acts)) =
     filter is_call (snd (apply_dns_try api td existing acts))"
  "fst (apply_dns api td existing acts) = Returned \<longleftrightarrow>
     fst (apply_dns_try api td existing acts) = None"
  by (auto simp: apply_dns_def split_beta split: option.splits request_exception.splits)

lemma find_append_case:
  "find Q (xs @ ys) = (case find Q xs of None \<Rightarrow> find Q ys | Some x \<Rightarrow> Some x)"
  by (induction xs) auto

lemma take_stop_append_ok:
  "find (\<lambda>c. api c \<noteq> None) xs = None \<Longrightarrow>
     take (Suc (length (takeWhile (\<lambda>c. api c = None) (xs @ ys)))) (xs @ ys) =
     xs @ take (Suc (length (takeWhile (\<lambda>c. api c = None) ys))) ys"
  by (induction xs) (auto split: if_splits)

lemma take_stop_append_fail:
  "find (\<lambda>c. api c \<noteq> None) xs = Some x \<Longrightarrow>
     take (Suc (length (takeWhile (\<lambda>c. api c = None) (xs @ ys)))) (xs @ ys) =
     take (Suc (length (takeWhile (\<lambda>c. api c = None) xs))) xs"
  by (induction xs) (auto split: if_splits)

lemma find_fail_Some: "find (\<lambda>c. api c \<noteq> None) xs = Some x \<Longrightarrow> api x \<noteq> None"
  by (induction xs) (auto split: if_splits)

lemma create_run:
  "fst (apply_dns_create api td hs) =
     (case find (\<lambda>c. api c \<noteq> None) (map (\<lambda>h. CreateDnsRecord (tunnel_cname td h)) hs) of
        None \<Rightarrow> None | Some c \<Rightarrow> api c)"
  "filter is_call (snd (apply_dns_create api td hs)) =
     map Call (take (Suc (length (takeWhile (\<lambda>c. api c = None)
                  (map (\<lambda>h. CreateDnsRecord (tunnel_cname td h)) hs))))
        (map (\<lambda>h. CreateDnsRecord (tunnel_cname td h)) hs))"
  by (induction hs) (auto simp: Let_def split_beta split: option.splits)

lemma update_run:
  "fst (apply_dns_update api td existing hs) =
     (case find (\<lambda>c. api c \<noteq> None)
             (map (\<lambda>h. UpdateDnsRecord (the (dns_id (getitem existing h))) (tunnel_cname td h))
                (filter (\<lambda>h. truthy (dns_id (getitem existing h))) hs)) of
        None \<Rightarrow> None | Some c \<Rightarrow> api c)"
  "filter is_call (snd (apply_dns_update api td existing hs)) =
     map Call (take (Suc (length (takeWhile (\<lambda>c. api c = None)
                  (map (\<lambda>h. UpdateDnsRecord (the (dns_id (getitem existing h))) (tunnel_cname td h))
                     (filter (\<lambda>h. truthy (dns_id (getitem existing h))) hs)))))
        (map (\<lambda>h. UpdateDnsRecord (the (dns_id (getitem existing h))) (tunnel_cname td h))
           (filter (\<lambda>h. truthy (dns_id (getitem existing h))) hs)))"
  by (induction hs) (auto simp: Let_def split_beta split: option.splits)

lemma delete_run:
  "fst (apply_dns_delete api existing hs) =
     (case find (\<lambda>c. api c \<noteq> None)
             (map (\<lambda>h. DeleteDnsRecord (the (dns_id (getitem existing h))))
                (filter (\<lambda>h. truthy (dns_id (getitem existing h))) hs)) of
        None \<Rightarrow> None | Some c \<Rightarrow> api c)"
  "filter is_call (snd (apply_dns_delete api existing hs)) =
     map Call (take (Suc (length (takeWhile (\<lambda>c. api c = None)
                  (map (\<lambda>h. DeleteDnsRecord (the (dns_id (getitem existing h))))
                     (filter (\<lambda>h. truthy (dns_id (getitem existing h))) hs)))))
        (map (\<lambda>h. DeleteDnsRecord (the (dns_id (getitem existing h))))
           (filter (\<lambda>h. truthy (dns_id (getitem existing h))) hs)))"
  by (induction hs) (auto simp: Let_def split_beta split: option.splits)

lemma try_run:
  "fst (apply_dns_try api td existing acts) =
     (case find (\<lambda>c. api c \<noteq> None)
             (map (\<lambda>h. CreateDnsRecord (tunnel_cname td h)) (dns_create acts) @
              map (\<lambda>h. UpdateDnsRecord (the (dns_id (getitem existing h))) (tunnel_cname td h))
                (filter (\<lambda>h. truthy (dns_id (getitem existing h))) (dns_update acts)) @
              map (\<lambda>h. DeleteDnsRecord (the (dns_id (getitem existing h))))
                (filter (\<lambda>h. truthy (dns_id (getitem existing h))) (dns_delete acts))) of
        None \<Rightarrow> None | Some c \<Rightarrow> api c)"
  "filter is_call (snd (apply_dns_try api td existing acts)) =
     map Call (take (Suc (length (takeWhile (\<lambda>c. api c = None)
             (map (\<lambda>h. CreateDnsRecord (tunnel_cname td h)) (dns_create acts) @
              map (\<lambda>h. UpdateDnsRecord (the (dns_id (getitem existing h))) (tunnel_cname td h))
                (filter (\<lambda>h. truthy (dns_id (getitem existing h))) (dns_update acts)) @
              map (\<lambda>h. DeleteDnsRecord (the (dns_id (getitem existing h))))
                (filter (\<lambda>h. truthy (dns_id (getitem existing h))) (dns_delete acts))))))
        (map (\<lambda>h. CreateDnsRecord (tunnel_cname td h)) (dns_create acts) @
         map (\<lambda>h. UpdateDnsRecord (the (dns_id (getitem existing h))) (tunnel_cname td h))
           (filter (\<lambda>h. truthy (dns_id (getitem existing h))) (dns_update acts)) @
         map (\<lambda>h. DeleteDnsRecord (the (dns_id (getitem existing h))))
           (filter (\<lambda>h. truthy (dns_id (getitem existing h))) (dns_delete acts))))"
proof -
  let ?C = "map (\<lambda>h. CreateDnsRecord (tunnel_cname td h)) (dns_create acts)"
  let ?U = "map (\<lambda>h. UpdateDnsRecord (the (dns_id (getitem existing h))) (tunnel_cname td h))
                (filter (\<lambda>h. truthy (dns_id (getitem existing h))) (dns_update acts))"
  let ?D = "map (\<lambda>h. DeleteDnsRecord (the (dns_id (getitem existing h))))
                (filter (\<lambda>h. truthy (dns_id (getitem existing h))) (dns_delete acts))"
  let ?stop = "\<lambda>xs. take (Suc (length (takeWhile (\<lambda>c. api c = None) xs))) xs"
  let ?bad = "\<lambda>xs. find (\<lambda>c. api c \<noteq> None) xs"
  obtain r1 e1 where c: "apply_dns_create api td (dns_create acts) = (r1, e1)" by force
  obtain r2 e2 where u: "apply_dns_update api td existing (dns_update acts) = (r2, e2)" by force
  obtain r3 e3 where d: "apply_dns_delete api existing (dns_delete acts) = (r3, e3)" by force
  have c1: "r1 = (case ?bad ?C of None \<Rightarrow> None | Some c \<Rightarrow> api c)"
    using create_run(1) [of api td "dns_create acts"] by (simp add: c)
  have c2: "filter is_call e1 = map Call (?stop ?C)"
    using create_run(2) [of api td "dns_create acts"] by (simp add: c)
  have u1: "r2 = (case ?bad ?U of None \<Rightarrow> None | Some c \<Rightarrow> api c)"
    using update_run(1) [of api td existing "dns_update acts"] by (simp add: u)
  have u2: "filter is_call e2 = map Call (?stop ?U)"
    using update_run(2) [of api td existing "dns_update acts"] by (simp add: u)
  have d1: "r3 = (case ?bad ?D of None \<Rightarrow> None | Some c \<Rightarrow> api c)"
    using delete_run(1) [of api existing "dns_delete acts"] by (simp add: d)
  have d2: "filter is_call e3 = map Call (?stop ?D)"
    using delete_run(2) [of api existing "dns_delete acts"] by (simp add: d)
  have both: "fst (apply_dns_try api td existing acts) =
       (case ?bad (?C @ ?U @ ?D) of None \<Rightarrow> None | Some c \<Rightarrow> api c) \<and>
     filter is_call (snd (apply_dns_try api td existing acts)) = map Call (?stop (?C @ ?U @ ?D))"
  proof (cases "?bad ?C")
    case (Some x)
    then obtain e where e: "api x = Some e" using find_fail_Some [of api ?C x] by auto
    have r1: "r1 = Some e" using c1 Some e by simp
    have "?stop (?C @ ?U @ ?D) = ?stop ?C" using Some by (rule take_stop_append_fail)
    moreover have "?bad (?C @ ?U @ ?D) = Some x" using Some by (simp add: find_append_case)
    ultimately show ?thesis using r1 c2 e by (simp add: apply_dns_try_def c)
  next
    case None
    note nc = None
    have r1: "r1 = None" using c1 None by simp
    have sc: "?stop (?C @ ?U @ ?D) = ?C @ ?stop (?U @ ?D)"
      using nc by (rule take_stop_append_ok)
    have bc: "?bad (?C @ ?U @ ?D) = ?bad (?U @ ?D)" using nc by (simp add: find_append_case)
    have ec: "filter is_call e1 = map Call ?C"
      using c2 take_stop_append_ok [OF nc, of "[]"] by simp
    show ?thesis
    proof (cases "?bad ?U")
      case (Some x)
      then obtain e where e: "api x = Some e" using find_fail_Some [of api ?U x] by auto
      have r2: "r2 = Some e" using u1 Some e by simp
      have "?stop (?U @ ?D) = ?stop ?U" using Some by (rule take_stop_append_fail)
      moreover have "?bad (?U @ ?D) = Some x" using Some by (simp add: find_append_case)
      ultimately show ?thesis
        unfolding sc bc using r1 r2 ec u2 e by (simp add: apply_dns_try_def c u)
    next
      case None
      note nu = None
      have r2: "r2 = None" using u1 None by simp
      have su: "?stop (?U @ ?D) = ?U @ ?stop ?D" using nu by (rule take_stop_append_ok)
      have bu: "?bad (?U @ ?D) = ?bad ?D" using nu by (simp add: find_append_case)
      have eu: "filter is_call e2 = map Call ?U"
        using u2 take_stop_append_ok [OF nu, of "[]"] by simp
      have t: "apply_dns_try api td existing acts =
          (r3, e1 @ e2 @ e3 @ (if r3 = None then [Print DnsSynchronized] else []))"
        using r1 r2 by (cases r3) (simp_all add: apply_dns_try_def c u d)
      have "filter is_call (snd (apply_dns_try api td existing acts)) =
          map Call ?C @ map Call ?U @ map Call (?stop ?D)"
        unfolding t using ec eu d2 by simp
      moreover have "fst (apply_dns_try api td existing acts) =
          (case ?bad ?D of None \<Rightarrow> None | Some c \<Rightarrow> api c)"
        unfolding t using d1 by simp
      ultimately show ?thesis
        unfolding sc bc su bu by (simp only: map_append simp_thms)
    qed
  qed
  show "fst (apply_dns_try api td existing acts) =
       (case ?bad (?C @ ?U @ ?D) of None \<Rightarrow> None | Some c \<Rightarrow> api c)"
    using both by (rule conjunct1)
  show "filter is_call (snd (apply_dns_try api td existing acts)) = map Call (?stop (?C @ ?U @ ?D))"
    using both by (rule conjunct2)
qed

lemma apply_dns_outcome:
  "fst (apply_dns api td existing acts) =
     (case fst (apply_dns_try api td existing acts) of
        None \<Rightarrow> Returned | Some HTTPError \<Rightarrow> SysExit 1 | Some ConnectionError \<Rightarrow> Raised ConnectionError)"
  by (simp add: apply_dns_def split_beta split: option.splits request_exception.splits)

section \<open>Dry run and real run\<close>

lemma route_report_no_dns_call: "list_all (\<lambda>e. \<not> is_dns_call e) (route_report actions)"
  by (simp add: route_report_def)

lemma route_report_no_dns_plan: "filter is_dns_plan (route_report actions) = []"
  by (simp add: route_report_def)

lemma route_report_no_call: "filter is_call (route_report actions) = []"
  by (simp add: route_report_def)

lemma sync_route_plan:
  "filter is_route_plan (snd (sync manage_dns iter api td response L R dry_run)) =
     route_report (compare_routes iter L R)"
  by (simp add: sync_unfold route_report_class(2) sync_dns_no_route_plan
      split: option.splits request_exception.splits)

lemma sync_dns_plan:
  assumes "\<not> has_changes (compare_routes iter L R) \<or> dry_run \<or>
           api (UpdateTunnelConfiguration (build_cloudflare_config L)) = None"
  shows "filter is_dns_plan (snd (sync manage_dns iter api td response L R dry_run)) =
     filter is_dns_plan (snd (sync_dns_records manage_dns iter api td response L dry_run))"
  using assms by (auto simp: sync_unfold route_report_no_dns_plan)

lemma sync_dry_no_call:
  "filter is_call (snd (sync manage_dns iter api td response L R True)) = []"
  by (simp add: sync_unfold route_report_no_call sync_dns_dry_no_call)

lemma sync_route_plan_before_call:
  "filter is_route_plan
     (dropWhile (\<lambda>e. \<not> is_tunnel_call e)
        (snd (sync manage_dns iter api td response L R dry_run))) = []"
proof -
  let ?D = "snd (sync_dns_records manage_dns iter api td response L dry_run)"
  let ?c = "UpdateTunnelConfiguration (build_cloudflare_config L)"
  let ?t = "snd (sync manage_dns iter api td response L R dry_run)"
  have nt: "list_all (\<lambda>e. \<not> is_tunnel_call e) (shown_routes iter L R)"
    using shown_routes_no_tunnel_call by (rule list_all_not_filter)
  have dt: "list_all (\<lambda>e. \<not> is_tunnel_call e) ?D"
    using sync_dns_no_tunnel_call by (rule list_all_not_filter)
  have dr: "list_all (\<lambda>e. \<not> is_route_plan e) ?D"
    using sync_dns_no_route_plan by (rule list_all_not_filter)
  consider (quiet) m where "?t = (shown_routes iter L R @ [Print m] @ ?D) @ []"
    | (push) ys where "?t = (shown_routes iter L R @ [Print ApplyingChanges]) @ Call ?c # ys"
        "list_all (\<lambda>e. \<not> is_route_plan e) ys"
  proof (cases "\<not> has_changes (compare_routes iter L R) \<or> dry_run")
    case True
    then have "?t = (shown_routes iter L R @ [Print AlreadyInSync] @ ?D) @ [] \<or>
        ?t = (shown_routes iter L R @ [Print DryRunNotice] @ ?D) @ []"
      by (auto simp: sync_unfold)
    then show ?thesis using quiet by blast
  next
    case False
    show ?thesis
    proof (cases "api ?c")
      case None
      with False have "?t = (shown_routes iter L R @ [Print ApplyingChanges]) @
          Call ?c # (Print UpdateSucceeded # ?D)"
        by (simp add: sync_unfold)
      moreover have "list_all (\<lambda>e. \<not> is_route_plan e) (Print UpdateSucceeded # ?D)"
        using dr by simp
      ultimately show ?thesis by (rule push)
    next
      case (Some e)
      with False have "?t = (shown_routes iter L R @ [Print ApplyingChanges]) @
          Call ?c # (case e of HTTPError \<Rightarrow> [Print UpdateFailed] | ConnectionError \<Rightarrow> [])"
        by (simp add: sync_unfold split: request_exception.splits)
      moreover have "list_all (\<lambda>e. \<not> is_route_plan e)
          (case e of HTTPError \<Rightarrow> [Print UpdateFailed] | ConnectionError \<Rightarrow> [])"
        by (simp split: request_exception.splits)
      ultimately show ?thesis by (rule push)
    qed
  qed
  then show ?thesis
  proof cases
    case (quiet m)
    have "list_all (\<lambda>e. \<not> is_tunnel_call e) (shown_routes iter L R @ [Print m] @ ?D)"
      using nt dt by simp
    moreover have "list_all (\<lambda>e. \<not> is_route_plan e) []" by simp
    ultimately have "filter is_route_plan (dropWhile (\<lambda>e. \<not> is_tunnel_call e)
        ((shown_routes iter L R @ [Print m] @ ?D) @ [])) = []"
      by (rule no_plan_after_call)
    then show ?thesis by (simp only: quiet)
  next
    case (push ys)
    have "list_all (\<lambda>e. \<not> is_tunnel_call e) (shown_routes iter L R @ [Print ApplyingChanges])"
      using nt by simp
    moreover have "list_all (\<lambda>e. \<not> is_route_plan e) (Call ?c # ys)"
      using push(2) by simp
    ultimately have "filter is_route_plan (dropWhile (\<lambda>e. \<not> is_tunnel_call e)
        ((shown_routes iter L R @ [Print ApplyingChanges]) @ Call ?c # ys)) = []"
      by (rule no_plan_after_call)
    then show ?thesis by (simp only: push(1))
  qed
qed

lemma sync_plan_before_dns_call:
  "filter (\<lambda>e. is_route_plan e \<or> is_dns_plan e)
     (dropWhile (\<lambda>e. \<not> is_dns_call e)
        (snd (sync manage_dns iter api td response L R dry_run))) = []"
proof -
  let ?D = "snd (sync_dns_records manage_dns iter api td response L dry_run)"
  let ?c = "UpdateTunnelConfiguration (build_cloudflare_config L)"
  let ?t = "snd (sync manage_dns iter api td response L R dry_run)"
  note nd = shown_routes_no_dns_call [of L R iter]
  consider (dns) X where "?t = X @ ?D" "list_all (\<lambda>e. \<not> is_dns_call e) X"
    | (stop) X where "?t = X @ []" "list_all (\<lambda>e. \<not> is_dns_call e) X"
  proof (cases "\<not> has_changes (compare_routes iter L R) \<or> dry_run")
    case True
    then have "?t = (shown_routes iter L R @ [Print AlreadyInSync]) @ ?D \<or>
        ?t = (shown_routes iter L R @ [Print DryRunNotice]) @ ?D"
      by (auto simp: sync_unfold)
    moreover have "list_all (\<lambda>e. \<not> is_dns_call e) (shown_routes iter L R @ [Print AlreadyInSync])"
      "list_all (\<lambda>e. \<not> is_dns_call e) (shown_routes iter L R @ [Print DryRunNotice])"
      using nd by simp_all
    ultimately show ?thesis using dns by blast
  next
    case False
    show ?thesis
    proof (cases "api ?c")
      case None
      with False have "?t = (shown_routes iter L R @
          [Print ApplyingChanges, Call ?c, Print UpdateSucceeded]) @ ?D"
        by (simp add: sync_unfold)
      moreover have "list_all (\<lambda>e. \<not> is_dns_call e) (shown_routes iter L R @
          [Print ApplyingChanges, Call ?c, Print UpdateSucceeded])"
        using nd by simp
      ultimately show ?thesis by (rule dns)
    next
      case (Some e)
      with False have "?t = (shown_routes iter L R @ Print ApplyingChanges # Call ?c #
          (case e of HTTPError \<Rightarrow> [Print UpdateFailed] | ConnectionError \<Rightarrow> [])) @ []"
        by (simp add: sync_unfold split: request_exception.splits)
      moreover have "list_all (\<lambda>e. \<not> is_dns_call e) (shown_routes iter L R @
          Print ApplyingChanges # Call ?c #
          (case e of HTTPError \<Rightarrow> [Print UpdateFailed] | ConnectionError \<Rightarrow> []))"
        using nd by (simp split: request_exception.splits)
      ultimately show ?thesis by (rule stop)
    qed
  qed
  then show ?thesis
  proof cases
    case (dns X)
    show ?thesis unfolding dns(1) using dns(2) by (rule sync_dns_plan_before_calls)
  next
    case (stop X)
    have "list_all (\<lambda>e. \<not> (is_route_plan e \<or> is_dns_plan e)) []" by simp
    with stop(2) have "filter (\<lambda>e. is_route_plan e \<or> is_dns_plan e)
        (dropWhile (\<lambda>e. \<not> is_dns_call e) (X @ [])) = []"
      by (rule no_plan_after_call)
    then show ?thesis by (simp only: stop(1))
  qed
qed

lemma route_report_explicit:
  "route_report (compare_routes iter L R) =
     (if create (compare_routes iter L R) \<noteq> []
      then [Print (RoutesToCreate (map (\<lambda>r. (hostname r, service r))
                                      (create (compare_routes iter L R))))] else []) @
     (if update (compare_routes iter L R) \<noteq> []
      then [Print (RoutesToUpdate (map (\<lambda>r. (hostname r, service r))
                                      (update (compare_routes iter L R))))] else []) @
     (if delete (compare_routes iter L R) \<noteq> []
      then [Print (RoutesToDelete (map (\<lambda>r. (hostname r, service r))
                                      (delete (compare_routes iter L R))))] else [])"
  by (simp add: route_report_def route_lines_def)

lemma dns_report_explicit:
  "dns_report (dns_actions iter td existing L) =
        (if dns_create (dns_actions iter td existing L) \<noteq> []
         then [Print (DnsToCreate (dns_create (dns_actions iter td existing L)))] else []) @
        (if dns_update (dns_actions iter td existing L) \<noteq> []
         then [Print (DnsToUpdate (dns_update (dns_actions iter td existing L)))] else []) @
        (if dns_delete (dns_actions iter td existing L) \<noteq> []
         then [Print (DnsToDelete (dns_delete (dns_actions iter td existing L)))] else [])"
  by (simp add: dns_report_def)

lemma sync_tunnel_call:
  "filter is_tunnel_call (snd (sync manage_dns iter api td response L R False)) =
     (if create (compare_routes iter L R) \<noteq> [] \<or> update (compare_routes iter L R) \<noteq> [] \<or>
         delete (compare_routes iter L R) \<noteq> []
      then [Call (UpdateTunnelConfiguration (build_cloudflare_config L))] else [])"
proof (cases "has_changes (compare_routes iter L R)")
  case True
  have rest: "filter is_tunnel_call
      (case api (UpdateTunnelConfiguration (build_cloudflare_config L)) of
         None \<Rightarrow> Print UpdateSucceeded #
                   snd (sync_dns_records manage_dns iter api td response L False)
       | Some HTTPError \<Rightarrow> [Print UpdateFailed] | Some ConnectionError \<Rightarrow> []) = []"
    by (simp add: sync_dns_no_tunnel_call split: option.splits request_exception.splits)
  have "snd (sync manage_dns iter api td response L R False) =
      shown_routes iter L R @ Print ApplyingChanges #
      Call (UpdateTunnelConfiguration (build_cloudflare_config L)) #
      (case api (UpdateTunnelConfiguration (build_cloudflare_config L)) of
         None \<Rightarrow> Print UpdateSucceeded #
                   snd (sync_dns_records manage_dns iter api td response L False)
       | Some HTTPError \<Rightarrow> [Print UpdateFailed] | Some ConnectionError \<Rightarrow> [])"
    using True by (simp add: sync_unfold split: option.splits request_exception.splits)
  then have "filter is_tunnel_call (snd (sync manage_dns iter api td response L R False)) =
      [Call (UpdateTunnelConfiguration (build_cloudflare_config L))]"
    by (simp add: route_report_no_tunnel_call rest)
  then show ?thesis using True by (simp add: has_changes_def)
next
  case False
  then have "snd (sync manage_dns iter api td response L R False) =
      shown_routes iter L R @ [Print AlreadyInSync] @
      snd (sync_dns_records manage_dns iter api td response L False)"
    by (simp add: sync_unfold)
  then have "filter is_tunnel_call (snd (sync manage_dns iter api td response L R False)) = []"
    by (simp add: route_report_no_tunnel_call sync_dns_no_tunnel_call)
  then show ?thesis using False by (simp add: has_changes_def)
qed

lemma sync_dry_dns_plan_explicit:
  assumes "manage_dns" and "get_existing_dns_records response = Inr (w, existing)"
  shows "filter is_dns_plan (snd (sync manage_dns iter api td response L R True)) =
        (if dns_create (dns_actions iter td existing L) \<noteq> []
         then [Print (DnsToCreate (dns_create (dns_actions iter td existing L)))] else []) @
        (if dns_update (dns_actions iter td existing L) \<noteq> []
         then [Print (DnsToUpdate (dns_update (dns_actions iter td existing L)))] else []) @
        (if dns_delete (dns_actions iter td existing L) \<noteq> []
         then [Print (DnsToDelete (dns_delete (dns_actions iter td existing L)))] else [])"
proof -
  have "filter is_dns_plan (snd (sync manage_dns iter api td response L R True)) =
      filter is_dns_plan (snd (sync_dns_records manage_dns iter api td response L True))"
    by (rule sync_dns_plan) simp
  also have "\<dots> = dns_report (dns_actions iter td existing L)"
    using assms by (simp add: sync_dns_plan_explicit)
  finally show ?thesis by (simp only: dns_report_explicit)
qed

lemma sync_real_dns_plan_explicit:
  assumes "manage_dns" and "get_existing_dns_records response = Inr (w, existing)"
    and "\<not> has_changes (compare_routes iter L R) \<or>
       api (UpdateTunnelConfiguration (build_cloudflare_config L)) = None"
  shows "filter is_dns_plan (snd (sync manage_dns iter api td response L R False)) =
        (if dns_create (dns_actions iter td existing L) \<noteq> []
         then [Print (DnsToCreate (dns_create (dns_actions iter td existing L)))] else []) @
        (if dns_update (dns_actions iter td existing L) \<noteq> []
         then [Print (DnsToUpdate (dns_update (dns_actions iter td existing L)))] else []) @
        (if dns_delete (dns_actions iter td existing L) \<noteq> []
         then [Print (DnsToDelete (dns_delete (dns_actions iter td existing L)))] else [])"
proof -
  have "filter is_dns_plan (snd (sync manage_dns iter api td response L R False)) =
      filter is_dns_plan (snd (sync_dns_records manage_dns iter api td response L False))"
  proof (rule sync_dns_plan)
    from assms(3) show "\<not> has_changes (compare_routes iter L R) \<or> False \<or>
        api (UpdateTunnelConfiguration (build_cloudflare_config L)) = None" by simp
  qed
  also have "\<dots> = dns_report (dns_actions iter td existing L)"
    using assms(1,2) by (simp add: sync_dns_plan_explicit)
  finally show ?thesis by (simp only: dns_report_explicit)
qed

lemma apply_event_dns_call: "is_dns_apply_event e \<Longrightarrow> is_dns_call e = is_call e"
  by (induction e rule: is_dns_apply_event.induct) simp_all

lemma apply_events_dns_calls:
  "list_all is_dns_apply_event xs \<Longrightarrow> filter is_dns_call xs = filter is_call xs"
  by (induction xs) (simp_all add: apply_event_dns_call)

lemma sync_dns_records_calls_planned:
  assumes "manage_dns" and "get_existing_dns_records response = Inr (w, existing)"
  shows "prefix (filter is_dns_call (snd (sync_dns_records manage_dns iter api td response L False)))
        (map (\<lambda>h. Call (CreateDnsRecord (tunnel_cname td h)))
           (dns_create (dns_actions iter td existing L)) @
         map (\<lambda>h. Call (UpdateDnsRecord (the (dns_id (getitem existing h))) (tunnel_cname td h)))
           (filter (\<lambda>h. truthy (dns_id (getitem existing h)))
              (dns_update (dns_actions iter td existing L))) @
         map (\<lambda>h. Call (DeleteDnsRecord (the (dns_id (getitem existing h)))))
           (filter (\<lambda>h. truthy (dns_id (getitem existing h)))
              (dns_delete (dns_actions iter td existing L))))"
proof -
  let ?acts = "dns_actions iter td existing L"
  have w: "filter is_dns_call w = []"
  proof (rule filter_empty_list_all)
    have "list_all (\<lambda>e. \<not> is_call e \<and> \<not> is_route_plan e \<and> \<not> is_dns_plan e) w"
      using assms(2) by (rule warning_class)
    then show "list_all (\<lambda>e. \<not> is_dns_call e) w"
      by (rule list.pred_mono_strong) (simp add: not_call_class)
  qed
  have r: "filter is_dns_call (dns_report ?acts) = []"
    by (simp add: dns_report_def)
  have a: "filter is_dns_call (snd (apply_dns api td existing ?acts)) =
      filter is_call (snd (apply_dns api td existing ?acts))"
    using apply_event_apply by (rule apply_events_dns_calls)
  have p: "prefix (filter is_call (snd (apply_dns api td existing ?acts)))
        (map (\<lambda>h. Call (CreateDnsRecord (tunnel_cname td h)))
           (dns_create (dns_actions iter td existing L)) @
         map (\<lambda>h. Call (UpdateDnsRecord (the (dns_id (getitem existing h))) (tunnel_cname td h)))
           (filter (\<lambda>h. truthy (dns_id (getitem existing h)))
              (dns_update (dns_actions iter td existing L))) @
         map (\<lambda>h. Call (DeleteDnsRecord (the (dns_id (getitem existing h)))))
           (filter (\<lambda>h. truthy (dns_id (getitem existing h)))
              (dns_delete (dns_actions iter td existing L))))"
    unfolding apply_dns_calls(1) by (rule try_calls(1))
  show ?thesis
  proof (cases "dns_create ?acts \<noteq> [] \<or> dns_update ?acts \<noteq> [] \<or> dns_delete ?acts \<noteq> []")
    case True
    then have "filter is_dns_call (snd (sync_dns_records manage_dns iter api td response L False)) =
        filter is_call (snd (apply_dns api td existing ?acts))"
      using assms by (auto simp: sync_dns_records_def Let_def split_beta w r a)
    then show ?thesis using p by simp
  next
    case False
    then have "filter is_dns_call (snd (sync_dns_records manage_dns iter api td response L False)) = []"
      using assms by (simp add: sync_dns_records_def Let_def w r)
    then show ?thesis by simp
  qed
qed

lemma sync_dns_calls_planned:
  assumes "manage_dns" and "get_existing_dns_records response = Inr (w, existing)"
  shows "prefix (filter is_dns_call (snd (sync manage_dns iter api td response L R False)))
        (map (\<lambda>h. Call (CreateDnsRecord (tunnel_cname td h)))
           (dns_create (dns_actions iter td existing L)) @
         map (\<lambda>h. Call (UpdateDnsRecord (the (dns_id (getitem existing h))) (tunnel_cname td h)))
           (filter (\<lambda>h. truthy (dns_id (getitem existing h)))
              (dns_update (dns_actions iter td existing L))) @
         map (\<lambda>h. Call (DeleteDnsRecord (the (dns_id (getitem existing h)))))
           (filter (\<lambda>h. truthy (dns_id (getitem existing h)))
              (dns_delete (dns_actions iter td existing L))))"
proof -
  let ?D = "snd (sync_dns_records manage_dns iter api td response L False)"
  have n: "filter is_dns_call (shown_routes iter L R) = []"
    using shown_routes_no_dns_call by (rule filter_empty_list_all)
  have "filter is_dns_call (snd (sync manage_dns iter api td response L R False)) = filter is_dns_call ?D \<or>
      filter is_dns_call (snd (sync manage_dns iter api td response L R False)) = []"
    using n by (simp add: sync_unfold split: option.splits request_exception.splits)
  then show ?thesis
    using sync_dns_records_calls_planned [OF assms, of iter api td L] by auto
qed

lemma sync_dns_off:
  assumes "\<not> manage_dns \<or> get_existing_dns_records response = Inl e"
  shows "filter is_dns_plan (snd (sync manage_dns iter api td response L R dry_run)) = []"
    and "filter is_dns_call (snd (sync manage_dns iter api td response L R dry_run)) = []"
proof -
  let ?D = "snd (sync_dns_records manage_dns iter api td response L dry_run)"
  have "?D = [] \<or> ?D = [Print DnsSynchronizing]"
    using assms by (auto simp: sync_dns_records_def)
  then have d: "filter is_dns_plan ?D = []" "filter is_dns_call ?D = []"
    by auto
  have c: "filter is_dns_call (shown_routes iter L R) = []"
    using shown_routes_no_dns_call by (rule filter_empty_list_all)
  have p: "filter is_dns_plan (shown_routes iter L R) = []"
    by (rule shown_routes_no_dns_plan)
  have "snd (sync manage_dns iter api td response L R dry_run) = shown_routes iter L R @ [Print AlreadyInSync] @ ?D \<or>
      snd (sync manage_dns iter api td response L R dry_run) = shown_routes iter L R @ [Print DryRunNotice] @ ?D \<or>
      snd (sync manage_dns iter api td response L R dry_run) = shown_routes iter L R @
        [Print ApplyingChanges, Call (UpdateTunnelConfiguration (build_cloudflare_config L)),
         Print UpdateSucceeded] @ ?D \<or>
      snd (sync manage_dns iter api td response L R dry_run) = shown_routes iter L R @
        [Print ApplyingChanges, Call (UpdateTunnelConfiguration (build_cloudflare_config L)),
         Print UpdateFailed] \<or>
      snd (sync manage_dns iter api td response L R dry_run) = shown_routes iter L R @
        [Print ApplyingChanges, Call (UpdateTunnelConfiguration (build_cloudflare_config L))]"
    by (simp add: sync_unfold split: option.splits request_exception.splits)
  then show "filter is_dns_plan (snd (sync manage_dns iter api td response L R dry_run)) = []"
    and "filter is_dns_call (snd (sync manage_dns iter api td response L R dry_run)) = []"
    using c p d by (elim disjE; simp only: filter_append filter.simps is_dns_plan.simps
        is_dns_call.simps if_False append_Nil2 append_Nil)+
qed

text \<open>
  Claim C4, as stated, fails in two places. First, when the update of the tunnel
  configuration is rejected the real run exits before the DNS synchronization: it computes
  and prints no DNS list, while the dry run on the same inputs prints one. Second, in a real
  run the DNS actions are printed after the tunnel configuration has been updated, not before
  every mutation.
\<close>

theorem dry_run_counterexample:
  "sync True sorted_iter api_tunnel_down ex_td (Inr []) [ex_a] [] False =
     (SysExit 1,
      [Print LoadingLocal, Print (FoundLocal 1), Print FetchingRemote, Print (FoundRemote 0),
       Print Analyzing, Print (RoutesToCreate [(''a.example.com'', ''http://10.0.0.1:8080'')]),
       Print ApplyingChanges, Call (UpdateTunnelConfiguration (build_cloudflare_config [ex_a])),
       Print UpdateFailed]) \<and>
   sync True sorted_iter api_tunnel_down ex_td (Inr []) [ex_a] [] True =
     (Returned,
      [Print LoadingLocal, Print (FoundLocal 1), Print FetchingRemote, Print (FoundRemote 0),
       Print Analyzing, Print (RoutesToCreate [(''a.example.com'', ''http://10.0.0.1:8080'')]),
       Print DryRunNotice, Print DnsSynchronizing, Print (DnsToCreate [''a.example.com''])]) \<and>
   sync True sorted_iter api_ok ex_td (Inr []) [ex_a] [] False =
     (Returned,
      [Print LoadingLocal, Print (FoundLocal 1), Print FetchingRemote, Print (FoundRemote 0),
       Print Analyzing, Print (RoutesToCreate [(''a.example.com'', ''http://10.0.0.1:8080'')]),
       Print ApplyingChanges, Call (UpdateTunnelConfiguration (build_cloudflare_config [ex_a])),
       Print UpdateSucceeded, Print DnsSynchronizing, Print (DnsToCreate [''a.example.com'']),
       Call (CreateDnsRecord (tunnel_cname ex_td ''a.example.com'')),
       Print (DnsCreated ''a.example.com''), Print DnsSynchronized])"
proof -
  have a: "sync True sorted_iter api_tunnel_down ex_td (Inr []) [ex_a] [] False =
     (SysExit 1,
      [Print LoadingLocal, Print (FoundLocal 1), Print FetchingRemote, Print (FoundRemote 0),
       Print Analyzing, Print (RoutesToCreate [(''a.example.com'', ''http://10.0.0.1:8080'')]),
       Print ApplyingChanges, Call (UpdateTunnelConfiguration (build_cloudflare_config [ex_a])),
       Print UpdateFailed])"
    by code_simp
  have b: "sync True sorted_iter api_tunnel_down ex_td (Inr []) [ex_a] [] True =
     (Returned,
      [Print LoadingLocal, Print (FoundLocal 1), Print FetchingRemote, Print (FoundRemote 0),
       Print Analyzing, Print (RoutesToCreate [(''a.example.com'', ''http://10.0.0.1:8080'')]),
       Print DryRunNotice, Print DnsSynchronizing, Print (DnsToCreate [''a.example.com''])])"
    by code_simp
  have c: "sync True sorted_iter api_ok ex_td (Inr []) [ex_a] [] False =
     (Returned,
      [Print LoadingLocal, Print (FoundLocal 1), Print FetchingRemote, Print (FoundRemote 0),
       Print Analyzing, Print (RoutesToCreate [(''a.example.com'', ''http://10.0.0.1:8080'')]),
       Print ApplyingChanges, Call (UpdateTunnelConfiguration (build_cloudflare_config [ex_a])),
       Print UpdateSucceeded, Print DnsSynchronizing, Print (DnsToCreate [''a.example.com'']),
       Call (CreateDnsRecord (tunnel_cname ex_td ''a.example.com'')),
       Print (DnsCreated ''a.example.com''), Print DnsSynchronized])"
    by code_simp
  show ?thesis using a b c by blast
qed

text \<open>
  Claim C4, amended. On the same inputs and with the same set iteration order, a dry run and
  a real run print the same route actions: the three buckets of \<open>compare_routes\<close>, each
  printed when it is not empty, with the hostname and the service of every route in it. They
  print the same DNS lists when the real run gets to the DNS synchronization, that is, when
  there is no route change or the update of the tunnel configuration succeeds; when the DNS
  records are managed and were listed, what is printed is the three lists of
  \<open>dns_actions\<close>, each when it is not empty. The dry run makes no mutating call. The real
  run updates the tunnel configuration exactly when one of the route buckets is not empty,
  and its DNS calls are an initial part of the calls planned from the three DNS lists. In
  every run the route actions are printed before the update of the tunnel configuration, and
  the route and DNS actions are printed before the first DNS call.
\<close>

theorem dry_run_reports_the_real_run:
  "filter is_route_plan (snd (sync manage_dns iter api td response L R True)) =
     filter is_route_plan (snd (sync manage_dns iter api td response L R False)) \<and>
   filter is_route_plan (snd (sync manage_dns iter api td response L R True)) =
     route_report (compare_routes iter L R) \<and>
   (\<not> has_changes (compare_routes iter L R) \<or>
    api (UpdateTunnelConfiguration (build_cloudflare_config L)) = None \<longrightarrow>
      filter is_dns_plan (snd (sync manage_dns iter api td response L R True)) =
        filter is_dns_plan (snd (sync manage_dns iter api td response L R False))) \<and>
   filter is_call (snd (sync manage_dns iter api td response L R True)) = [] \<and>
   filter is_route_plan
     (dropWhile (\<lambda>e. \<not> is_tunnel_call e)
        (snd (sync manage_dns iter api td response L R False))) = [] \<and>
   filter (\<lambda>e. is_route_plan e \<or> is_dns_plan e)
     (dropWhile (\<lambda>e. \<not> is_dns_call e)
        (snd (sync manage_dns iter api td response L R False))) = [] \<and>
   filter is_route_plan (snd (sync manage_dns iter api td response L R True)) =
     (if create (compare_routes iter L R) \<noteq> []
      then [Print (RoutesToCreate (map (\<lambda>r. (hostname r, service r))
                                      (create (compare_routes iter L R))))] else []) @
     (if update (compare_routes iter L R) \<noteq> []
      then [Print (RoutesToUpdate (map (\<lambda>r. (hostname r, service r))
                                      (update (compare_routes iter L R))))] else []) @
     (if delete (compare_routes iter L R) \<noteq> []
      then [Print (RoutesToDelete (map (\<lambda>r. (hostname r, service r))
                                      (delete (compare_routes iter L R))))] else []) \<and>
   filter is_tunnel_call (snd (sync manage_dns iter api td response L R False)) =
     (if create (compare_routes iter L R) \<noteq> [] \<or> update (compare_routes iter L R) \<noteq> [] \<or>
         delete (compare_routes iter L R) \<noteq> []
      then [Call (UpdateTunnelConfiguration (build_cloudflare_config L))] else []) \<and>
   (manage_dns \<and> get_existing_dns_records response = Inr (w, existing) \<longrightarrow>
      filter is_dns_plan (snd (sync manage_dns iter api td response L R True)) =
        (if dns_create (dns_actions iter td existing L) \<noteq> []
         then [Print (DnsToCreate (dns_create (dns_actions iter td existing L)))] else []) @
        (if dns_update (dns_actions iter td existing L) \<noteq> []
         then [Print (DnsToUpdate (dns_update (dns_actions iter td existing L)))] else []) @
        (if dns_delete (dns_actions iter td existing L) \<noteq> []
         then [Print (DnsToDelete (dns_delete (dns_actions iter td existing L)))] else []) \<and>
      (\<not> has_changes (compare_routes iter L R) \<or>
       api (UpdateTunnelConfiguration (build_cloudflare_config L)) = None \<longrightarrow>
         filter is_dns_plan (snd (sync manage_dns iter api td response L R False)) =
           (if dns_create (dns_actions iter td existing L) \<noteq> []
            then [Print (DnsToCreate (dns_create (dns_actions iter td existing L)))] else []) @
           (if dns_update (dns_actions iter td existing L) \<noteq> []
            then [Print (DnsToUpdate (dns_update (dns_actions iter td existing L)))] else []) @
           (if dns_delete (dns_actions iter td existing L) \<noteq> []
            then [Print (DnsToDelete (dns_delete (dns_actions iter td existing L)))] else [])) \<and>
      prefix (filter is_dns_call (snd (sync manage_dns iter api td response L R False)))
        (map (\<lambda>h. Call (CreateDnsRecord (tunnel_cname td h)))
           (dns_create (dns_actions iter td existing L)) @
         map (\<lambda>h. Call (UpdateDnsRecord (the (dns_id (getitem existing h))) (tunnel_cname td h)))
           (filter (\<lambda>h. truthy (dns_id (getitem existing h)))
              (dns_update (dns_actions iter td existing L))) @
         map (\<lambda>h. Call (DeleteDnsRecord (the (dns_id (getitem existing h)))))
           (filter (\<lambda>h. truthy (dns_id (getitem existing h)))
              (dns_delete (dns_actions iter td existing L))))) \<and>
   (\<not> manage_dns \<or> get_existing_dns_records response = Inl e \<longrightarrow>
      filter is_dns_plan (snd (sync manage_dns iter api td response L R True)) = [] \<and>
      filter is_dns_plan (snd (sync manage_dns iter api td response L R False)) = [] \<and>
      filter is_dns_call (snd (sync manage_dns iter api td response L R False)) = [])"
proof -
  have r: "filter is_route_plan (snd (sync manage_dns iter api td response L R True)) =
     filter is_route_plan (snd (sync manage_dns iter api td response L R False))"
    by (simp only: sync_route_plan)
  have d: "filter is_dns_plan (snd (sync manage_dns iter api td response L R True)) =
        filter is_dns_plan (snd (sync manage_dns iter api td response L R False))"
    if h: "\<not> has_changes (compare_routes iter L R) \<or>
      api (UpdateTunnelConfiguration (build_cloudflare_config L)) = None"
  proof -
    have "filter is_dns_plan (snd (sync manage_dns iter api td response L R True)) =
        filter is_dns_plan (snd (sync_dns_records manage_dns iter api td response L True))"
      by (rule sync_dns_plan) simp
    moreover have "filter is_dns_plan (snd (sync manage_dns iter api td response L R False)) =
        filter is_dns_plan (snd (sync_dns_records manage_dns iter api td response L False))"
    proof (rule sync_dns_plan)
      from h show "\<not> has_changes (compare_routes iter L R) \<or> False \<or>
          api (UpdateTunnelConfiguration (build_cloudflare_config L)) = None" by simp
    qed
    ultimately show ?thesis by (simp only: sync_dns_plan_explicit)
  qed
  have e7: "filter is_route_plan (snd (sync manage_dns iter api td response L R True)) =
     (if create (compare_routes iter L R) \<noteq> []
      then [Print (RoutesToCreate (map (\<lambda>r. (hostname r, service r))
                                      (create (compare_routes iter L R))))] else []) @
     (if update (compare_routes iter L R) \<noteq> []
      then [Print (RoutesToUpdate (map (\<lambda>r. (hostname r, service r))
                                      (update (compare_routes iter L R))))] else []) @
     (if delete (compare_routes iter L R) \<noteq> []
      then [Print (RoutesToDelete (map (\<lambda>r. (hostname r, service r))
                                      (delete (compare_routes iter L R))))] else [])"
    unfolding sync_route_plan by (rule route_report_explicit)
  have e8: "filter is_tunnel_call (snd (sync manage_dns iter api td response L R False)) =
     (if create (compare_routes iter L R) \<noteq> [] \<or> update (compare_routes iter L R) \<noteq> [] \<or>
         delete (compare_routes iter L R) \<noteq> []
      then [Call (UpdateTunnelConfiguration (build_cloudflare_config L))] else [])"
    by (rule sync_tunnel_call)
  have e9: "filter is_dns_plan (snd (sync manage_dns iter api td response L R True)) =
        (if dns_create (dns_actions iter td existing L) \<noteq> []
         then [Print (DnsToCreate (dns_create (dns_actions iter td existing L)))] else []) @
        (if dns_update (dns_actions iter td existing L) \<noteq> []
         then [Print (DnsToUpdate (dns_update (dns_actions iter td existing L)))] else []) @
        (if dns_delete (dns_actions iter td existing L) \<noteq> []
         then [Print (DnsToDelete (dns_delete (dns_actions iter td existing L)))] else []) \<and>
      (\<not> has_changes (compare_routes iter L R) \<or>
       api (UpdateTunnelConfiguration (build_cloudflare_config L)) = None \<longrightarrow>
         filter is_dns_plan (snd (sync manage_dns iter api td response L R False)) =
        (if dns_create (dns_actions iter td existing L) \<noteq> []
         then [Print (DnsToCreate (dns_create (dns_actions iter td existing L)))] else []) @
        (if dns_update (dns_actions iter td existing L) \<noteq> []
         then [Print (DnsToUpdate (dns_update (dns_actions iter td existing L)))] else []) @
        (if dns_delete (dns_actions iter td existing L) \<noteq> []
         then [Print (DnsToDelete (dns_delete (dns_actions iter td existing L)))] else [])) \<and>
      prefix (filter is_dns_call (snd (sync manage_dns iter api td response L R False)))
        (map (\<lambda>h. Call (CreateDnsRecord (tunnel_cname td h)))
           (dns_create (dns_actions iter td existing L)) @
         map (\<lambda>h. Call (UpdateDnsRecord (the (dns_id (getitem existing h))) (tunnel_cname td h)))
           (filter (\<lambda>h. truthy (dns_id (getitem existing h)))
              (dns_update (dns_actions iter td existing L))) @
         map (\<lambda>h. Call (DeleteDnsRecord (the (dns_id (getitem existing h)))))
           (filter (\<lambda>h. truthy (dns_id (getitem existing h)))
              (dns_delete (dns_actions iter td existing L))))"
    if m: "manage_dns" and g: "get_existing_dns_records response = Inr (w, existing)"
  proof (intro conjI impI)
    show "filter is_dns_plan (snd (sync manage_dns iter api td response L R True)) =
        (if dns_create (dns_actions iter td existing L) \<noteq> []
         then [Print (DnsToCreate (dns_create (dns_actions iter td existing L)))] else []) @
        (if dns_update (dns_actions iter td existing L) \<noteq> []
         then [Print (DnsToUpdate (dns_update (dns_actions iter td existing L)))] else []) @
        (if dns_delete (dns_actions iter td existing L) \<noteq> []
         then [Print (DnsToDelete (dns_delete (dns_actions iter td existing L)))] else [])"
      using m g by (rule sync_dry_dns_plan_explicit)
    show "filter is_dns_plan (snd (sync manage_dns iter api td response L R False)) =
        (if dns_create (dns_actions iter td existing L) \<noteq> []
         then [Print (DnsToCreate (dns_create (dns_actions iter td existing L)))] else []) @
        (if dns_update (dns_actions iter td existing L) \<noteq> []
         then [Print (DnsToUpdate (dns_update (dns_actions iter td existing L)))] else []) @
        (if dns_delete (dns_actions iter td existing L) \<noteq> []
         then [Print (DnsToDelete (dns_delete (dns_actions iter td existing L)))] else [])"
      if "\<not> has_changes (compare_routes iter L R) \<or>
       api (UpdateTunnelConfiguration (build_cloudflare_config L)) = None"
      using m g that by (rule sync_real_dns_plan_explicit)
    show "prefix (filter is_dns_call (snd (sync manage_dns iter api td response L R False)))
        (map (\<lambda>h. Call (CreateDnsRecord (tunnel_cname td h)))
           (dns_create (dns_actions iter td existing L)) @
         map (\<lambda>h. Call (UpdateDnsRecord (the (dns_id (getitem existing h))) (tunnel_cname td h)))
           (filter (\<lambda>h. truthy (dns_id (getitem existing h)))
              (dns_update (dns_actions iter td existing L))) @
         map (\<lambda>h. Call (DeleteDnsRecord (the (dns_id (getitem existing h)))))
           (filter (\<lambda>h. truthy (dns_id (getitem existing h)))
              (dns_delete (dns_actions iter td existing L))))"
      using m g by (rule sync_dns_calls_planned)
  qed
  have e10: "filter is_dns_plan (snd (sync manage_dns iter api td response L R True)) = [] \<and>
      filter is_dns_plan (snd (sync manage_dns iter api td response L R False)) = [] \<and>
      filter is_dns_call (snd (sync manage_dns iter api td response L R False)) = []"
    if "\<not> manage_dns \<or> get_existing_dns_records response = Inl e"
    using sync_dns_off [OF that] by blast
  show ?thesis
    using r sync_route_plan [of manage_dns iter api td response L R True] d
      sync_dry_no_call [of manage_dns iter api td response L R]
      sync_route_plan_before_call [of manage_dns iter api td response L R False]
      sync_plan_before_dns_call [of manage_dns iter api td response L R False]
      e7 e8 e9 e10
    by blast
qed

theorem dry_run_reports_the_real_run_witness:
  "api_ok (UpdateTunnelConfiguration (build_cloudflare_config [ex_a])) = None \<and>
   filter is_dns_plan (snd (sync True sorted_iter api_ok ex_td (Inr []) [ex_a] [] True)) =
     filter is_dns_plan (snd (sync True sorted_iter api_ok ex_td (Inr []) [ex_a] [] False)) \<and>
   filter is_dns_plan (snd (sync True sorted_iter api_ok ex_td (Inr []) [ex_a] [] True)) =
     [Print (DnsToCreate [''a.example.com''])] \<and>
   filter is_route_plan (snd (sync True sorted_iter api_ok ex_td (Inr []) [ex_a] [] True)) =
     [Print (RoutesToCreate [(''a.example.com'', ''http://10.0.0.1:8080'')])] \<and>
   get_existing_dns_records (Inr [ex_rd_a, ex_rd_stale]) = Inr ([], ex_existing_a) \<and>
   api_ok (UpdateTunnelConfiguration (build_cloudflare_config [ex_a, ex_b])) = None \<and>
   filter is_route_plan
     (snd (sync True sorted_iter api_ok ex_td (Inr [ex_rd_a, ex_rd_stale])
             [ex_a, ex_b] [ex_a_old, ex_old] True)) =
     [Print (RoutesToCreate [(''b.example.com'', ''http://10.0.0.2:8080'')]),
      Print (RoutesToUpdate [(''a.example.com'', ''http://10.0.0.1:8080'')]),
      Print (RoutesToDelete [(''old.example.com'', ''http://10.0.0.9:80'')])] \<and>
   filter is_tunnel_call
     (snd (sync True sorted_iter api_ok ex_td (Inr [ex_rd_a, ex_rd_stale])
             [ex_a, ex_b] [ex_a_old, ex_old] False)) =
     [Call (UpdateTunnelConfiguration (build_cloudflare_config [ex_a, ex_b]))] \<and>
   filter is_dns_plan
     (snd (sync True sorted_iter api_ok ex_td (Inr [ex_rd_a, ex_rd_stale])
             [ex_a, ex_b] [ex_a_old, ex_old] True)) =
     [Print (DnsToCreate [''b.example.com'']), Print (DnsToUpdate [''a.example.com'']),
      Print (DnsToDelete [''stale.example.com''])] \<and>
   filter is_dns_plan
     (snd (sync True sorted_iter api_ok ex_td (Inr [ex_rd_a, ex_rd_stale])
             [ex_a, ex_b] [ex_a_old, ex_old] False)) =
     [Print (DnsToCreate [''b.example.com'']), Print (DnsToUpdate [''a.example.com'']),
      Print (DnsToDelete [''stale.example.com''])] \<and>
   prefix
     (filter is_dns_call
        (snd (sync True sorted_iter api_ok ex_td (Inr [ex_rd_a, ex_rd_stale])
                [ex_a, ex_b] [ex_a_old, ex_old] False)))
     [Call (CreateDnsRecord (tunnel_cname ex_td ''b.example.com'')),
      Call (UpdateDnsRecord ''id-a'' (tunnel_cname ex_td ''a.example.com'')),
      Call (DeleteDnsRecord ''id-s'')] \<and>
   filter is_dns_plan
     (snd (sync False sorted_iter api_ok ex_td (Inr [ex_rd_a, ex_rd_stale])
             [ex_a, ex_b] [ex_a_old, ex_old] False)) = [] \<and>
   filter is_dns_call
     (snd (sync False sorted_iter api_ok ex_td (Inr [ex_rd_a, ex_rd_stale])
             [ex_a, ex_b] [ex_a_old, ex_old] False)) = [] \<and>
   get_existing_dns_records (Inl ConnectionError) = Inl ConnectionError \<and>
   filter is_dns_call
     (snd (sync True sorted_iter api_ok ex_td (Inl ConnectionError)
             [ex_a, ex_b] [ex_a_old, ex_old] False)) = []"
proof -
  have h: "api_ok (UpdateTunnelConfiguration (build_cloudflare_config [ex_a])) = None"
    by (simp add: api_ok_def)
  note t = dry_run_reports_the_real_run [of True sorted_iter api_ok ex_td "Inr []" "[ex_a]" "[]"]
  have d: "filter is_dns_plan (snd (sync True sorted_iter api_ok ex_td (Inr []) [ex_a] [] True)) =
     filter is_dns_plan (snd (sync True sorted_iter api_ok ex_td (Inr []) [ex_a] [] False))"
    using t h by blast
  have e: "filter is_dns_plan (snd (sync True sorted_iter api_ok ex_td (Inr []) [ex_a] [] True)) =
     [Print (DnsToCreate [''a.example.com''])]"
    by code_simp
  have r: "route_report (compare_routes sorted_iter [ex_a] []) =
     [Print (RoutesToCreate [(''a.example.com'', ''http://10.0.0.1:8080'')])]"
    by code_simp
  have r': "filter is_route_plan (snd (sync True sorted_iter api_ok ex_td (Inr []) [ex_a] [] True)) =
     [Print (RoutesToCreate [(''a.example.com'', ''http://10.0.0.1:8080'')])]"
    using t [THEN conjunct2, THEN conjunct1] by (simp only: r)
  let ?L = "[ex_a, ex_b]" and ?R = "[ex_a_old, ex_old]"
  let ?acts = "dns_actions sorted_iter ex_td ex_existing_a ?L"
  note u = dry_run_reports_the_real_run [of True sorted_iter api_ok ex_td
      "Inr [ex_rd_a, ex_rd_stale]" ?L ?R "[]" ex_existing_a]
  note u6 = u [THEN conjunct2, THEN conjunct2, THEN conjunct2, THEN conjunct2, THEN conjunct2,
      THEN conjunct2]
  have g: "get_existing_dns_records (Inr [ex_rd_a, ex_rd_stale]) = Inr ([], ex_existing_a)"
    by code_simp
  have k: "api_ok (UpdateTunnelConfiguration (build_cloudflare_config ?L)) = None"
    by (simp add: api_ok_def)
  have rp: "(if create (compare_routes sorted_iter ?L ?R) \<noteq> []
      then [Print (RoutesToCreate (map (\<lambda>r. (hostname r, service r))
                                      (create (compare_routes sorted_iter ?L ?R))))] else []) @
     (if update (compare_routes sorted_iter ?L ?R) \<noteq> []
      then [Print (RoutesToUpdate (map (\<lambda>r. (hostname r, service r))
                                      (update (compare_routes sorted_iter ?L ?R))))] else []) @
     (if delete (compare_routes sorted_iter ?L ?R) \<noteq> []
      then [Print (RoutesToDelete (map (\<lambda>r. (hostname r, service r))
                                      (delete (compare_routes sorted_iter ?L ?R))))] else []) =
     [Print (RoutesToCreate [(''b.example.com'', ''http://10.0.0.2:8080'')]),
      Print (RoutesToUpdate [(''a.example.com'', ''http://10.0.0.1:8080'')]),
      Print (RoutesToDelete [(''old.example.com'', ''http://10.0.0.9:80'')])]"
    by code_simp
  have c7: "filter is_route_plan
     (snd (sync True sorted_iter api_ok ex_td (Inr [ex_rd_a, ex_rd_stale]) ?L ?R True)) =
     [Print (RoutesToCreate [(''b.example.com'', ''http://10.0.0.2:8080'')]),
      Print (RoutesToUpdate [(''a.example.com'', ''http://10.0.0.1:8080'')]),
      Print (RoutesToDelete [(''old.example.com'', ''http://10.0.0.9:80'')])]"
    using u6 [THEN conjunct1] by (simp only: rp)
  have ch: "create (compare_routes sorted_iter ?L ?R) \<noteq> []" by code_simp
  have c8: "filter is_tunnel_call
     (snd (sync True sorted_iter api_ok ex_td (Inr [ex_rd_a, ex_rd_stale]) ?L ?R False)) =
     [Call (UpdateTunnelConfiguration (build_cloudflare_config ?L))]"
    using u6 [THEN conjunct2, THEN conjunct1] ch by (simp only: simp_thms if_True)
  have prem: "True \<and> get_existing_dns_records (Inr [ex_rd_a, ex_rd_stale]) = Inr ([], ex_existing_a)"
    using g by simp
  note u9 = u6 [THEN conjunct2, THEN conjunct2, THEN conjunct1, THEN mp, OF prem]
  have dp: "(if dns_create ?acts \<noteq> [] then [Print (DnsToCreate (dns_create ?acts))] else []) @
        (if dns_update ?acts \<noteq> [] then [Print (DnsToUpdate (dns_update ?acts))] else []) @
        (if dns_delete ?acts \<noteq> [] then [Print (DnsToDelete (dns_delete ?acts))] else []) =
     [Print (DnsToCreate [''b.example.com'']), Print (DnsToUpdate [''a.example.com'']),
      Print (DnsToDelete [''stale.example.com''])]"
    by code_simp
  have c9a: "filter is_dns_plan
     (snd (sync True sorted_iter api_ok ex_td (Inr [ex_rd_a, ex_rd_stale]) ?L ?R True)) =
     [Print (DnsToCreate [''b.example.com'']), Print (DnsToUpdate [''a.example.com'']),
      Print (DnsToDelete [''stale.example.com''])]"
    using u9 [THEN conjunct1] by (simp only: dp)
  have reach: "\<not> has_changes (compare_routes sorted_iter ?L ?R) \<or>
       api_ok (UpdateTunnelConfiguration (build_cloudflare_config ?L)) = None"
    using k by simp
  have c9b: "filter is_dns_plan
     (snd (sync True sorted_iter api_ok ex_td (Inr [ex_rd_a, ex_rd_stale]) ?L ?R False)) =
     [Print (DnsToCreate [''b.example.com'']), Print (DnsToUpdate [''a.example.com'']),
      Print (DnsToDelete [''stale.example.com''])]"
    using u9 [THEN conjunct2, THEN conjunct1, THEN mp, OF reach] by (simp only: dp)
  have cud: "map (\<lambda>h. Call (CreateDnsRecord (tunnel_cname ex_td h))) (dns_create ?acts) @
         map (\<lambda>h. Call (UpdateDnsRecord (the (dns_id (getitem ex_existing_a h)))
                           (tunnel_cname ex_td h)))
           (filter (\<lambda>h. truthy (dns_id (getitem ex_existing_a h))) (dns_update ?acts)) @
         map (\<lambda>h. Call (DeleteDnsRecord (the (dns_id (getitem ex_existing_a h)))))
           (filter (\<lambda>h. truthy (dns_id (getitem ex_existing_a h))) (dns_delete ?acts)) =
     [Call (CreateDnsRecord (tunnel_cname ex_td ''b.example.com'')),
      Call (UpdateDnsRecord ''id-a'' (tunnel_cname ex_td ''a.example.com'')),
      Call (DeleteDnsRecord ''id-s'')]"
    by code_simp
  have c9c: "prefix
     (filter is_dns_call
        (snd (sync True sorted_iter api_ok ex_td (Inr [ex_rd_a, ex_rd_stale]) ?L ?R False)))
     [Call (CreateDnsRecord (tunnel_cname ex_td ''b.example.com'')),
      Call (UpdateDnsRecord ''id-a'' (tunnel_cname ex_td ''a.example.com'')),
      Call (DeleteDnsRecord ''id-s'')]"
    using u9 [THEN conjunct2, THEN conjunct2] by (simp only: cud)
  note v = dry_run_reports_the_real_run [of False sorted_iter api_ok ex_td
      "Inr [ex_rd_a, ex_rd_stale]" ?L ?R "[]" ex_existing_a ConnectionError]
  have off: "\<not> False \<or> get_existing_dns_records (Inr [ex_rd_a, ex_rd_stale]) = Inl ConnectionError"
    by simp
  note v10 = v [THEN conjunct2, THEN conjunct2, THEN conjunct2, THEN conjunct2, THEN conjunct2,
      THEN conjunct2, THEN conjunct2, THEN conjunct2, THEN conjunct2, THEN mp, OF off]
  have n1: "filter is_dns_plan
     (snd (sync False sorted_iter api_ok ex_td (Inr [ex_rd_a, ex_rd_stale]) ?L ?R False)) = []"
    by (rule v10 [THEN conjunct2, THEN conjunct1])
  have n2: "filter is_dns_call
     (snd (sync False sorted_iter api_ok ex_td (Inr [ex_rd_a, ex_rd_stale]) ?L ?R False)) = []"
    by (rule v10 [THEN conjunct2, THEN conjunct2])
  note x = dry_run_reports_the_real_run [of True sorted_iter api_ok ex_td
      "Inl ConnectionError" ?L ?R "[]" ex_existing_a ConnectionError]
  have ge: "get_existing_dns_records (Inl ConnectionError) = Inl ConnectionError"
    by (simp add: get_existing_dns_records_def)
  have fail: "\<not> True \<or> get_existing_dns_records (Inl ConnectionError) = Inl ConnectionError"
    using ge by simp
  note x10 = x [THEN conjunct2, THEN conjunct2, THEN conjunct2, THEN conjunct2, THEN conjunct2,
      THEN conjunct2, THEN conjunct2, THEN conjunct2, THEN conjunct2, THEN mp, OF fail]
  have n3: "filter is_dns_call
     (snd (sync True sorted_iter api_ok ex_td (Inl ConnectionError) ?L ?R False)) = []"
    by (rule x10 [THEN conjunct2, THEN conjunct2])
  show ?thesis using h d e r' g k c7 c8 c9a c9b c9c n1 n2 ge n3 by blast
qed

section \<open>Order of the DNS calls, and when the DNS synchronization runs\<close>

text \<open>
  Claim C7, as stated, fails: the DNS synchronization does not run when the update of the
  tunnel configuration fails. With a remote side that rejects the update, the real run prints
  the failure and exits with status 1; \<^verbatim>\<open>sync_dns_records\<close> is never called, though a
  stale record is listed and a desired hostname has no record.
\<close>

theorem dns_sync_not_reached_counterexample:
  "sync True sorted_iter api_tunnel_down ex_td (Inr [ex_rd_stale]) [ex_a, ex_b] [ex_a_old] False =
     (SysExit 1,
      [Print LoadingLocal, Print (FoundLocal 2), Print FetchingRemote, Print (FoundRemote 1),
       Print Analyzing,
       Print (RoutesToCreate [(''b.example.com'', ''http://10.0.0.2:8080'')]),
       Print (RoutesToUpdate [(''a.example.com'', ''http://10.0.0.1:8080'')]),
       Print ApplyingChanges,
       Call (UpdateTunnelConfiguration (build_cloudflare_config [ex_a, ex_b])),
       Print UpdateFailed])"
  by code_simp

text \<open>
  Claim C7, amended. The DNS changes are applied record by record. The calls planned are, in
  this order, one create for every hostname of the create list, one update for every hostname
  of the update list whose record has an id, and one delete for every hostname of the delete
  list whose record has an id. The calls made are the planned calls up to and including the
  first one that the remote side rejects: no call follows a rejected call. The application
  returns when no call is rejected, exits with status 1 when the rejected call raised an HTTP
  error, and lets any other exception through. The DNS synchronization runs, and its outcome
  is the outcome of the run, when the route reconciliation found no change, in a dry run, and
  when the update of the tunnel configuration succeeded. When that update fails, the run ends
  there, with exit status 1 for an HTTP error, and the DNS synchronization does not run.
\<close>

theorem dns_apply_order_and_reach:
  "filter is_call (snd (apply_dns api td existing acts)) =
     map Call (take (Suc (length (takeWhile (\<lambda>c. api c = None)
             (map (\<lambda>h. CreateDnsRecord (tunnel_cname td h)) (dns_create acts) @
              map (\<lambda>h. UpdateDnsRecord (the (dns_id (getitem existing h))) (tunnel_cname td h))
                (filter (\<lambda>h. truthy (dns_id (getitem existing h))) (dns_update acts)) @
              map (\<lambda>h. DeleteDnsRecord (the (dns_id (getitem existing h))))
                (filter (\<lambda>h. truthy (dns_id (getitem existing h))) (dns_delete acts))))))
        (map (\<lambda>h. CreateDnsRecord (tunnel_cname td h)) (dns_create acts) @
         map (\<lambda>h. UpdateDnsRecord (the (dns_id (getitem existing h))) (tunnel_cname td h))
           (filter (\<lambda>h. truthy (dns_id (getitem existing h))) (dns_update acts)) @
         map (\<lambda>h. DeleteDnsRecord (the (dns_id (getitem existing h))))
           (filter (\<lambda>h. truthy (dns_id (getitem existing h))) (dns_delete acts)))) \<and>
   fst (apply_dns api td existing acts) =
     (case find (\<lambda>c. api c \<noteq> None)
             (map (\<lambda>h. CreateDnsRecord (tunnel_cname td h)) (dns_create acts) @
              map (\<lambda>h. UpdateDnsRecord (the (dns_id (getitem existing h))) (tunnel_cname td h))
                (filter (\<lambda>h. truthy (dns_id (getitem existing h))) (dns_update acts)) @
              map (\<lambda>h. DeleteDnsRecord (the (dns_id (getitem existing h))))
                (filter (\<lambda>h. truthy (dns_id (getitem existing h))) (dns_delete acts))) of
        None \<Rightarrow> Returned
      | Some c \<Rightarrow> (case api c of
                    Some HTTPError \<Rightarrow> SysExit 1
                  | Some ConnectionError \<Rightarrow> Raised ConnectionError
                  | None \<Rightarrow> Returned)) \<and>
   prefix (filter is_call (snd (apply_dns api td existing acts)))
     (map (\<lambda>h. Call (CreateDnsRecord (tunnel_cname td h))) (dns_create acts) @
      map (\<lambda>h. Call (UpdateDnsRecord (the (dns_id (getitem existing h))) (tunnel_cname td h)))
        (filter (\<lambda>h. truthy (dns_id (getitem existing h))) (dns_update acts)) @
      map (\<lambda>h. Call (DeleteDnsRecord (the (dns_id (getitem existing h)))))
        (filter (\<lambda>h. truthy (dns_id (getitem existing h))) (dns_delete acts))) \<and>
   (fst (apply_dns api td existing acts) = Returned \<longrightarrow>
      filter is_call (snd (apply_dns api td existing acts)) =
        map (\<lambda>h. Call (CreateDnsRecord (tunnel_cname td h))) (dns_create acts) @
        map (\<lambda>h. Call (UpdateDnsRecord (the (dns_id (getitem existing h))) (tunnel_cname td h)))
          (filter (\<lambda>h. truthy (dns_id (getitem existing h))) (dns_update acts)) @
        map (\<lambda>h. Call (DeleteDnsRecord (the (dns_id (getitem existing h)))))
          (filter (\<lambda>h. truthy (dns_id (getitem existing h))) (dns_delete acts))) \<and>
   (\<not> has_changes (compare_routes iter L R) \<or> dry_run \<or>
    api (UpdateTunnelConfiguration (build_cloudflare_config L)) = None \<longrightarrow>
      sync manage_dns iter api td response L R dry_run =
        (fst (sync_dns_records manage_dns iter api td response L dry_run),
         shown_routes iter L R @
         (if \<not> has_changes (compare_routes iter L R) then [Print AlreadyInSync]
          else if dry_run then [Print DryRunNotice]
          else [Print ApplyingChanges,
                Call (UpdateTunnelConfiguration (build_cloudflare_config L)),
                Print UpdateSucceeded]) @
         snd (sync_dns_records manage_dns iter api td response L dry_run))) \<and>
   (has_changes (compare_routes iter L R) \<and> \<not> dry_run \<and>
    api (UpdateTunnelConfiguration (build_cloudflare_config L)) = Some e \<longrightarrow>
      sync manage_dns iter api td response L R dry_run =
        ((case e of HTTPError \<Rightarrow> SysExit 1 | ConnectionError \<Rightarrow> Raised ConnectionError),
         shown_routes iter L R @
         Print ApplyingChanges # Call (UpdateTunnelConfiguration (build_cloudflare_config L)) #
         (case e of HTTPError \<Rightarrow> [Print UpdateFailed] | ConnectionError \<Rightarrow> [])) \<and>
      Print DnsSynchronizing \<notin> set (snd (sync manage_dns iter api td response L R dry_run)) \<and>
      filter is_dns_call (snd (sync manage_dns iter api td response L R dry_run)) = [])"
proof -
  have p: "prefix (filter is_call (snd (apply_dns api td existing acts)))
     (map (\<lambda>h. Call (CreateDnsRecord (tunnel_cname td h))) (dns_create acts) @
      map (\<lambda>h. Call (UpdateDnsRecord (the (dns_id (getitem existing h))) (tunnel_cname td h)))
        (filter (\<lambda>h. truthy (dns_id (getitem existing h))) (dns_update acts)) @
      map (\<lambda>h. Call (DeleteDnsRecord (the (dns_id (getitem existing h)))))
        (filter (\<lambda>h. truthy (dns_id (getitem existing h))) (dns_delete acts)))"
    unfolding apply_dns_calls(1) by (rule try_calls(1))
  have a: "filter is_call (snd (apply_dns api td existing acts)) =
        map (\<lambda>h. Call (CreateDnsRecord (tunnel_cname td h))) (dns_create acts) @
        map (\<lambda>h. Call (UpdateDnsRecord (the (dns_id (getitem existing h))) (tunnel_cname td h)))
          (filter (\<lambda>h. truthy (dns_id (getitem existing h))) (dns_update acts)) @
        map (\<lambda>h. Call (DeleteDnsRecord (the (dns_id (getitem existing h)))))
          (filter (\<lambda>h. truthy (dns_id (getitem existing h))) (dns_delete acts))"
    if "fst (apply_dns api td existing acts) = Returned"
    unfolding apply_dns_calls(1) using that [unfolded apply_dns_calls(2)] by (rule try_calls(2))
  have r: "sync manage_dns iter api td response L R dry_run =
        (fst (sync_dns_records manage_dns iter api td response L dry_run),
         shown_routes iter L R @
         (if \<not> has_changes (compare_routes iter L R) then [Print AlreadyInSync]
          else if dry_run then [Print DryRunNotice]
          else [Print ApplyingChanges,
                Call (UpdateTunnelConfiguration (build_cloudflare_config L)),
                Print UpdateSucceeded]) @
         snd (sync_dns_records manage_dns iter api td response L dry_run))"
    if "\<not> has_changes (compare_routes iter L R) \<or> dry_run \<or>
        api (UpdateTunnelConfiguration (build_cloudflare_config L)) = None"
    using that by (auto simp: sync_unfold)
  have f: "sync manage_dns iter api td response L R dry_run =
        ((case e of HTTPError \<Rightarrow> SysExit 1 | ConnectionError \<Rightarrow> Raised ConnectionError),
         shown_routes iter L R @
         Print ApplyingChanges # Call (UpdateTunnelConfiguration (build_cloudflare_config L)) #
         (case e of HTTPError \<Rightarrow> [Print UpdateFailed] | ConnectionError \<Rightarrow> []))"
    if "has_changes (compare_routes iter L R)" "\<not> dry_run"
       "api (UpdateTunnelConfiguration (build_cloudflare_config L)) = Some e"
    using that by (simp add: sync_unfold split: request_exception.splits)
  have g: "Print DnsSynchronizing \<notin> set (snd (sync manage_dns iter api td response L R dry_run)) \<and>
      filter is_dns_call (snd (sync manage_dns iter api td response L R dry_run)) = []"
    if "has_changes (compare_routes iter L R)" "\<not> dry_run"
       "api (UpdateTunnelConfiguration (build_cloudflare_config L)) = Some e"
    unfolding f [OF that]
    by (auto simp: route_report_def split: request_exception.splits)
  have n: "filter is_call (snd (apply_dns api td existing acts)) =
       map Call (take (Suc (length (takeWhile (\<lambda>c. api c = None)
               (map (\<lambda>h. CreateDnsRecord (tunnel_cname td h)) (dns_create acts) @
                map (\<lambda>h. UpdateDnsRecord (the (dns_id (getitem existing h))) (tunnel_cname td h))
                  (filter (\<lambda>h. truthy (dns_id (getitem existing h))) (dns_update acts)) @
                map (\<lambda>h. DeleteDnsRecord (the (dns_id (getitem existing h))))
                  (filter (\<lambda>h. truthy (dns_id (getitem existing h))) (dns_delete acts))))))
          (map (\<lambda>h. CreateDnsRecord (tunnel_cname td h)) (dns_create acts) @
           map (\<lambda>h. UpdateDnsRecord (the (dns_id (getitem existing h))) (tunnel_cname td h))
             (filter (\<lambda>h. truthy (dns_id (getitem existing h))) (dns_update acts)) @
           map (\<lambda>h. DeleteDnsRecord (the (dns_id (getitem existing h))))
             (filter (\<lambda>h. truthy (dns_id (getitem existing h))) (dns_delete acts))))"
    unfolding apply_dns_calls(1) by (rule try_run(2))
  have o: "fst (apply_dns api td existing acts) =
       (case find (\<lambda>c. api c \<noteq> None)
               (map (\<lambda>h. CreateDnsRecord (tunnel_cname td h)) (dns_create acts) @
                map (\<lambda>h. UpdateDnsRecord (the (dns_id (getitem existing h))) (tunnel_cname td h))
                  (filter (\<lambda>h. truthy (dns_id (getitem existing h))) (dns_update acts)) @
                map (\<lambda>h. DeleteDnsRecord (the (dns_id (getitem existing h))))
                  (filter (\<lambda>h. truthy (dns_id (getitem existing h))) (dns_delete acts))) of
          None \<Rightarrow> Returned
        | Some c \<Rightarrow> (case api c of
                      Some HTTPError \<Rightarrow> SysExit 1
                    | Some ConnectionError \<Rightarrow> Raised ConnectionError
                    | None \<Rightarrow> Returned))"
    unfolding apply_dns_outcome try_run(1)
    by (simp split: option.splits request_exception.splits)
  show ?thesis using n o p a r f g by blast
qed

theorem dns_apply_order_and_reach_witness:
  "fst (apply_dns api_ok ex_td ex_existing_a
          (dns_actions sorted_iter ex_td ex_existing_a [ex_a, ex_b])) = Returned \<and>
   filter is_call (snd (apply_dns api_ok ex_td ex_existing_a
          (dns_actions sorted_iter ex_td ex_existing_a [ex_a, ex_b]))) =
     [Call (CreateDnsRecord (tunnel_cname ex_td ''b.example.com'')),
      Call (UpdateDnsRecord ''id-a'' (tunnel_cname ex_td ''a.example.com'')),
      Call (DeleteDnsRecord ''id-s'')] \<and>
   filter is_call (snd (apply_dns api_update_down ex_td ex_existing_a
          (dns_actions sorted_iter ex_td ex_existing_a [ex_a, ex_b]))) =
     [Call (CreateDnsRecord (tunnel_cname ex_td ''b.example.com'')),
      Call (UpdateDnsRecord ''id-a'' (tunnel_cname ex_td ''a.example.com''))] \<and>
   fst (apply_dns api_update_down ex_td ex_existing_a
          (dns_actions sorted_iter ex_td ex_existing_a [ex_a, ex_b])) = SysExit 1 \<and>
   snd (sync True sorted_iter api_ok ex_td (Inr [ex_rd_a, ex_rd_stale])
          [ex_a, ex_b] [ex_a, ex_b] False) =
     shown_routes sorted_iter [ex_a, ex_b] [ex_a, ex_b] @ [Print AlreadyInSync] @
     snd (sync_dns_records True sorted_iter api_ok ex_td (Inr [ex_rd_a, ex_rd_stale])
          [ex_a, ex_b] False) \<and>
   has_changes (compare_routes sorted_iter [ex_a] []) \<and>
   api_tunnel_down (UpdateTunnelConfiguration (build_cloudflare_config [ex_a])) = Some HTTPError \<and>
   fst (sync True sorted_iter api_tunnel_down ex_td (Inr []) [ex_a] [] False) = SysExit 1 \<and>
   Print DnsSynchronizing \<notin>
     set (snd (sync True sorted_iter api_tunnel_down ex_td (Inr []) [ex_a] [] False))"
proof -
  let ?A = "dns_actions sorted_iter ex_td ex_existing_a [ex_a, ex_b]"
  let ?P = "map (\<lambda>h. CreateDnsRecord (tunnel_cname ex_td h)) (dns_create ?A) @
        map (\<lambda>h. UpdateDnsRecord (the (dns_id (getitem ex_existing_a h))) (tunnel_cname ex_td h))
          (filter (\<lambda>h. truthy (dns_id (getitem ex_existing_a h))) (dns_update ?A)) @
        map (\<lambda>h. DeleteDnsRecord (the (dns_id (getitem ex_existing_a h))))
          (filter (\<lambda>h. truthy (dns_id (getitem ex_existing_a h))) (dns_delete ?A))"
  note t1 = dns_apply_order_and_reach [of api_ok ex_td ex_existing_a ?A sorted_iter
      "[ex_a, ex_b]" "[ex_a, ex_b]" False True "Inr [ex_rd_a, ex_rd_stale]" HTTPError]
  note t2 = dns_apply_order_and_reach [of api_tunnel_down ex_td ex_existing_a ?A sorted_iter
      "[ex_a]" "[]" False True "Inr []" HTTPError]
  note t3 = dns_apply_order_and_reach [of api_update_down ex_td ex_existing_a ?A sorted_iter
      "[ex_a]" "[]" False True "Inr []" HTTPError]
  have h1: "fst (apply_dns api_ok ex_td ex_existing_a ?A) = Returned" by code_simp
  have h2: "\<not> has_changes (compare_routes sorted_iter [ex_a, ex_b] [ex_a, ex_b])" by code_simp
  have h3: "has_changes (compare_routes sorted_iter [ex_a] [])" by code_simp
  have h4: "api_tunnel_down (UpdateTunnelConfiguration (build_cloudflare_config [ex_a])) =
      Some HTTPError" by simp
  have ev: "map (\<lambda>h. Call (CreateDnsRecord (tunnel_cname ex_td h))) (dns_create ?A) @
        map (\<lambda>h. Call (UpdateDnsRecord (the (dns_id (getitem ex_existing_a h)))
                          (tunnel_cname ex_td h)))
          (filter (\<lambda>h. truthy (dns_id (getitem ex_existing_a h))) (dns_update ?A)) @
        map (\<lambda>h. Call (DeleteDnsRecord (the (dns_id (getitem ex_existing_a h)))))
          (filter (\<lambda>h. truthy (dns_id (getitem ex_existing_a h))) (dns_delete ?A)) =
     [Call (CreateDnsRecord (tunnel_cname ex_td ''b.example.com'')),
      Call (UpdateDnsRecord ''id-a'' (tunnel_cname ex_td ''a.example.com'')),
      Call (DeleteDnsRecord ''id-s'')]"
    by code_simp
  have c: "filter is_call (snd (apply_dns api_ok ex_td ex_existing_a ?A)) =
     [Call (CreateDnsRecord (tunnel_cname ex_td ''b.example.com'')),
      Call (UpdateDnsRecord ''id-a'' (tunnel_cname ex_td ''a.example.com'')),
      Call (DeleteDnsRecord ''id-s'')]"
    using t1 [THEN conjunct2, THEN conjunct2, THEN conjunct2, THEN conjunct1] h1
    by (simp only: ev simp_thms)
  have st: "map Call (take (Suc (length (takeWhile (\<lambda>c. api_update_down c = None) ?P))) ?P) =
     [Call (CreateDnsRecord (tunnel_cname ex_td ''b.example.com'')),
      Call (UpdateDnsRecord ''id-a'' (tunnel_cname ex_td ''a.example.com''))]"
    by code_simp
  have c3: "filter is_call (snd (apply_dns api_update_down ex_td ex_existing_a ?A)) =
     [Call (CreateDnsRecord (tunnel_cname ex_td ''b.example.com'')),
      Call (UpdateDnsRecord ''id-a'' (tunnel_cname ex_td ''a.example.com''))]"
    using t3 [THEN conjunct1] by (simp only: st)
  have ou: "(case find (\<lambda>c. api_update_down c \<noteq> None) ?P of
        None \<Rightarrow> Returned
      | Some c \<Rightarrow> (case api_update_down c of
                    Some HTTPError \<Rightarrow> SysExit 1
                  | Some ConnectionError \<Rightarrow> Raised ConnectionError
                  | None \<Rightarrow> Returned)) = SysExit 1"
    by code_simp
  have o3: "fst (apply_dns api_update_down ex_td ex_existing_a ?A) = SysExit 1"
    using t3 [THEN conjunct2, THEN conjunct1] by (simp only: ou)
  have s: "sync True sorted_iter api_ok ex_td (Inr [ex_rd_a, ex_rd_stale])
          [ex_a, ex_b] [ex_a, ex_b] False =
     (fst (sync_dns_records True sorted_iter api_ok ex_td (Inr [ex_rd_a, ex_rd_stale])
          [ex_a, ex_b] False),
      shown_routes sorted_iter [ex_a, ex_b] [ex_a, ex_b] @ [Print AlreadyInSync] @
      snd (sync_dns_records True sorted_iter api_ok ex_td (Inr [ex_rd_a, ex_rd_stale])
          [ex_a, ex_b] False))"
    using t1 [THEN conjunct2, THEN conjunct2, THEN conjunct2, THEN conjunct2, THEN conjunct1] h2
    by (simp only: simp_thms if_True)
  have prem: "has_changes (compare_routes sorted_iter [ex_a] []) \<and> \<not> False \<and>
      api_tunnel_down (UpdateTunnelConfiguration (build_cloudflare_config [ex_a])) = Some HTTPError"
    using h3 h4 by simp
  note f = t2 [THEN conjunct2, THEN conjunct2, THEN conjunct2, THEN conjunct2, THEN conjunct2,
      THEN mp, OF prem]
  have f1: "fst (sync True sorted_iter api_tunnel_down ex_td (Inr []) [ex_a] [] False) = SysExit 1"
    using f [THEN conjunct1] by simp
  have f2: "Print DnsSynchronizing \<notin>
     set (snd (sync True sorted_iter api_tunnel_down ex_td (Inr []) [ex_a] [] False))"
    by (rule f [THEN conjunct2, THEN conjunct1])
  have s': "snd (sync True sorted_iter api_ok ex_td (Inr [ex_rd_a, ex_rd_stale])
          [ex_a, ex_b] [ex_a, ex_b] False) =
     shown_routes sorted_iter [ex_a, ex_b] [ex_a, ex_b] @ [Print AlreadyInSync] @
     snd (sync_dns_records True sorted_iter api_ok ex_td (Inr [ex_rd_a, ex_rd_stale])
          [ex_a, ex_b] False)"
    by (simp only: s snd_conv)
  show ?thesis
    using h1 c c3 o3 s' h3 h4 f1 f2 by blast
qed

section \<open>Idempotence of the route reconciliation\<close>

lemma filter_none_free: "PyNone \<notin> set (map snd d) \<Longrightarrow> filter (\<lambda>(k, v). v \<noteq> PyNone) d = d"
  by (induction d) auto

lemma filter_field_free:
  "''noTLSVerify'' \<notin> set (map fst d) \<Longrightarrow> filter (\<lambda>(k, v). k \<noteq> ''noTLSVerify'') d = d"
  by (induction d) auto

lemma OriginRequest_of_model_dump:
  assumes "''noTLSVerify'' \<notin> set (map fst (extra q))" and "PyNone \<notin> set (map snd (extra q))"
  shows "OriginRequest_of (model_dump q) = Inr q"
proof (cases "noTLSVerify q")
  case None
  have "map_of (extra q) ''noTLSVerify'' = None"
    using assms(1) by (simp add: map_of_eq_None_iff)
  then show ?thesis
    using None assms by (cases q)
      (simp add: OriginRequest_of_def model_dump_def filter_none_free filter_field_free)
next
  case (Some b)
  then show ?thesis
    using assms by (cases q)
      (simp add: OriginRequest_of_def model_dump_def filter_none_free filter_field_free)
qed

lemma TunnelRoute_of_to_dict:
  assumes "field_free r" and "none_free r"
  shows "TunnelRoute_of (to_dict r) = Inr r"
proof (cases "originRequest r")
  case None
  then show ?thesis by (cases r) (simp add: TunnelRoute_of_def to_dict_def)
next
  case (Some q)
  then have "OriginRequest_of (model_dump q) = Inr q"
    using assms by (intro OriginRequest_of_model_dump) (simp_all add: field_free_def none_free_def)
  then show ?thesis using Some by (cases r) (simp add: TunnelRoute_of_def to_dict_def)
qed

lemma routes_of_rules_to_dict:
  assumes "\<forall>r\<in>set D. field_free r \<and> none_free r"
  shows "routes_of_rules (map to_dict D @ [catch_all]) = Inr D"
  using assms
proof (induction D)
  case Nil
  show ?case by (simp add: catch_all_def)
next
  case (Cons r D)
  have "rule_hostname (to_dict r) \<noteq> None" by (simp add: to_dict_def)
  moreover have "TunnelRoute_of (to_dict r) = Inr r"
    using Cons.prems by (simp add: TunnelRoute_of_to_dict)
  moreover have "routes_of_rules (map to_dict D @ [catch_all]) = Inr D"
    using Cons by simp
  ultimately show ?case by simp
qed

lemma read_back:
  "\<forall>r\<in>set D. field_free r \<and> none_free r \<Longrightarrow>
     get_cloudflare_routes (Some (build_cloudflare_config D)) = Inr D"
  by (simp add: get_cloudflare_routes_def build_cloudflare_config_def routes_of_rules_to_dict)

lemma compare_routes_same:
  assumes "valid_iter iter" and "\<forall>r\<in>set D. wf_route r"
  shows "create (compare_routes iter D D) = []"
    and "update (compare_routes iter D D) = []"
    and "delete (compare_routes iter D D) = []"
proof -
  have "\<not> \<not> route_eq (getitem (routes_dict D) h) (getitem (routes_dict D) h)"
    if "h \<in> set (iter (hostname ` set D \<inter> hostname ` set D))" for h
  proof -
    have "finite (hostname ` set D \<inter> hostname ` set D)" by simp
    with assms(1) that have "h \<in> hostname ` set D"
      unfolding valid_iter_def by blast
    then have "getitem (routes_dict D) h \<in> set D" by (simp add: getitem_routes_dict_mem)
    with assms(2) show ?thesis by (simp add: route_eq_refl)
  qed
  then have u: "filter (\<lambda>h. \<not> route_eq (getitem (routes_dict D) h) (getitem (routes_dict D) h))
      (iter (hostname ` set D \<inter> hostname ` set D)) = []"
    by (simp only: filter_empty_conv) blast
  show "create (compare_routes iter D D) = []"
    using iter_empty [OF assms(1)] by (simp add: compare_routes_fields)
  show "update (compare_routes iter D D) = []"
    using u by (simp only: compare_routes_fields list.map)
  show "delete (compare_routes iter D D) = []"
    using iter_empty [OF assms(1)] by (simp add: compare_routes_fields)
qed

text \<open>
  Claim C2, as stated, fails. The actual list of the next run is not the desired list but
  what \<^verbatim>\<open>get_cloudflare_routes\<close> parses from the document that was pushed, and
  \<^verbatim>\<open>to_dict\<close> builds that document with \<^verbatim>\<open>exclude_none=True\<close>. A desired route with an
  origin option whose value is \<^verbatim>\<open>None\<close> comes back without that option; the route
  equality compares the extra options, so the second reconciliation reports the route in the
  update bucket again, and so does every later one.
\<close>

theorem reconciliation_round_trip_counterexample:
  "valid_iter sorted_iter \<and> distinct (map hostname [ex_n]) \<and> wf_route ex_n \<and>
   has_changes (compare_routes sorted_iter [ex_n] []) \<and>
   routes_after_sync sorted_iter [ex_n] [] = Inr [ex_n_back] \<and>
   update (compare_routes sorted_iter [ex_n] [ex_n_back]) = [ex_n]"
proof -
  have "distinct (map hostname [ex_n])" by simp
  moreover have "wf_route ex_n" by (simp add: ex_n_def wf_route_def wf_origin_def)
  moreover have "has_changes (compare_routes sorted_iter [ex_n] [])" by code_simp
  moreover have "routes_after_sync sorted_iter [ex_n] [] = Inr [ex_n_back]" by code_simp
  moreover have "update (compare_routes sorted_iter [ex_n] [ex_n_back]) = [ex_n]" by code_simp
  ultimately show ?thesis using valid_iter_sorted_iter by blast
qed

text \<open>
  Claim C2, amended. Reconciliation is idempotent for a desired list in which no origin
  option has the value \<^verbatim>\<open>None\<close>. For such a list \<open>D\<close> the document built by
  \<open>build_cloudflare_config\<close> is parsed back by \<^verbatim>\<open>get_cloudflare_routes\<close> to \<open>D\<close>
  itself; so the actual list \<open>A'\<close> after a run is \<open>D\<close> when the action set of
  \<open>compare_routes D A\<close> had changes, and \<open>A\<close> when it had none, and in both cases
  \<open>compare_routes D A'\<close> has an empty create, update and delete list. Distinct hostnames
  are not needed.
\<close>

theorem reconciliation_idempotent:
  assumes "valid_iter iter"
    and "\<forall>r\<in>set D. wf_route r \<and> field_free r \<and> none_free r"
  shows "get_cloudflare_routes (Some (build_cloudflare_config D)) = Inr D \<and>
         routes_after_sync iter D A =
           Inr (if has_changes (compare_routes iter D A) then D else A) \<and>
         (\<forall>A'. routes_after_sync iter D A = Inr A' \<longrightarrow>
            create (compare_routes iter D A') = [] \<and>
            update (compare_routes iter D A') = [] \<and>
            delete (compare_routes iter D A') = [])"
proof -
  have rb: "get_cloudflare_routes (Some (build_cloudflare_config D)) = Inr D"
    using assms(2) by (intro read_back) blast
  have ra: "routes_after_sync iter D A =
      Inr (if has_changes (compare_routes iter D A) then D else A)"
    by (simp add: routes_after_sync_def rb)
  have wf: "\<forall>r\<in>set D. wf_route r" using assms(2) by blast
  note same = compare_routes_same [OF assms(1) wf]
  have e: "create (compare_routes iter D A') = [] \<and>
            update (compare_routes iter D A') = [] \<and>
            delete (compare_routes iter D A') = []"
    if "routes_after_sync iter D A = Inr A'" for A'
  proof (cases "has_changes (compare_routes iter D A)")
    case True
    with that ra have "A' = D" by simp
    then show ?thesis using same by simp
  next
    case False
    with that ra have "A' = A" by simp
    then show ?thesis using False by (simp add: has_changes_def)
  qed
  show ?thesis using rb ra e by blast
qed

theorem reconciliation_idempotent_witness:
  "valid_iter sorted_iter \<and>
   wf_route ex_b \<and> field_free ex_b \<and> none_free ex_b \<and>
   wf_route ex_a \<and> field_free ex_a \<and> none_free ex_a \<and>
   wf_route ex_c \<and> field_free ex_c \<and> none_free ex_c \<and>
   has_changes (compare_routes sorted_iter [ex_b, ex_a, ex_c] [ex_a_old, ex_c_perm, ex_old]) \<and>
   routes_after_sync sorted_iter [ex_b, ex_a, ex_c] [ex_a_old, ex_c_perm, ex_old] =
     Inr [ex_b, ex_a, ex_c] \<and>
   create (compare_routes sorted_iter [ex_b, ex_a, ex_c] [ex_b, ex_a, ex_c]) = [] \<and>
   update (compare_routes sorted_iter [ex_b, ex_a, ex_c] [ex_b, ex_a, ex_c]) = [] \<and>
   delete (compare_routes sorted_iter [ex_b, ex_a, ex_c] [ex_b, ex_a, ex_c]) = []"
proof -
  have p: "wf_route ex_b" "field_free ex_b" "none_free ex_b"
    "wf_route ex_a" "field_free ex_a" "none_free ex_a"
    "wf_route ex_c" "field_free ex_c" "none_free ex_c"
    by (simp_all add: ex_defs wf_route_def wf_origin_def field_free_def none_free_def)
  then have h2: "\<forall>r\<in>set [ex_b, ex_a, ex_c]. wf_route r \<and> field_free r \<and> none_free r"
    by simp
  have ch: "has_changes (compare_routes sorted_iter [ex_b, ex_a, ex_c]
      [ex_a_old, ex_c_perm, ex_old])"
    by code_simp
  note t = reconciliation_idempotent [OF valid_iter_sorted_iter h2,
      of "[ex_a_old, ex_c_perm, ex_old]"]
  have ra: "routes_after_sync sorted_iter [ex_b, ex_a, ex_c] [ex_a_old, ex_c_perm, ex_old] =
     Inr [ex_b, ex_a, ex_c]"
    using t [THEN conjunct2, THEN conjunct1] ch by simp
  have e: "create (compare_routes sorted_iter [ex_b, ex_a, ex_c] [ex_b, ex_a, ex_c]) = [] \<and>
   update (compare_routes sorted_iter [ex_b, ex_a, ex_c] [ex_b, ex_a, ex_c]) = [] \<and>
   delete (compare_routes sorted_iter [ex_b, ex_a, ex_c] [ex_b, ex_a, ex_c]) = []"
    using t [THEN conjunct2, THEN conjunct2] ra by blast
  show ?thesis using valid_iter_sorted_iter p ch ra e by blast
qed

end
